theory Spec2Isabelle
  imports Main "HOL-Library.Char_ord" "HOL-Library.List_Lexorder" "HOL-Library.AList"
begin

text \<open>
  The plugin keeps the notes of a vault that carry a \<^verbatim>\<open>#kb/name\<close> marker in step with
  the knowledge bases of a remote service. The definitions follow the mobile-aware
  version of \<^verbatim>\<open>main.ts\<close>, the one with the knowledge-base cache, the network policy and
  the batches. The earlier version of the file has the same \<^verbatim>\<open>generateStableFilename\<close>,
  \<^verbatim>\<open>processObsidianLinks\<close>, \<^verbatim>\<open>generateContentHash\<close> and
  \<^verbatim>\<open>addFileToKnowledgeBase\<close>, the same marker pattern and the same condition on the
  upload; it resolves every name with a list request, having no cache, and reads every
  file it reconciles.
\<close>

section \<open>Strings of the host language\<close>

text \<open>
  Text is a list of characters. The functions below only ever classify the ASCII
  characters that the source's regular expressions name; every other character is
  "some character outside the class".
\<close>

text \<open>\<^verbatim>\<open>String.prototype.includes\<close>: does \<open>sub\<close> occur in \<open>s\<close>?\<close>

fun str_includes :: "string \<Rightarrow> string \<Rightarrow> bool" where
  "str_includes [] sub = (sub = [])"
| "str_includes (c # cs) sub = (take (length sub) (c # cs) = sub \<or> str_includes cs sub)"

text \<open>\<^verbatim>\<open>s.split(sep)\<close> for a one-character separator: never the empty array.\<close>

fun splitOn :: "char \<Rightarrow> string \<Rightarrow> string list" where
  "splitOn sep [] = [[]]"
| "splitOn sep (c # cs) =
     (if c = sep then [] # splitOn sep cs
      else (case splitOn sep cs of
              [] \<Rightarrow> [[c]]
            | w # ws \<Rightarrow> (c # w) # ws))"

text \<open>\<^verbatim>\<open>parts.join(sep)\<close>.\<close>

fun join :: "string \<Rightarrow> string list \<Rightarrow> string" where
  "join sep [] = []"
| "join sep [w] = w"
| "join sep (w # v # ws) = w @ sep @ join sep (v # ws)"

text \<open>The character class \<^verbatim>\<open>[a-zA-Z0-9\-_]\<close>.\<close>

definition isTokenChar :: "char \<Rightarrow> bool" where
  "isTokenChar c =
     (c \<in> set ''abcdefghijklmnopqrstuvwxyzABCDEFGHIJKLMNOPQRSTUVWXYZ0123456789-_'')"

text \<open>
  \<^verbatim>\<open>toLowerCase\<close> and \<^verbatim>\<open>toUpperCase\<close> on one character, for the ASCII letters;
  the strings they are applied to below consist of token characters and spaces.
\<close>

definition toLowerChar :: "char \<Rightarrow> char" where
  "toLowerChar c =
     (case map_of (zip ''ABCDEFGHIJKLMNOPQRSTUVWXYZ'' ''abcdefghijklmnopqrstuvwxyz'') c of
        Some d \<Rightarrow> d
      | None \<Rightarrow> c)"

definition toUpperChar :: "char \<Rightarrow> char" where
  "toUpperChar c =
     (case map_of (zip ''abcdefghijklmnopqrstuvwxyz'' ''ABCDEFGHIJKLMNOPQRSTUVWXYZ'') c of
        Some d \<Rightarrow> d
      | None \<Rightarrow> c)"

definition toLowerCase :: "string \<Rightarrow> string" where
  "toLowerCase s = map toLowerChar s"

section \<open>Stable upload names\<close>

text \<open>
  \<^verbatim>\<open>originalName.replace(/\.[^/.]+$/, '')\<close>: the leftmost position at which a dot is
  followed, up to the end of the name, by one or more characters that are neither a
  slash nor a dot; the name is cut there.
\<close>

fun stripExtension :: "string \<Rightarrow> string" where
  "stripExtension [] = []"
| "stripExtension (c # cs) =
     (if c = CHR ''.'' \<and> cs \<noteq> [] \<and> list_all (\<lambda>d. d \<noteq> CHR ''/'' \<and> d \<noteq> CHR ''.'') cs
      then []
      else c # stripExtension cs)"

text \<open>\<^verbatim>\<open>.replace(/[^a-zA-Z0-9\-_]/g, '_')\<close>.\<close>

definition sanitize :: "string \<Rightarrow> string" where
  "sanitize s = map (\<lambda>c. if isTokenChar c then c else CHR ''_'') s"

text \<open>\<^verbatim>\<open>originalName.split('.').pop() || 'md'\<close>: the empty string is falsy.\<close>

definition extensionOf :: "string \<Rightarrow> string" where
  "extensionOf originalName =
     (let popped = last (splitOn CHR ''.'' originalName)
      in if popped = [] then ''md'' else popped)"

definition generateStableFilename :: "string \<Rightarrow> string \<Rightarrow> string" where
  "generateStableFilename originalName contentHash =
     (let extension = extensionOf originalName;
          baseName = sanitize (stripExtension originalName)
      in baseName @ ''_'' @ take 8 contentHash @ ''.'' @ extension)"

section \<open>Membership markers\<close>

text \<open>
  \<^verbatim>\<open>content.matchAll(/#kb\/([a-zA-Z0-9\-_]+)/g)\<close>, the captured groups in order. The
  pattern has no \<^verbatim>\<open>i\<close> flag. A match is the marker followed by the longest run of
  token characters, which must not be empty; the scan goes on behind the match, or one
  character further where there is none.
\<close>

function kbTagMatches :: "string \<Rightarrow> string list" where
  "kbTagMatches s =
     (if s = [] then []
      else if take 4 s = ''#kb/'' \<and> takeWhile isTokenChar (drop 4 s) \<noteq> []
      then takeWhile isTokenChar (drop 4 s) # kbTagMatches (dropWhile isTokenChar (drop 4 s))
      else kbTagMatches (tl s))"
  by pat_completeness auto
termination
proof (relation "measure length", goal_cases)
  case 1
  show ?case by simp
next
  case (2 s)
  have "length (dropWhile isTokenChar (drop 4 s)) \<le> length (drop 4 s)"
    by (rule length_dropWhile_le)
  moreover from 2 have "4 \<le> length s"
    by (cases "4 \<le> length s") auto
  moreover from 2 have "s \<noteq> []" by simp
  ultimately show ?case by simp
next
  case (3 s)
  then show ?case by (cases s) auto
qed

declare kbTagMatches.simps [simp del]

text \<open>\<^verbatim>\<open>word.charAt(0).toUpperCase() + word.slice(1)\<close>.\<close>

fun capitalize :: "string \<Rightarrow> string" where
  "capitalize [] = []"
| "capitalize (c # cs) = toUpperChar c # cs"

definition convertTagToKnowledgeBaseName :: "string \<Rightarrow> string" where
  "convertTagToKnowledgeBaseName tagName =
     join '' ''
       (map capitalize
         (splitOn CHR '' ''
           (toLowerCase
             (map (\<lambda>c. if c = CHR ''-'' \<or> c = CHR ''_'' then CHR '' '' else c) tagName))))"

text \<open>
  The names one file declares, as \<^verbatim>\<open>findFilesWithKBTags\<close> pushes them: one entry
  per match, in order, repetitions kept.
\<close>

definition declaredKnowledgeBases :: "string \<Rightarrow> string list" where
  "declaredKnowledgeBases content = map convertTagToKnowledgeBaseName (kbTagMatches content)"

text \<open>
  The canonical display form in the specification's words: every \<^verbatim>\<open>_\<close> and
  \<^verbatim>\<open>-\<close> becomes a space, and each of the words between the spaces is title-cased,
  its first letter upper case and the rest lower case.
\<close>

definition titleCase :: "string \<Rightarrow> string" where
  "titleCase w = capitalize (toLowerCase w)"

definition canonicalDisplayForm :: "string \<Rightarrow> string" where
  "canonicalDisplayForm tagName =
     join '' ''
       (map titleCase
         (splitOn CHR '' ''
           (map (\<lambda>c. if c = CHR ''-'' \<or> c = CHR ''_'' then CHR '' '' else c) tagName)))"

section \<open>Link rewriting\<close>

text \<open>
  The three patterns of \<^verbatim>\<open>processObsidianLinks\<close>:
  \<^verbatim>\<open>/\[\[([^\]|]+)\|([^\]]+)\]\]/g\<close>, \<^verbatim>\<open>/\[\[([^\]]+)\]\]/g\<close> and
  \<^verbatim>\<open>/!\[\[([^\]]+)\]\]/g\<close>. Each group is a negated class followed by a character
  outside the class, so the longest run is the only candidate and a match at a position
  is decided without backtracking.
\<close>

datatype linkPattern = AliasLink | PlainLink | EmbedLink

text \<open>\<^verbatim>\<open>([^\]]+)\]\]\<close> at the head of \<open>s\<close>: the group and what follows the match.\<close>

definition matchClosing :: "string \<Rightarrow> (string \<times> string) option" where
  "matchClosing s =
     (let g = takeWhile (\<lambda>c. c \<noteq> CHR '']'') s;
          r = dropWhile (\<lambda>c. c \<noteq> CHR '']'') s
      in if g \<noteq> [] \<and> take 2 r = '']]'' then Some (g, drop 2 r) else None)"

text \<open>
  A match of the pattern at the head of \<open>s\<close>: first group, second group (empty for the
  patterns that have one group) and the text behind the match.
\<close>

fun matchLink :: "linkPattern \<Rightarrow> string \<Rightarrow> (string \<times> string \<times> string) option" where
  "matchLink AliasLink s =
     (if take 2 s = ''[[''
      then (let g1 = takeWhile (\<lambda>c. c \<noteq> CHR '']'' \<and> c \<noteq> CHR ''|'') (drop 2 s);
                r1 = dropWhile (\<lambda>c. c \<noteq> CHR '']'' \<and> c \<noteq> CHR ''|'') (drop 2 s)
            in if g1 \<noteq> [] \<and> take 1 r1 = ''|''
               then (case matchClosing (drop 1 r1) of
                       None \<Rightarrow> None
                     | Some (g2, rest) \<Rightarrow> Some (g1, g2, rest))
               else None)
      else None)"
| "matchLink PlainLink s =
     (if take 2 s = ''[[''
      then (case matchClosing (drop 2 s) of
              None \<Rightarrow> None
            | Some (g, rest) \<Rightarrow> Some (g, [], rest))
      else None)"
| "matchLink EmbedLink s =
     (if take 3 s = ''![[''
      then (case matchClosing (drop 3 s) of
              None \<Rightarrow> None
            | Some (g, rest) \<Rightarrow> Some (g, [], rest))
      else None)"

lemma matchClosing_shorter:
  "matchClosing s = Some (g, rest) \<Longrightarrow> length rest \<le> length s"
proof -
  assume m: "matchClosing s = Some (g, rest)"
  have "length (dropWhile (\<lambda>c. c \<noteq> CHR '']'') s) \<le> length s"
    by (rule length_dropWhile_le)
  with m show ?thesis
    by (auto simp: matchClosing_def Let_def split: if_splits)
qed

lemma matchLink_shorter:
  "matchLink p s = Some (g1, g2, rest) \<Longrightarrow> length rest < length s"
proof (cases p)
  case AliasLink
  assume m: "matchLink p s = Some (g1, g2, rest)"
  let ?r1 = "dropWhile (\<lambda>c. c \<noteq> CHR '']'' \<and> c \<noteq> CHR ''|'') (drop 2 s)"
  from m AliasLink have two: "take 2 s = ''[[''"
    by (auto split: if_splits)
  then have len: "2 \<le> length s"
    by (cases "2 \<le> length s") auto
  from m AliasLink two obtain g where "matchClosing (drop 1 ?r1) = Some (g, rest)"
    by (auto simp: Let_def split: if_splits option.splits)
  then have "length rest \<le> length (drop 1 ?r1)"
    by (rule matchClosing_shorter)
  moreover have "length ?r1 \<le> length (drop 2 s)"
    by (rule length_dropWhile_le)
  ultimately show ?thesis using len by simp
next
  case PlainLink
  assume m: "matchLink p s = Some (g1, g2, rest)"
  from m PlainLink have two: "take 2 s = ''[[''"
    by (auto split: if_splits)
  then have len: "2 \<le> length s"
    by (cases "2 \<le> length s") auto
  from m PlainLink two obtain g where "matchClosing (drop 2 s) = Some (g, rest)"
    by (auto split: if_splits option.splits)
  then have "length rest \<le> length (drop 2 s)"
    by (rule matchClosing_shorter)
  then show ?thesis using len by simp
next
  case EmbedLink
  assume m: "matchLink p s = Some (g1, g2, rest)"
  from m EmbedLink have three: "take 3 s = ''![[''"
    by (auto split: if_splits)
  then have len: "3 \<le> length s"
    by (cases "3 \<le> length s") auto
  from m EmbedLink three obtain g where "matchClosing (drop 3 s) = Some (g, rest)"
    by (auto split: if_splits option.splits)
  then have "length rest \<le> length (drop 3 s)"
    by (rule matchClosing_shorter)
  then show ?thesis using len by simp
qed

text \<open>
  \<^verbatim>\<open>content.replace(pattern, callback)\<close> with the \<^verbatim>\<open>g\<close> flag: every match,
  found from left to right, is replaced by what the callback returns for its groups;
  the text between matches is copied.
\<close>

function replaceLinks :: "linkPattern \<Rightarrow> (string \<Rightarrow> string \<Rightarrow> string) \<Rightarrow> string \<Rightarrow> string" where
  "replaceLinks p f s =
     (if s = [] then []
      else (case matchLink p s of
              Some (g1, g2, rest) \<Rightarrow> f g1 g2 @ replaceLinks p f rest
            | None \<Rightarrow> hd s # replaceLinks p f (tl s)))"
  by pat_completeness auto
termination
proof (relation "measure (\<lambda>(p, f, s). length s)", goal_cases)
  case 1
  show ?case by simp
next
  case (2 p f s)
  then show ?case by (cases s) auto
next
  case 3
  then show ?case by (auto dest: matchLink_shorter)
qed

declare replaceLinks.simps [simp del]

text \<open>\<^verbatim>\<open>filePath.split('/').pop() || filePath\<close>.\<close>

definition displayTextOf :: "string \<Rightarrow> string" where
  "displayTextOf filePath =
     (let popped = last (splitOn CHR ''/'' filePath)
      in if popped = [] then filePath else popped)"

text \<open>
  \<^verbatim>\<open>encodeURIComponent\<close> belongs to the host language; \<open>enc\<close> stands for it.
\<close>

definition obsidianUri :: "string \<Rightarrow> string \<Rightarrow> string" where
  "obsidianUri encodedVaultName encodedFilePath =
     ''obsidian://open?vault='' @ encodedVaultName @ ''&file='' @ encodedFilePath"

definition processObsidianLinks :: "(string \<Rightarrow> string) \<Rightarrow> string \<Rightarrow> string \<Rightarrow> string" where
  "processObsidianLinks enc content vaultName =
     (let encodedVaultName = enc vaultName;
          content1 = replaceLinks AliasLink
            (\<lambda>filePath displayText.
               let finalPath = (if CHR ''.'' \<in> set filePath then filePath else filePath @ ''.md'')
               in ''['' @ displayText @ '']('' @ obsidianUri encodedVaultName (enc finalPath) @ '')'')
            content;
          content2 = replaceLinks PlainLink
            (\<lambda>filePath _.
               let finalPath = (if CHR ''.'' \<in> set filePath then filePath else filePath @ ''.md'')
               in ''['' @ displayTextOf filePath @ '']('' @ obsidianUri encodedVaultName (enc finalPath) @ '')'')
            content1;
          content3 = replaceLinks EmbedLink
            (\<lambda>filePath _.
               ''*Embedded: ['' @ displayTextOf filePath @ '']('' @
                 obsidianUri encodedVaultName (enc filePath) @ '')*'')
            content2
      in content3)"

section \<open>Content fingerprints\<close>

text \<open>
  \<^verbatim>\<open>generateContentHash\<close> keeps a 32-bit signed integer: \<^verbatim>\<open>hash << 5\<close> and
  \<^verbatim>\<open>hash & hash\<close> both convert to that range. The result is printed in base 16.
\<close>

definition toInt32 :: "int \<Rightarrow> int" where
  "toInt32 x = (x + 2147483648) mod 4294967296 - 2147483648"

definition digitChar :: "nat \<Rightarrow> char" where
  "digitChar d = ''0123456789abcdefghijklmnopqrstuvwxyz'' ! d"

text \<open>
  \<^verbatim>\<open>n.toString(radix)\<close> for an integer that is not negative; the radix is 10 or 16
  here.
\<close>

function toStringRadix :: "int \<Rightarrow> int \<Rightarrow> string" where
  "toStringRadix radix n =
     (if n < radix \<or> radix < 2 then [digitChar (nat n)]
      else toStringRadix radix (n div radix) @ [digitChar (nat (n mod radix))])"
  by pat_completeness auto
termination
proof (relation "measure (\<lambda>(radix, n). nat n)", goal_cases)
  case 1
  show ?case by simp
next
  case (2 radix n)
  then have "2 \<le> radix" and "radix \<le> n" by simp_all
  then have "n div radix < n"
    by (simp add: int_div_less_self)
  moreover from \<open>2 \<le> radix\<close> \<open>radix \<le> n\<close> have "0 < n" by simp
  ultimately show ?case by simp
qed

declare toStringRadix.simps [simp del]

fun hashLoop :: "int \<Rightarrow> string \<Rightarrow> int" where
  "hashLoop hash [] = hash"
| "hashLoop hash (c # cs) =
     hashLoop (toInt32 ((toInt32 (hash * 32) - hash) + int (of_char c))) cs"

definition generateContentHash :: "string \<Rightarrow> string" where
  "generateContentHash content =
     (if content = [] then ''0''
      else toStringRadix 16 \<bar>hashLoop 0 content\<bar>)"

section \<open>The plugin, its settings and the remote service\<close>

text \<open>An exception carries its message; the handlers of the source look at nothing else.\<close>

datatype exn = Error (message: string)

definition typeError :: exn where
  "typeError = Error ''Cannot read properties of undefined''"

record OpenWebUIFileRecord =
  fileId :: string
  uploadedFilename :: string
  contentHash :: string
  lastModified :: int
  knowledgeBases :: "string list"

record SyncStatus =
  synced :: nat
  total :: nat
  issyncing :: bool
  error :: bool

record KnowledgeBase =
  kb_id :: string
  kb_name :: string

record TFile =
  path :: string
  name :: string
  mtime :: int

record SyncConfig =
  maxFileSize :: nat
  batchSize :: nat
  maxConcurrent :: nat

text \<open>
  The requests the plugin sends: the knowledge list, knowledge creation by name, adding
  and removing a file (knowledge id, file id), deleting a file, and the upload of a
  file name with its content.
\<close>

datatype request =
    ListKnowledge
  | CreateKnowledge string
  | FileAdd string string
  | FileRemove string string
  | FileDelete string
  | FileUpload string string

text \<open>
  The body of an answer, at the types the source declares for it: the array of
  knowledge bases, an object with an \<^verbatim>\<open>id\<close>, or \<^verbatim>\<open>null\<close>. An answer is a status
  with its text and body, or the transport fails with a message.
\<close>

datatype json = JNull | JArray "KnowledgeBase list" | JObject string

datatype http = Unreachable string | Response nat string json

datatype connection = Wifi | Cellular | Unknown

datatype networkBehavior = Always | WifiPreferred | WifiOnly

record MobileSettings =
  networkBehavior :: networkBehavior
  cellularFileLimit :: nat
  maxConcurrentUploads :: nat
  mobileBatchSize :: nat
  enableBackgroundSync :: bool
  batteryOptimization :: bool
  lowBatteryThreshold :: int

text \<open>
  What the plugin does not own. The remote service answers a request knowing the
  requests sent before it; \<open>now\<close> gives the successive readings of \<^verbatim>\<open>Date.now()\<close>;
  the vault lists its markdown files and reads a file by its path or fails.
  \<^verbatim>\<open>getBatteryLevel\<close> resolves to a floating-point percentage, which the source only
  compares with the threshold of the settings, a whole number; the comparison is decided
  by the integer part of the percentage, and \<open>batteryLevel\<close> is that integer part.
  When the reconciliations of a batch wait, the host decides which of them goes on
  next: \<open>schedule\<close> gives, for the paths of a batch, the positions in the batch of the
  reconciliations it resumes, one after the other.
\<close>

record host =
  respond :: "request list \<Rightarrow> request \<Rightarrow> http"
  now :: "nat \<Rightarrow> int"
  vaultRead :: "string \<Rightarrow> exn + string"
  vaultName :: string
  markdownFiles :: "TFile list"
  normalizePath :: "string \<Rightarrow> string"
  encodeURIComponent :: "string \<Rightarrow> string"
  connectionType :: connection
  isMobileDevice :: bool
  batteryLevel :: int
  documentHidden :: bool
  schedule :: "string list \<Rightarrow> nat list"

text \<open>
  The plugin object. \<open>syncState\<close> and \<open>fileMapping\<close> are the two persisted tables of the
  settings, in key order; \<open>requests\<close> lists the requests sent so far, \<open>clockReads\<close>
  counts the readings of the clock, \<open>notices\<close> are the messages shown to the user.
  \<^verbatim>\<open>saveSettings\<close> writes the settings object as it stands, so the tables below are
  what a save persists.
\<close>

record plugin =
  openwebuiUrl :: string
  apiToken :: string
  mobile :: MobileSettings
  syncState :: "(string \<times> string list) list"
  fileMapping :: "(string \<times> OpenWebUIFileRecord) list"
  syncStatus :: SyncStatus
  syncMutex :: bool
  kbCache :: "string \<rightharpoonup> string \<times> int"
  requests :: "request list"
  clockReads :: nat
  lastCellularWarning :: int
  notices :: "string list"

definition KB_CACHE_TTL :: int where
  "KB_CACHE_TTL = 5 * 60 * 1000"

text \<open>A string or \<^verbatim>\<open>null\<close> used as a condition: \<^verbatim>\<open>null\<close> and the empty string are falsy.\<close>

definition truthy :: "string option \<Rightarrow> bool" where
  "truthy v = (case v of None \<Rightarrow> False | Some i \<Rightarrow> i \<noteq> [])"

definition DateNow :: "host \<Rightarrow> plugin \<Rightarrow> int \<times> plugin" where
  "DateNow h s = (now h (clockReads s), s\<lparr>clockReads := Suc (clockReads s)\<rparr>)"

text \<open>
  \<^verbatim>\<open>makeApiRequest\<close>. No caller passes \<^verbatim>\<open>allowNotFound\<close>, so the only test on the
  status is \<^verbatim>\<open>response.status >= 400\<close>.
\<close>

definition makeApiRequest :: "host \<Rightarrow> request \<Rightarrow> plugin \<Rightarrow> (exn + json) \<times> plugin" where
  "makeApiRequest h req s =
     (if openwebuiUrl s = [] \<or> apiToken s = []
      then (Inl (Error ''OpenWebUI URL and API token must be configured''), s)
      else (case respond h (requests s) req of
              Unreachable m \<Rightarrow> (Inl (Error m), s\<lparr>requests := requests s @ [req]\<rparr>)
            | Response status text body \<Rightarrow>
                if 400 \<le> status
                then (Inl (Error (''API request failed: '' @ toStringRadix 10 (int status) @ '' '' @ text)),
                      s\<lparr>requests := requests s @ [req]\<rparr>)
                else (Inr body, s\<lparr>requests := requests s @ [req]\<rparr>)))"

text \<open>The loop of \<^verbatim>\<open>findKnowledgeBaseByName\<close> that caches every entry of the list.\<close>

fun cacheKnowledgeBases :: "host \<Rightarrow> KnowledgeBase list \<Rightarrow> plugin \<Rightarrow> plugin" where
  "cacheKnowledgeBases h [] s = s"
| "cacheKnowledgeBases h (kb # kbs) s =
     cacheKnowledgeBases h kbs
       (s\<lparr>kbCache := (kbCache s)(kb_name kb \<mapsto> (kb_id kb, now h (clockReads s))),
          clockReads := Suc (clockReads s)\<rparr>)"

text \<open>The part of \<^verbatim>\<open>findKnowledgeBaseByName\<close> behind the cache test.\<close>

definition lookupKnowledgeBase :: "host \<Rightarrow> string \<Rightarrow> plugin \<Rightarrow> string option \<times> plugin" where
  "lookupKnowledgeBase h nm s =
     (case makeApiRequest h ListKnowledge s of
        (Inl e, s1) \<Rightarrow> (None, s1)
      | (Inr body, s1) \<Rightarrow>
          (case body of
             JArray kbs \<Rightarrow>
               (map_option kb_id (find (\<lambda>kb. kb_name kb = nm) kbs),
                cacheKnowledgeBases h kbs s1)
           | _ \<Rightarrow> (None, s1)))"

definition findKnowledgeBaseByName :: "host \<Rightarrow> string \<Rightarrow> plugin \<Rightarrow> string option \<times> plugin" where
  "findKnowledgeBaseByName h nm s =
     (case kbCache s nm of
        None \<Rightarrow> lookupKnowledgeBase h nm s
      | Some (cachedId, timestamp) \<Rightarrow>
          (case DateNow h s of
             (t, s1) \<Rightarrow>
               if t - timestamp < KB_CACHE_TTL then (Some cachedId, s1)
               else lookupKnowledgeBase h nm s1))"

definition getOrCreateKnowledgeBase :: "host \<Rightarrow> string \<Rightarrow> plugin \<Rightarrow> (exn + string) \<times> plugin" where
  "getOrCreateKnowledgeBase h nm s =
     (case findKnowledgeBaseByName h nm s of
        (existingId, s1) \<Rightarrow>
          if truthy existingId then (Inr (the existingId), s1)
          else (case makeApiRequest h (CreateKnowledge nm) s1 of
                  (Inl e, s2) \<Rightarrow> (Inl e, s2)
                | (Inr body, s2) \<Rightarrow>
                    (case body of
                       JObject newId \<Rightarrow>
                         (Inr newId,
                          s2\<lparr>kbCache := (kbCache s2)(nm \<mapsto> (newId, now h (clockReads s2))),
                             clockReads := Suc (clockReads s2)\<rparr>)
                     | _ \<Rightarrow> (Inl typeError, s2))))"

section \<open>Detaching, deleting, uploading, attaching\<close>

text \<open>
  A record handed to the functions below is always the object that \<open>fileMapping\<close> holds
  under some path. The model names it by that path, so an assignment to one of its fields
  is an update of the table, as it is in the source.
\<close>

definition dropKnowledgeBase :: "string \<Rightarrow> string \<Rightarrow> plugin \<Rightarrow> plugin" where
  "dropKnowledgeBase filePath kbName s =
     s\<lparr>fileMapping :=
         AList.map_entry filePath
           (\<lambda>r. r\<lparr>knowledgeBases := filter (\<lambda>kb. kb \<noteq> kbName) (knowledgeBases r)\<rparr>)
           (fileMapping s)\<rparr>"

text \<open>The test of the two handlers that take an error for "already removed".\<close>

definition notFoundMessage :: "string \<Rightarrow> bool" where
  "notFoundMessage m =
     (m \<noteq> [] \<and>
      (str_includes m ''could not find'' \<or> str_includes m ''404'' \<or> str_includes m ''400''))"

definition removeFileFromKnowledgeBase ::
  "host \<Rightarrow> string \<Rightarrow> string \<Rightarrow> plugin \<Rightarrow> (exn + unit) \<times> plugin" where
  "removeFileFromKnowledgeBase h kbName filePath s =
     (case findKnowledgeBaseByName h kbName s of
        (kbId, s1) \<Rightarrow>
          if \<not> truthy kbId then (Inr (), s1)
          else (case map_of (fileMapping s1) filePath of
                  None \<Rightarrow> (Inl typeError, s1)
                | Some record \<Rightarrow>
                    (case makeApiRequest h (FileRemove (the kbId) (fileId record)) s1 of
                       (Inr body, s2) \<Rightarrow> (Inr (), dropKnowledgeBase filePath kbName s2)
                     | (Inl e, s2) \<Rightarrow>
                         if notFoundMessage (message e)
                         then (Inr (), dropKnowledgeBase filePath kbName s2)
                         else (Inl e, s2))))"

text \<open>\<^verbatim>\<open>deleteFileFromOpenWebUI\<close> swallows every failure.\<close>

definition deleteFileFromOpenWebUI :: "host \<Rightarrow> string \<Rightarrow> plugin \<Rightarrow> plugin" where
  "deleteFileFromOpenWebUI h fid s = snd (makeApiRequest h (FileDelete fid) s)"

text \<open>The loop of \<^verbatim>\<open>removeFileFromAllKnowledgeBases\<close>: a failure is logged, the loop goes on.\<close>

fun removeFromEach :: "host \<Rightarrow> string \<Rightarrow> string list \<Rightarrow> plugin \<Rightarrow> plugin" where
  "removeFromEach h filePath [] s = s"
| "removeFromEach h filePath (kbName # rest) s =
     removeFromEach h filePath rest (snd (removeFileFromKnowledgeBase h kbName filePath s))"

definition removeFileFromAllKnowledgeBases ::
  "host \<Rightarrow> string \<Rightarrow> plugin \<Rightarrow> (exn + unit) \<times> plugin" where
  "removeFileFromAllKnowledgeBases h filePath s =
     (case map_of (fileMapping s) filePath of
        None \<Rightarrow> (Inl typeError, s)
      | Some record \<Rightarrow>
          (Inr (),
           deleteFileFromOpenWebUI h (fileId record)
             (removeFromEach h filePath (knowledgeBases record) s)))"

text \<open>
  \<^verbatim>\<open>uploadFile\<close> goes through \<^verbatim>\<open>fetch\<close>, not through \<^verbatim>\<open>makeApiRequest\<close>; it
  succeeds on a status from 200 to 299 and returns the uploaded file, of which the
  callers read the \<^verbatim>\<open>id\<close>.
\<close>

definition uploadFile :: "host \<Rightarrow> string \<Rightarrow> string \<Rightarrow> plugin \<Rightarrow> (exn + string) \<times> plugin" where
  "uploadFile h filename content s =
     (case respond h (requests s) (FileUpload filename content) of
        Unreachable m \<Rightarrow> (Inl (Error m), s\<lparr>requests := requests s @ [FileUpload filename content]\<rparr>)
      | Response status errorText body \<Rightarrow>
          if \<not> (200 \<le> status \<and> status \<le> 299)
          then (if status = 400 \<and> str_includes errorText ''Duplicate content''
                then (Inl (Error (''Duplicate content detected for '' @ filename @
                                   ''. The file content already exists in OpenWebUI.'')),
                      s\<lparr>requests := requests s @ [FileUpload filename content]\<rparr>)
                else (Inl (Error (''Upload failed: '' @ toStringRadix 10 (int status) @ '' '' @ errorText)),
                      s\<lparr>requests := requests s @ [FileUpload filename content]\<rparr>))
          else (case body of
                  JObject newId \<Rightarrow>
                    (Inr newId, s\<lparr>requests := requests s @ [FileUpload filename content]\<rparr>)
                | _ \<Rightarrow>
                    (Inl typeError, s\<lparr>requests := requests s @ [FileUpload filename content]\<rparr>)))"

definition addFileToKnowledgeBase ::
  "host \<Rightarrow> string \<Rightarrow> string \<Rightarrow> plugin \<Rightarrow> (exn + unit) \<times> plugin" where
  "addFileToKnowledgeBase h kbId fid s =
     (case makeApiRequest h (FileAdd kbId fid) s of
        (Inl e, s1) \<Rightarrow> (Inl e, s1)
      | (Inr body, s1) \<Rightarrow> (Inr (), s1))"

section \<open>Reconciling one file\<close>

definition countSynced :: "plugin \<Rightarrow> plugin" where
  "countSynced s = s\<lparr>syncStatus := (syncStatus s)\<lparr>synced := Suc (synced (syncStatus s))\<rparr>\<rparr>"

text \<open>\<^verbatim>\<open>file.stat.mtime || Date.now()\<close>.\<close>

definition readLastModified :: "host \<Rightarrow> TFile \<Rightarrow> plugin \<Rightarrow> int \<times> plugin" where
  "readLastModified h file s = (if mtime file \<noteq> 0 then (mtime file, s) else DateNow h s)"

text \<open>Reading a file and rewriting its links.\<close>

definition readProcessed :: "host \<Rightarrow> TFile \<Rightarrow> exn + string" where
  "readProcessed h file =
     (case vaultRead h (path file) of
        Inl e \<Rightarrow> Inl e
      | Inr rawContent \<Rightarrow>
          Inr (processObsidianLinks (encodeURIComponent h) rawContent (vaultName h)))"

text \<open>
  \<^verbatim>\<open>(bytes / (1024 * 1024)).toFixed(2)\<close>: the quotient is exact in floating point,
  and \<^verbatim>\<open>toFixed\<close> rounds it to the nearest hundredth, a tie upwards.
\<close>

definition megabytes :: "nat \<Rightarrow> string" where
  "megabytes bytes =
     (let hundredths = (200 * bytes + 1048576) div 2097152
      in toStringRadix 10 (int (hundredths div 100)) @ ''.''
           @ [digitChar (hundredths div 10 mod 10), digitChar (hundredths mod 10)])"

text \<open>
  The content and its hash as the first part of \<^verbatim>\<open>syncFileWithStateTracking\<close>
  obtains them: read, checked against the size limit and hashed when the modification
  time differs from the recorded one or nothing is recorded, else the recorded hash and
  the empty content.
\<close>

definition fingerprintFile ::
  "host \<Rightarrow> TFile \<Rightarrow> SyncConfig option \<Rightarrow> OpenWebUIFileRecord option \<Rightarrow> int
     \<Rightarrow> exn + string \<times> string" where
  "fingerprintFile h file config previousRecord lm =
     (if (case previousRecord of None \<Rightarrow> True | Some r \<Rightarrow> lastModified r \<noteq> lm)
      then (case vaultRead h (path file) of
              Inl e \<Rightarrow> Inl e
            | Inr rawContent \<Rightarrow>
                if (case config of
                      None \<Rightarrow> False
                    | Some c \<Rightarrow> 0 < maxFileSize c \<and> maxFileSize c < length rawContent)
                then Inl (Error (''File too large ('' @ megabytes (length rawContent) @ ''MB > ''
                                   @ megabytes (maxFileSize (the config))
                                   @ ''MB limit on current connection)''))
                else (let content = processObsidianLinks (encodeURIComponent h) rawContent (vaultName h)
                      in Inr (content, generateContentHash content)))
      else (case previousRecord of
              None \<Rightarrow> Inr ([], [])
            | Some r \<Rightarrow> Inr ([], contentHash r)))"

text \<open>The loop over \<^verbatim>\<open>kbsToRemoveFrom\<close>.\<close>

fun removeFromOldKBs :: "host \<Rightarrow> string \<Rightarrow> string list \<Rightarrow> plugin \<Rightarrow> plugin" where
  "removeFromOldKBs h filePath [] s = s"
| "removeFromOldKBs h filePath (kbName # rest) s =
     (case removeFileFromKnowledgeBase h kbName filePath s of
        (Inr u, s1) \<Rightarrow> removeFromOldKBs h filePath rest (countSynced s1)
      | (Inl e, s1) \<Rightarrow> removeFromOldKBs h filePath rest s1)"

text \<open>The loop over \<^verbatim>\<open>targetKBs\<close>, on the record that \<^verbatim>\<open>newRecord\<close> names.\<close>

fun addToKnowledgeBases ::
  "host \<Rightarrow> string list \<Rightarrow> OpenWebUIFileRecord \<Rightarrow> plugin \<Rightarrow> OpenWebUIFileRecord \<times> plugin" where
  "addToKnowledgeBases h [] newRecord s = (newRecord, s)"
| "addToKnowledgeBases h (kbName # rest) newRecord s =
     (case getOrCreateKnowledgeBase h kbName s of
        (Inl e, s1) \<Rightarrow> addToKnowledgeBases h rest newRecord s1
      | (Inr kbId, s1) \<Rightarrow>
          (case addFileToKnowledgeBase h kbId (fileId newRecord) s1 of
             (Inl e, s2) \<Rightarrow> addToKnowledgeBases h rest newRecord s2
           | (Inr u, s2) \<Rightarrow>
               addToKnowledgeBases h rest
                 (if kbName \<in> set (knowledgeBases newRecord) then newRecord
                  else newRecord\<lparr>knowledgeBases := knowledgeBases newRecord @ [kbName]\<rparr>)
                 (countSynced s2)))"

text \<open>The last statements: both tables are written under the file's path.\<close>

definition updateState :: "string \<Rightarrow> string list \<Rightarrow> OpenWebUIFileRecord \<Rightarrow> plugin \<Rightarrow> plugin" where
  "updateState filePath currentKBs newRecord s =
     s\<lparr>syncState := AList.update filePath currentKBs (syncState s),
       fileMapping := AList.update filePath newRecord (fileMapping s)\<rparr>"

text \<open>
  The upload and everything behind it. Where nothing is uploaded, \<^verbatim>\<open>newRecord\<close> is
  the previous record itself, the object stored under the path; the source gets there
  only with a previous record, and the model leaves the table alone where there is none.
\<close>

definition uploadAndAttach ::
  "host \<Rightarrow> TFile \<Rightarrow> string \<Rightarrow> int \<Rightarrow> string \<Rightarrow> string \<Rightarrow> bool \<Rightarrow> string list \<Rightarrow> string list
     \<Rightarrow> plugin \<Rightarrow> (exn + unit) \<times> plugin" where
  "uploadAndAttach h file filePath lm content hash contentChanged currentKBs previousKBs s =
     (let kbsToAddTo = filter (\<lambda>kb. kb \<notin> set previousKBs) currentKBs;
          kbsToUpdate = (if contentChanged then filter (\<lambda>kb. kb \<in> set previousKBs) currentKBs else []);
          targetKBs = (if contentChanged then currentKBs else kbsToAddTo @ kbsToUpdate)
      in if contentChanged \<or> kbsToAddTo \<noteq> [] \<or> kbsToUpdate \<noteq> []
         then (case (if content = [] then readProcessed h file else Inr content) of
                 Inl e \<Rightarrow> (Inl e, s)
               | Inr content1 \<Rightarrow>
                   (let stableFilename = generateStableFilename (name file) hash
                    in case uploadFile h stableFilename content1 s of
                         (Inl e, s1) \<Rightarrow> (Inl e, s1)
                       | (Inr uploadedId, s1) \<Rightarrow>
                           (case addToKnowledgeBases h targetKBs
                                   \<lparr>fileId = uploadedId, uploadedFilename = stableFilename,
                                    contentHash = hash, lastModified = lm, knowledgeBases = []\<rparr> s1 of
                              (newRecord, s2) \<Rightarrow>
                                (Inr (), updateState filePath currentKBs newRecord s2))))
         else (case map_of (fileMapping s) filePath of
                 None \<Rightarrow> (Inr (), s\<lparr>syncState := AList.update filePath currentKBs (syncState s)\<rparr>)
               | Some previousRecord \<Rightarrow>
                   (case addToKnowledgeBases h targetKBs previousRecord s of
                      (newRecord, s2) \<Rightarrow>
                        (Inr (), updateState filePath currentKBs newRecord s2))))"

text \<open>
  \<^verbatim>\<open>syncFileWithStateTracking\<close>. \<^verbatim>\<open>currentKBs.sort()\<close> and
  \<^verbatim>\<open>previousKBs.sort()\<close> sort in place: the declared names are sorted from there on,
  and so is the array stored in \<open>syncState\<close>. Two arrays of strings have the same
  \<^verbatim>\<open>JSON.stringify\<close> exactly when they are equal.
\<close>

definition syncFileWithStateTracking ::
  "host \<Rightarrow> TFile \<Rightarrow> string list \<Rightarrow> SyncConfig option \<Rightarrow> plugin \<Rightarrow> (exn + unit) \<times> plugin" where
  "syncFileWithStateTracking h file declaredKBs config s =
     (let filePath = normalizePath h (path file)
      in case readLastModified h file s of
           (lm, s0) \<Rightarrow>
             (let previousRecord = map_of (fileMapping s0) filePath;
                  timeChanged = (case previousRecord of None \<Rightarrow> True | Some r \<Rightarrow> lastModified r \<noteq> lm)
              in case fingerprintFile h file config previousRecord lm of
                   Inl e \<Rightarrow> (Inl e, s0)
                 | Inr (content, hash) \<Rightarrow>
                     (let contentChanged =
                            (timeChanged \<and>
                             (case previousRecord of None \<Rightarrow> True | Some r \<Rightarrow> contentHash r \<noteq> hash));
                          currentKBs = sort declaredKBs;
                          previousKBs =
                            (case map_of (syncState s0) filePath of None \<Rightarrow> [] | Some kbs \<Rightarrow> sort kbs);
                          kbsChanged = (currentKBs \<noteq> previousKBs);
                          s1 = s0\<lparr>syncState := AList.map_entry filePath sort (syncState s0)\<rparr>
                      in if \<not> contentChanged \<and> \<not> kbsChanged then (Inr (), s1)
                         else (case (if contentChanged \<and> previousRecord \<noteq> None
                                     then removeFileFromAllKnowledgeBases h filePath s1
                                     else (Inr (), s1)) of
                                 (Inl e, s2) \<Rightarrow> (Inl e, s2)
                               | (Inr u, s2) \<Rightarrow>
                                   (let kbsToRemoveFrom = filter (\<lambda>kb. kb \<notin> set currentKBs) previousKBs;
                                        s3 = (if \<not> contentChanged
                                              then removeFromOldKBs h filePath kbsToRemoveFrom s2
                                              else s2)
                                    in uploadAndAttach h file filePath lm content hash contentChanged
                                         currentKBs previousKBs s3)))))"

section \<open>Asynchronous functions\<close>

text \<open>
  The functions above give what an asynchronous function of the source does when
  nothing else runs before it returns. Within a batch the source starts several
  reconciliations together, and then each of them runs only up to its next
  \<^verbatim>\<open>await\<close>, where the others get their turn and may change what it finds when it
  is resumed. A task is an asynchronous function that has not returned yet: it has
  returned a value, or it looks at the plugin, changes it and goes on without giving way,
  or it waits. Every \<^verbatim>\<open>await\<close> of the source is an \<open>await\<close> below; a record that
  the source holds across an \<^verbatim>\<open>await\<close> is the object stored under its path, and the
  tasks read it there.
\<close>

datatype 'a task =
    Done 'a
  | Act "plugin \<Rightarrow> plugin" "plugin \<Rightarrow> 'a task"
  | Await "'a task"

primrec andThen :: "'a task \<Rightarrow> ('a \<Rightarrow> 'b task) \<Rightarrow> 'b task" where
  "andThen (Done a) f = f a"
| "andThen (Act u k) f = Act u (\<lambda>s. andThen (k s) f)"
| "andThen (Await t) f = Await (andThen t f)"

primrec run :: "'a task \<Rightarrow> plugin \<Rightarrow> 'a \<times> plugin" where
  "run (Done a) = (\<lambda>s. (a, s))"
| "run (Act u k) = (\<lambda>s. run (k s) (u s))"
| "run (Await t) = run t"

primrec advance :: "'a task \<Rightarrow> plugin \<Rightarrow> 'a task \<times> plugin" where
  "advance (Done a) = (\<lambda>s. (Done a, s))"
| "advance (Act u k) = (\<lambda>s. advance (k s) (u s))"
| "advance (Await t) = (\<lambda>s. (t, s))"

definition look :: "(plugin \<Rightarrow> 'a task) \<Rightarrow> 'a task" where
  "look k = Act (\<lambda>s. s) k"

definition atomic :: "(plugin \<Rightarrow> 'a \<times> plugin) \<Rightarrow> 'a task" where
  "atomic f = Act (\<lambda>s. snd (f s)) (\<lambda>s. Done (fst (f s)))"

definition await :: "'a task \<Rightarrow> 'a task" where
  "await t = andThen t (\<lambda>a. Await (Done a))"

text \<open>
  The functions of the preceding sections as tasks, statement by statement the same.
  The answer to a request is fixed when the request goes out, by the requests sent
  before it.
\<close>

text \<open>\<^verbatim>\<open>requestUrl\<close> and \<^verbatim>\<open>fetch\<close>: the request goes out, the answer is what is awaited.\<close>

definition requestUrl :: "host \<Rightarrow> request \<Rightarrow> http task" where
  "requestUrl h req =
     Act (\<lambda>s. s\<lparr>requests := requests s @ [req]\<rparr>) (\<lambda>s. Done (respond h (requests s) req))"

definition makeApiRequest_task :: "host \<Rightarrow> request \<Rightarrow> (exn + json) task" where
  "makeApiRequest_task h req =
     look (\<lambda>s.
       if openwebuiUrl s = [] \<or> apiToken s = []
       then Done (Inl (Error ''OpenWebUI URL and API token must be configured''))
       else andThen (await (requestUrl h req)) (\<lambda>response.
              case response of
                Unreachable m \<Rightarrow> Done (Inl (Error m))
              | Response status text body \<Rightarrow>
                  if 400 \<le> status
                  then Done (Inl (Error (''API request failed: '' @ toStringRadix 10 (int status)
                                          @ '' '' @ text)))
                  else Done (Inr body)))"

definition lookupKnowledgeBase_task :: "host \<Rightarrow> string \<Rightarrow> string option task" where
  "lookupKnowledgeBase_task h nm =
     andThen (await (makeApiRequest_task h ListKnowledge)) (\<lambda>answer.
       case answer of
         Inl e \<Rightarrow> Done None
       | Inr body \<Rightarrow>
           (case body of
              JArray kbs \<Rightarrow>
                andThen (atomic (\<lambda>s. ((), cacheKnowledgeBases h kbs s))) (\<lambda>u.
                  Done (map_option kb_id (find (\<lambda>kb. kb_name kb = nm) kbs)))
            | _ \<Rightarrow> Done None))"

definition findKnowledgeBaseByName_task :: "host \<Rightarrow> string \<Rightarrow> string option task" where
  "findKnowledgeBaseByName_task h nm =
     look (\<lambda>s.
       case kbCache s nm of
         None \<Rightarrow> lookupKnowledgeBase_task h nm
       | Some (cachedId, timestamp) \<Rightarrow>
           andThen (atomic (DateNow h)) (\<lambda>t.
             if t - timestamp < KB_CACHE_TTL then Done (Some cachedId)
             else lookupKnowledgeBase_task h nm))"

definition getOrCreateKnowledgeBase_task :: "host \<Rightarrow> string \<Rightarrow> (exn + string) task" where
  "getOrCreateKnowledgeBase_task h nm =
     andThen (await (findKnowledgeBaseByName_task h nm)) (\<lambda>existingId.
       if truthy existingId then Done (Inr (the existingId))
       else andThen (await (makeApiRequest_task h (CreateKnowledge nm))) (\<lambda>answer.
              case answer of
                Inl e \<Rightarrow> Done (Inl e)
              | Inr body \<Rightarrow>
                  (case body of
                     JObject newId \<Rightarrow>
                       andThen
                         (atomic (\<lambda>s. ((), s\<lparr>kbCache := (kbCache s)(nm \<mapsto> (newId, now h (clockReads s))),
                                              clockReads := Suc (clockReads s)\<rparr>)))
                         (\<lambda>u. Done (Inr newId))
                   | _ \<Rightarrow> Done (Inl typeError))))"

definition removeFileFromKnowledgeBase_task :: "host \<Rightarrow> string \<Rightarrow> string \<Rightarrow> (exn + unit) task" where
  "removeFileFromKnowledgeBase_task h kbName filePath =
     andThen (await (findKnowledgeBaseByName_task h kbName)) (\<lambda>kbId.
       if \<not> truthy kbId then Done (Inr ())
       else look (\<lambda>s1.
              case map_of (fileMapping s1) filePath of
                None \<Rightarrow> Done (Inl typeError)
              | Some rcd \<Rightarrow>
                  andThen (await (makeApiRequest_task h (FileRemove (the kbId) (fileId rcd)))) (\<lambda>answer.
                    case answer of
                      Inr body \<Rightarrow>
                        andThen (atomic (\<lambda>s. ((), dropKnowledgeBase filePath kbName s)))
                          (\<lambda>u. Done (Inr ()))
                    | Inl e \<Rightarrow>
                        if notFoundMessage (message e)
                        then andThen (atomic (\<lambda>s. ((), dropKnowledgeBase filePath kbName s)))
                               (\<lambda>u. Done (Inr ()))
                        else Done (Inl e))))"

definition deleteFileFromOpenWebUI_task :: "host \<Rightarrow> string \<Rightarrow> unit task" where
  "deleteFileFromOpenWebUI_task h fid =
     andThen (await (makeApiRequest_task h (FileDelete fid))) (\<lambda>answer. Done ())"

fun removeFromEach_task :: "host \<Rightarrow> string \<Rightarrow> string list \<Rightarrow> unit task" where
  "removeFromEach_task h filePath [] = Done ()"
| "removeFromEach_task h filePath (kbName # rest) =
     andThen (await (removeFileFromKnowledgeBase_task h kbName filePath)) (\<lambda>outcome.
       removeFromEach_task h filePath rest)"

definition removeFileFromAllKnowledgeBases_task :: "host \<Rightarrow> string \<Rightarrow> (exn + unit) task" where
  "removeFileFromAllKnowledgeBases_task h filePath =
     look (\<lambda>s.
       case map_of (fileMapping s) filePath of
         None \<Rightarrow> Done (Inl typeError)
       | Some rcd \<Rightarrow>
           andThen (removeFromEach_task h filePath (knowledgeBases rcd)) (\<lambda>u.
             andThen (await (deleteFileFromOpenWebUI_task h (fileId rcd))) (\<lambda>v. Done (Inr ()))))"

definition uploadFile_task :: "host \<Rightarrow> string \<Rightarrow> string \<Rightarrow> (exn + string) task" where
  "uploadFile_task h filename content =
     andThen (await (requestUrl h (FileUpload filename content))) (\<lambda>response.
       case response of
         Unreachable m \<Rightarrow> Done (Inl (Error m))
       | Response status errorText body \<Rightarrow>
           if \<not> (200 \<le> status \<and> status \<le> 299)
           then Await
                  (if status = 400 \<and> str_includes errorText ''Duplicate content''
                   then Done (Inl (Error (''Duplicate content detected for '' @ filename @
                                           ''. The file content already exists in OpenWebUI.'')))
                   else Done (Inl (Error (''Upload failed: '' @ toStringRadix 10 (int status)
                                           @ '' '' @ errorText))))
           else Await
                  (case body of
                     JObject newId \<Rightarrow> Done (Inr newId)
                   | _ \<Rightarrow> Done (Inl typeError)))"

definition addFileToKnowledgeBase_task :: "host \<Rightarrow> string \<Rightarrow> string \<Rightarrow> (exn + unit) task" where
  "addFileToKnowledgeBase_task h kbId fid =
     andThen (await (makeApiRequest_task h (FileAdd kbId fid))) (\<lambda>answer.
       case answer of
         Inl e \<Rightarrow> Done (Inl e)
       | Inr body \<Rightarrow> Done (Inr ()))"

text \<open>\<^verbatim>\<open>await this.app.vault.read(file)\<close>.\<close>

definition vaultRead_task :: "host \<Rightarrow> TFile \<Rightarrow> (exn + string) task" where
  "vaultRead_task h file = await (Done (vaultRead h (path file)))"

text \<open>\<^verbatim>\<open>saveSettings\<close> awaits \<^verbatim>\<open>saveData\<close>; the tables it writes are those of the state.\<close>

definition saveSettings_task :: "unit task" where
  "saveSettings_task = await (Done ())"

definition fingerprintFile_task ::
  "host \<Rightarrow> TFile \<Rightarrow> SyncConfig option \<Rightarrow> OpenWebUIFileRecord option \<Rightarrow> int
     \<Rightarrow> (exn + string \<times> string) task" where
  "fingerprintFile_task h file config previousRecord lm =
     (if (case previousRecord of None \<Rightarrow> True | Some r \<Rightarrow> lastModified r \<noteq> lm)
      then andThen (vaultRead_task h file) (\<lambda>answer.
             case answer of
               Inl e \<Rightarrow> Done (Inl e)
             | Inr rawContent \<Rightarrow>
                 if (case config of
                       None \<Rightarrow> False
                     | Some c \<Rightarrow> 0 < maxFileSize c \<and> maxFileSize c < length rawContent)
                 then Done (Inl (Error (''File too large ('' @ megabytes (length rawContent) @ ''MB > ''
                                         @ megabytes (maxFileSize (the config))
                                         @ ''MB limit on current connection)'')))
                 else (let content = processObsidianLinks (encodeURIComponent h) rawContent (vaultName h)
                       in Done (Inr (content, generateContentHash content))))
      else (case previousRecord of
              None \<Rightarrow> Done (Inr ([], []))
            | Some r \<Rightarrow> Done (Inr ([], contentHash r))))"

fun removeFromOldKBs_task :: "host \<Rightarrow> string \<Rightarrow> string list \<Rightarrow> unit task" where
  "removeFromOldKBs_task h filePath [] = Done ()"
| "removeFromOldKBs_task h filePath (kbName # rest) =
     andThen (await (removeFileFromKnowledgeBase_task h kbName filePath)) (\<lambda>outcome.
       case outcome of
         Inr u \<Rightarrow> andThen (atomic (\<lambda>s. ((), countSynced s))) (\<lambda>v. removeFromOldKBs_task h filePath rest)
       | Inl e \<Rightarrow> removeFromOldKBs_task h filePath rest)"

fun addToKnowledgeBases_task ::
  "host \<Rightarrow> string list \<Rightarrow> OpenWebUIFileRecord \<Rightarrow> OpenWebUIFileRecord task" where
  "addToKnowledgeBases_task h [] newRecord = Done newRecord"
| "addToKnowledgeBases_task h (kbName # rest) newRecord =
     andThen (await (getOrCreateKnowledgeBase_task h kbName)) (\<lambda>resolved.
       case resolved of
         Inl e \<Rightarrow> addToKnowledgeBases_task h rest newRecord
       | Inr kbId \<Rightarrow>
           andThen (await (addFileToKnowledgeBase_task h kbId (fileId newRecord))) (\<lambda>outcome.
             case outcome of
               Inl e \<Rightarrow> addToKnowledgeBases_task h rest newRecord
             | Inr u \<Rightarrow>
                 andThen (atomic (\<lambda>s. ((), countSynced s))) (\<lambda>v.
                   addToKnowledgeBases_task h rest
                     (if kbName \<in> set (knowledgeBases newRecord) then newRecord
                      else newRecord\<lparr>knowledgeBases := knowledgeBases newRecord @ [kbName]\<rparr>))))"

definition readProcessed_task :: "host \<Rightarrow> TFile \<Rightarrow> (exn + string) task" where
  "readProcessed_task h file =
     andThen (vaultRead_task h file) (\<lambda>answer.
       case answer of
         Inl e \<Rightarrow> Done (Inl e)
       | Inr rawContent \<Rightarrow>
           Done (Inr (processObsidianLinks (encodeURIComponent h) rawContent (vaultName h))))"

definition uploadAndAttach_task ::
  "host \<Rightarrow> TFile \<Rightarrow> string \<Rightarrow> int \<Rightarrow> string \<Rightarrow> string \<Rightarrow> bool \<Rightarrow> string list \<Rightarrow> string list
     \<Rightarrow> (exn + unit) task" where
  "uploadAndAttach_task h file filePath lm content hash contentChanged currentKBs previousKBs =
     (let kbsToAddTo = filter (\<lambda>kb. kb \<notin> set previousKBs) currentKBs;
          kbsToUpdate = (if contentChanged then filter (\<lambda>kb. kb \<in> set previousKBs) currentKBs else []);
          targetKBs = (if contentChanged then currentKBs else kbsToAddTo @ kbsToUpdate)
      in if contentChanged \<or> kbsToAddTo \<noteq> [] \<or> kbsToUpdate \<noteq> []
         then andThen (if content = [] then readProcessed_task h file else Done (Inr content)) (\<lambda>answer.
                case answer of
                  Inl e \<Rightarrow> Done (Inl e)
                | Inr content1 \<Rightarrow>
                    (let stableFilename = generateStableFilename (name file) hash
                     in andThen (await (uploadFile_task h stableFilename content1)) (\<lambda>uploaded.
                          case uploaded of
                            Inl e \<Rightarrow> Done (Inl e)
                          | Inr uploadedId \<Rightarrow>
                              andThen
                                (addToKnowledgeBases_task h targetKBs
                                   \<lparr>fileId = uploadedId, uploadedFilename = stableFilename,
                                    contentHash = hash, lastModified = lm, knowledgeBases = []\<rparr>)
                                (\<lambda>newRecord.
                                   andThen (atomic (\<lambda>s. ((), updateState filePath currentKBs newRecord s)))
                                     (\<lambda>u. andThen (await saveSettings_task) (\<lambda>v. Done (Inr ())))))))
         else look (\<lambda>s.
                case map_of (fileMapping s) filePath of
                  None \<Rightarrow>
                    andThen (atomic (\<lambda>s. ((), s\<lparr>syncState := AList.update filePath currentKBs (syncState s)\<rparr>)))
                      (\<lambda>u. andThen (await saveSettings_task) (\<lambda>v. Done (Inr ())))
                | Some previousRecord \<Rightarrow>
                    andThen (addToKnowledgeBases_task h targetKBs previousRecord) (\<lambda>newRecord.
                      andThen (atomic (\<lambda>s. ((), updateState filePath currentKBs newRecord s)))
                        (\<lambda>u. andThen (await saveSettings_task) (\<lambda>v. Done (Inr ()))))))"

definition syncFileWithStateTracking_task ::
  "host \<Rightarrow> TFile \<Rightarrow> string list \<Rightarrow> SyncConfig option \<Rightarrow> (exn + unit) task" where
  "syncFileWithStateTracking_task h file declaredKBs config =
     (let filePath = normalizePath h (path file)
      in andThen (atomic (readLastModified h file)) (\<lambda>lm.
           look (\<lambda>s0.
             let previousRecord = map_of (fileMapping s0) filePath;
                 timeChanged = (case previousRecord of None \<Rightarrow> True | Some r \<Rightarrow> lastModified r \<noteq> lm)
             in andThen (fingerprintFile_task h file config previousRecord lm) (\<lambda>answer.
                  case answer of
                    Inl e \<Rightarrow> Done (Inl e)
                  | Inr (content, hash) \<Rightarrow>
                      Act (\<lambda>s. s\<lparr>syncState := AList.map_entry filePath sort (syncState s)\<rparr>) (\<lambda>s.
                        let contentChanged =
                              (timeChanged \<and>
                               (case previousRecord of
                                  None \<Rightarrow> True
                                | Some r0 \<Rightarrow>
                                    (case map_of (fileMapping s) filePath of
                                       None \<Rightarrow> contentHash r0 \<noteq> hash
                                     | Some r \<Rightarrow> contentHash r \<noteq> hash)));
                            currentKBs = sort declaredKBs;
                            previousKBs =
                              (case map_of (syncState s) filePath of None \<Rightarrow> [] | Some kbs \<Rightarrow> sort kbs);
                            kbsChanged = (currentKBs \<noteq> previousKBs)
                        in if \<not> contentChanged \<and> \<not> kbsChanged then Done (Inr ())
                           else andThen
                                  (if contentChanged \<and> previousRecord \<noteq> None
                                   then await (removeFileFromAllKnowledgeBases_task h filePath)
                                   else Done (Inr ()))
                                  (\<lambda>removed.
                                     case removed of
                                       Inl e \<Rightarrow> Done (Inl e)
                                     | Inr u \<Rightarrow>
                                         (let kbsToRemoveFrom =
                                                filter (\<lambda>kb. kb \<notin> set currentKBs) previousKBs
                                          in andThen
                                               (if \<not> contentChanged
                                                then removeFromOldKBs_task h filePath kbsToRemoveFrom
                                                else Done ())
                                               (\<lambda>v. uploadAndAttach_task h file filePath lm content hash
                                                       contentChanged currentKBs previousKBs))))))))"

section \<open>A reconciliation pass\<close>

definition Notice :: "string \<Rightarrow> plugin \<Rightarrow> plugin" where
  "Notice m s = s\<lparr>notices := notices s @ [m]\<rparr>"

definition untrack :: "string \<Rightarrow> plugin \<Rightarrow> plugin" where
  "untrack filePath s =
     s\<lparr>fileMapping := AList.delete filePath (fileMapping s),
       syncState := AList.delete filePath (syncState s)\<rparr>"

text \<open>
  The loop of \<^verbatim>\<open>cleanupDeletedFiles\<close> over the tracked paths. A tracked path has a
  record; \<^verbatim>\<open>removeFileFromAllKnowledgeBases\<close> leaves the state as it is where there
  is none, which is the source's \<^verbatim>\<open>if (record)\<close>.
\<close>

fun cleanupLoop :: "host \<Rightarrow> string list \<Rightarrow> plugin \<Rightarrow> plugin" where
  "cleanupLoop h [] s = s"
| "cleanupLoop h (filePath # rest) s =
     cleanupLoop h rest
       (if normalizePath h filePath \<in> set (map (\<lambda>f. normalizePath h (path f)) (markdownFiles h))
        then s
        else untrack filePath (snd (removeFileFromAllKnowledgeBases h filePath s)))"

definition cleanupDeletedFiles :: "host \<Rightarrow> plugin \<Rightarrow> plugin" where
  "cleanupDeletedFiles h s = cleanupLoop h (map fst (fileMapping s)) s"

fun findFilesWithKBTags :: "host \<Rightarrow> TFile list \<Rightarrow> exn + (TFile \<times> string) list" where
  "findFilesWithKBTags h [] = Inr []"
| "findFilesWithKBTags h (file # files) =
     (case vaultRead h (path file) of
        Inl e \<Rightarrow> Inl e
      | Inr content \<Rightarrow>
          (case findFilesWithKBTags h files of
             Inl e \<Rightarrow> Inl e
           | Inr results \<Rightarrow>
               Inr (map (\<lambda>knowledgeBase. (file, knowledgeBase)) (declaredKnowledgeBases content)
                    @ results)))"

text \<open>The map \<^verbatim>\<open>fileGroups\<close>, in insertion order.\<close>

definition addToGroup :: "(string \<times> string list) list \<Rightarrow> TFile \<times> string \<Rightarrow> (string \<times> string list) list" where
  "addToGroup fileGroups item =
     (case map_of fileGroups (path (fst item)) of
        None \<Rightarrow> fileGroups @ [(path (fst item), [snd item])]
      | Some kbs \<Rightarrow> AList.update (path (fst item)) (kbs @ [snd item]) fileGroups)"

definition groupByFile :: "(TFile \<times> string) list \<Rightarrow> (string \<times> string list) list" where
  "groupByFile filesToSync = foldl addToGroup [] filesToSync"

definition getMobileAdjustedConfig :: "bool \<Rightarrow> plugin \<Rightarrow> SyncConfig" where
  "getMobileAdjustedConfig isCellular s =
     \<lparr>maxFileSize = (if isCellular then cellularFileLimit (mobile s) else 5 * 1024 * 1024),
      batchSize = (if isCellular then min (mobileBatchSize (mobile s)) 3 else mobileBatchSize (mobile s)),
      maxConcurrent = (if isCellular then 1 else maxConcurrentUploads (mobile s))\<rparr>"

definition getAbstractFileByPath :: "host \<Rightarrow> string \<Rightarrow> TFile option" where
  "getAbstractFileByPath h filePath = find (\<lambda>f. path f = filePath) (markdownFiles h)"

text \<open>
  The files of a batch with \<^verbatim>\<open>maxConcurrent\<close> 1, each in its own \<^verbatim>\<open>try\<close>: the
  source awaits one file after the other.
\<close>

fun syncEach :: "host \<Rightarrow> SyncConfig \<Rightarrow> (string \<times> string list) list \<Rightarrow> plugin \<Rightarrow> plugin" where
  "syncEach h config [] s = s"
| "syncEach h config ((filePath, currentKBs) # rest) s =
     (case getAbstractFileByPath h filePath of
        None \<Rightarrow> syncEach h config rest s
      | Some file \<Rightarrow>
          (case syncFileWithStateTracking h file currentKBs (Some config) s of
             (Inr u, s1) \<Rightarrow> syncEach h config rest s1
           | (Inl e, s1) \<Rightarrow>
               syncEach h config rest
                 (Notice (''Failed to sync '' @ filePath @ '': '' @ message e) s1)))"

text \<open>
  The function that the source maps over a batch with another value of
  \<^verbatim>\<open>maxConcurrent\<close>: one file in its own \<^verbatim>\<open>try\<close>, as a task.
\<close>

definition syncEntry_task :: "host \<Rightarrow> SyncConfig \<Rightarrow> string \<times> string list \<Rightarrow> unit task" where
  "syncEntry_task h config entry =
     (case entry of
        (filePath, currentKBs) \<Rightarrow>
          (case getAbstractFileByPath h filePath of
             None \<Rightarrow> Done ()
           | Some file \<Rightarrow>
               andThen (await (syncFileWithStateTracking_task h file currentKBs (Some config)))
                 (\<lambda>outcome.
                    case outcome of
                      Inr u \<Rightarrow> Done ()
                    | Inl e \<Rightarrow>
                        atomic (\<lambda>s. ((), Notice (''Failed to sync '' @ filePath @ '': '' @ message e) s)))))"

text \<open>
  Tasks started together. Resuming the task at a position lets it run up to its next
  \<^verbatim>\<open>await\<close>; a task that has returned stays as it is.
\<close>

definition resume :: "nat \<Rightarrow> 'a task list \<Rightarrow> plugin \<Rightarrow> 'a task list \<times> plugin" where
  "resume i pool s =
     (if i < length pool
      then (case advance (pool ! i) s of (t, s1) \<Rightarrow> (pool[i := t], s1))
      else (pool, s))"

fun follow :: "nat list \<Rightarrow> 'a task list \<Rightarrow> plugin \<Rightarrow> 'a task list \<times> plugin" where
  "follow [] pool s = (pool, s)"
| "follow (i # rest) pool s = (case resume i pool s of (pool1, s1) \<Rightarrow> follow rest pool1 s1)"

fun finishAll :: "'a task list \<Rightarrow> plugin \<Rightarrow> plugin" where
  "finishAll [] s = s"
| "finishAll (t # pool) s = finishAll pool (snd (run t s))"

text \<open>
  \<^verbatim>\<open>await Promise.all(batch.map(...))\<close>: mapping the function over the batch starts
  the files in their order, each running up to its first \<^verbatim>\<open>await\<close>; from there on
  the host resumes them as its schedule says, and \<^verbatim>\<open>Promise.all\<close> is settled when
  all have returned. Those that the schedule leaves waiting are resumed, in their
  order, until they return.
\<close>

definition together :: "host \<Rightarrow> SyncConfig \<Rightarrow> (string \<times> string list) list \<Rightarrow> plugin \<Rightarrow> plugin" where
  "together h config batch s =
     (case follow ([0..<length batch] @ schedule h (map fst batch))
             (map (syncEntry_task h config) batch) s of
        (pool, s1) \<Rightarrow> finishAll pool s1)"

definition syncBatch :: "host \<Rightarrow> SyncConfig \<Rightarrow> (string \<times> string list) list \<Rightarrow> plugin \<Rightarrow> plugin" where
  "syncBatch h config batch s =
     (if maxConcurrent config = 1 then syncEach h config batch s else together h config batch s)"

text \<open>
  The loop over the batches, consecutive slices of \<^verbatim>\<open>batchSize\<close> entries; the
  pause between two batches changes nothing. The settings offer batch sizes from 1 to
  10. With a batch size of 0 the loop of the source does not advance and the pass never
  returns, for which a function into the plugin has no value: the model returns the
  state as it is there, and what is proved of a pass that reconciles files assumes a
  batch size above 0.
\<close>

function syncBatches :: "host \<Rightarrow> SyncConfig \<Rightarrow> (string \<times> string list) list \<Rightarrow> plugin \<Rightarrow> plugin" where
  "syncBatches h config fileEntries s =
     (if fileEntries = [] \<or> batchSize config = 0 then s
      else syncBatches h config (drop (batchSize config) fileEntries)
             (syncBatch h config (take (batchSize config) fileEntries) s))"
  by pat_completeness auto
termination
  by (relation "measure (\<lambda>(h, config, fileEntries, s). length fileEntries)") auto

declare syncBatches.simps [simp del]

fun untaggedLoop :: "host \<Rightarrow> (string \<times> string list) list \<Rightarrow> string list \<Rightarrow> plugin \<Rightarrow> plugin" where
  "untaggedLoop h fileGroups [] s = s"
| "untaggedLoop h fileGroups (filePath # rest) s =
     untaggedLoop h fileGroups rest
       (if filePath \<in> set (map fst fileGroups) then s
        else (case removeFileFromAllKnowledgeBases h filePath s of
                (Inr u, s1) \<Rightarrow> countSynced (untrack filePath s1)
              | (Inl e, s1) \<Rightarrow> s1))"

definition handleUntaggedFiles :: "host \<Rightarrow> (string \<times> string list) list \<Rightarrow> plugin \<Rightarrow> plugin" where
  "handleUntaggedFiles h fileGroups s = untaggedLoop h fileGroups (map fst (fileMapping s)) s"

definition syncFailed :: "exn \<Rightarrow> plugin \<Rightarrow> plugin" where
  "syncFailed e s =
     Notice (''Sync failed: '' @ message e)
       (s\<lparr>syncStatus := (syncStatus s)\<lparr>issyncing := False, error := True\<rparr>\<rparr>)"

text \<open>
  \<^verbatim>\<open>performSyncOperation\<close>: its body is one \<^verbatim>\<open>try\<close> whose handler reports the
  failure, so it returns normally whatever happens inside.
\<close>

definition performSyncOperation :: "host \<Rightarrow> plugin \<Rightarrow> plugin" where
  "performSyncOperation h s =
     (let s1 = cleanupDeletedFiles h s
      in case findFilesWithKBTags h (markdownFiles h) of
           Inl e \<Rightarrow> syncFailed e s1
         | Inr filesToSync \<Rightarrow>
             (let fileGroups = groupByFile filesToSync
              in if fileGroups = [] then Notice ''No files found with #kb/ tags'' s1
                 else (let s2 = s1\<lparr>syncStatus :=
                                   \<lparr>synced = 0, total = length filesToSync,
                                    issyncing = True, error = False\<rparr>\<rparr>;
                           config = getMobileAdjustedConfig (connectionType h = Cellular) s2;
                           s3 = syncBatches h config fileGroups s2;
                           s4 = handleUntaggedFiles h fileGroups s3;
                           s5 = s4\<lparr>syncStatus := (syncStatus s4)\<lparr>issyncing := False, error := False\<rparr>\<rparr>
                       in Notice (''Sync completed: '' @ toStringRadix 10 (int (synced (syncStatus s5)))
                                    @ ''/'' @ toStringRadix 10 (int (total (syncStatus s5)))
                                    @ '' operations'') s5)))"

section \<open>Triggers and the guard\<close>

definition CELLULAR_WARNING_INTERVAL :: int where
  "CELLULAR_WARNING_INTERVAL = 10 * 60 * 1000"

text \<open>\<^verbatim>\<open>shouldAllowSync\<close>: whether the pass may run, and the reason when it may not.\<close>

definition shouldAllowSync :: "host \<Rightarrow> plugin \<Rightarrow> (bool \<times> string) \<times> plugin" where
  "shouldAllowSync h s =
     (case connectionType h of
        Wifi \<Rightarrow> ((True, []), s)
      | Unknown \<Rightarrow> ((True, []), s)
      | Cellular \<Rightarrow>
          (case networkBehavior (mobile s) of
             Always \<Rightarrow> ((True, []), s)
           | WifiPreferred \<Rightarrow>
               (case DateNow h s of
                  (t, s1) \<Rightarrow>
                    if CELLULAR_WARNING_INTERVAL < t - lastCellularWarning s1
                    then (case DateNow h
                                 (Notice ''Syncing over cellular data (change in mobile settings if needed)'' s1) of
                            (t2, s2) \<Rightarrow> ((True, []), s2\<lparr>lastCellularWarning := t2\<rparr>))
                    else ((True, []), s1))
           | WifiOnly \<Rightarrow> ((False, ''WiFi-only mode enabled in mobile settings''), s)))"

text \<open>
  \<^verbatim>\<open>syncToKnowledgeBase\<close>, the entry point of the ribbon icon and of the timer. The
  \<^verbatim>\<open>finally\<close> clause clears the flag behind \<^verbatim>\<open>performSyncOperation\<close>.
\<close>

definition syncToKnowledgeBase :: "host \<Rightarrow> plugin \<Rightarrow> plugin" where
  "syncToKnowledgeBase h s =
     (if syncMutex s then Notice ''Sync already in progress, please wait...'' s
      else if apiToken s = [] then Notice ''Please configure OpenWebUI API token in settings'' s
      else (case shouldAllowSync h s of
              ((allow, reason), s1) \<Rightarrow>
                if \<not> allow then Notice (''Sync blocked: '' @ reason) s1
                else (performSyncOperation h (s1\<lparr>syncMutex := True\<rparr>))\<lparr>syncMutex := False\<rparr>))"

definition shouldSkipAutoSync :: "host \<Rightarrow> plugin \<Rightarrow> bool" where
  "shouldSkipAutoSync h s =
     (if isMobileDevice h \<and> batteryOptimization (mobile s)
         \<and> batteryLevel h < lowBatteryThreshold (mobile s)
      then True
      else isMobileDevice h \<and> \<not> enableBackgroundSync (mobile s) \<and> documentHidden h)"

text \<open>
  The callback that \<^verbatim>\<open>startAutoSync\<close> hands to the timer. With the flag set it
  writes a debug line and returns; debug lines go to the console and are not part of the
  state.
\<close>

definition autoSyncTick :: "host \<Rightarrow> plugin \<Rightarrow> plugin" where
  "autoSyncTick h s =
     (if syncMutex s then s
      else if shouldSkipAutoSync h s then s
      else syncToKnowledgeBase h s)"

definition forceReleaseSyncLock :: "plugin \<Rightarrow> plugin" where
  "forceReleaseSyncLock s =
     (if syncMutex s
      then s\<lparr>syncMutex := False, syncStatus := (syncStatus s)\<lparr>issyncing := False\<rparr>\<rparr>
      else s)"

section \<open>Vocabulary of the properties\<close>

text \<open>
  Two plugin states that differ at most in the knowledge-base cache, the count of clock
  readings and the list of requests sent: the settings, the status, the guard and the
  notices are the same.
\<close>

definition remoteOnly :: "plugin \<Rightarrow> plugin \<Rightarrow> bool" where
  "remoteOnly s s' =
     (openwebuiUrl s' = openwebuiUrl s \<and> apiToken s' = apiToken s \<and> mobile s' = mobile s
      \<and> syncState s' = syncState s \<and> fileMapping s' = fileMapping s
      \<and> syncStatus s' = syncStatus s \<and> syncMutex s' = syncMutex s
      \<and> lastCellularWarning s' = lastCellularWarning s \<and> notices s' = notices s)"


text \<open>The names persisted for a path in \<open>syncState\<close>; none where the path has no entry.\<close>

definition previousKBsOf :: "plugin \<Rightarrow> string \<Rightarrow> string list" where
  "previousKBsOf s filePath = (case map_of (syncState s) filePath of None \<Rightarrow> [] | Some kbs \<Rightarrow> kbs)"

text \<open>The fingerprint of a file: the hash of its content with the links rewritten.\<close>

definition fingerprintOf :: "host \<Rightarrow> TFile \<Rightarrow> exn + string" where
  "fingerprintOf h file =
     (case readProcessed h file of
        Inl e \<Rightarrow> Inl e
      | Inr content \<Rightarrow> Inr (generateContentHash content))"

text \<open>
  From \<open>s\<close> to \<open>s'\<close> requests were sent, all of them of an allowed kind, and none of the
  requests sent before was forgotten.
\<close>

definition sends :: "(request \<Rightarrow> bool) \<Rightarrow> plugin \<Rightarrow> plugin \<Rightarrow> bool" where
  "sends allowed s s' = (\<exists>extra. requests s' = requests s @ extra \<and> list_all allowed extra)"

definition isListRequest :: "request \<Rightarrow> bool" where
  "isListRequest q = (q = ListKnowledge)"

definition isDetachRequest :: "request \<Rightarrow> bool" where
  "isDetachRequest q = (case q of ListKnowledge \<Rightarrow> True | FileRemove k f \<Rightarrow> True | _ \<Rightarrow> False)"

definition isRemovalRequest :: "request \<Rightarrow> bool" where
  "isRemovalRequest q =
     (case q of ListKnowledge \<Rightarrow> True | FileRemove k f \<Rightarrow> True | FileDelete f \<Rightarrow> True | _ \<Rightarrow> False)"

text \<open>
  From \<open>s\<close> to \<open>s'\<close> nothing happened to the settings but detaching the file of path
  \<open>p\<close>: the endpoint, the token and \<open>syncState\<close> are the same, so are the records of
  the other paths, and the record of \<open>p\<close>, if there is one, differs at most in its
  memberships, of which some of the given names may have been dropped.
\<close>

definition detachedOnly :: "string \<Rightarrow> string set \<Rightarrow> plugin \<Rightarrow> plugin \<Rightarrow> bool" where
  "detachedOnly p names s s' =
     (openwebuiUrl s' = openwebuiUrl s \<and> apiToken s' = apiToken s \<and> syncState s' = syncState s
      \<and> (\<forall>q. q \<noteq> p \<longrightarrow> map_of (fileMapping s') q = map_of (fileMapping s) q)
      \<and> rel_option
           (\<lambda>r r'. r' = r\<lparr>knowledgeBases := knowledgeBases r'\<rparr>
                    \<and> set (knowledgeBases r') \<subseteq> set (knowledgeBases r)
                    \<and> set (knowledgeBases r) - names \<subseteq> set (knowledgeBases r'))
           (map_of (fileMapping s) p) (map_of (fileMapping s') p))"

text \<open>An answer to an upload that \<^verbatim>\<open>uploadFile\<close> takes for a failure.\<close>

definition uploadRefused :: "http \<Rightarrow> bool" where
  "uploadRefused a =
     (case a of
        Unreachable m \<Rightarrow> True
      | Response status txt body \<Rightarrow> \<not> (200 \<le> status \<and> status \<le> 299))"

text \<open>An answer to an upload that \<^verbatim>\<open>uploadFile\<close> takes for the upload under the given id.\<close>

definition uploadAccepted :: "string \<Rightarrow> http \<Rightarrow> bool" where
  "uploadAccepted newId a =
     (case a of
        Unreachable m \<Rightarrow> False
      | Response status txt body \<Rightarrow> 200 \<le> status \<and> status \<le> 299 \<and> body = JObject newId)"

text \<open>The file passes the size check of the configuration, or there is none.\<close>

definition withinSizeLimit :: "host \<Rightarrow> TFile \<Rightarrow> SyncConfig option \<Rightarrow> bool" where
  "withinSizeLimit h file config =
     (case config of
        None \<Rightarrow> True
      | Some c \<Rightarrow>
          (case vaultRead h (path file) of
             Inl e \<Rightarrow> True
           | Inr rawContent \<Rightarrow> \<not> (0 < maxFileSize c \<and> maxFileSize c < length rawContent)))"

text \<open>
  A tagged file of a pass has nothing to reconcile: it has a record with its
  fingerprint, and the names it declares are, as a set, the names persisted for it.
\<close>

definition upToDate :: "host \<Rightarrow> plugin \<Rightarrow> string \<Rightarrow> string list \<Rightarrow> bool" where
  "upToDate h s filePath declaredKBs =
     (case getAbstractFileByPath h filePath of
        None \<Rightarrow> False
      | Some file \<Rightarrow>
          (case map_of (fileMapping s) (normalizePath h (path file)) of
             None \<Rightarrow> False
           | Some r \<Rightarrow>
               fingerprintOf h file = Inr (contentHash r)
               \<and> set declaredKBs = set (previousKBsOf s (normalizePath h (path file)))))"

text \<open>A tracked path is still a markdown file of the vault and still among the tagged files.\<close>

definition stillTagged :: "host \<Rightarrow> (string \<times> string list) list \<Rightarrow> string \<Rightarrow> bool" where
  "stillTagged h fileGroups filePath =
     (normalizePath h filePath \<in> set (map (\<lambda>f. normalizePath h (path f)) (markdownFiles h))
      \<and> filePath \<in> set (map fst fileGroups))"

text \<open>
  The message of the error that \<^verbatim>\<open>makeApiRequest\<close> raises for a response with a
  status from 400 on.
\<close>

definition apiFailureMessage :: "nat \<Rightarrow> string \<Rightarrow> string" where
  "apiFailureMessage status txt = ''API request failed: '' @ toStringRadix 10 (int status) @ '' '' @ txt"

section \<open>A plugin and hosts to run the model on\<close>

text \<open>
  The plugin as \<^verbatim>\<open>onload\<close> leaves it with \<^verbatim>\<open>DEFAULT_SETTINGS\<close> and an API token
  entered, and a desktop host on Wi-Fi whose clock advances one second per reading,
  with a given remote service, markdown files and file contents.
\<close>

definition DEFAULT_MOBILE :: MobileSettings where
  "DEFAULT_MOBILE =
     \<lparr>networkBehavior = WifiPreferred, cellularFileLimit = 1024 * 1024, maxConcurrentUploads = 2,
      mobileBatchSize = 5, enableBackgroundSync = False, batteryOptimization = True,
      lowBatteryThreshold = 15\<rparr>"

definition loadedPlugin :: plugin where
  "loadedPlugin =
     \<lparr>openwebuiUrl = ''http://localhost:3000'', apiToken = ''token'', mobile = DEFAULT_MOBILE,
      syncState = [], fileMapping = [],
      syncStatus = \<lparr>synced = 0, total = 0, issyncing = False, error = False\<rparr>,
      syncMutex = False, kbCache = Map.empty, requests = [], clockReads = 0,
      lastCellularWarning = 0, notices = []\<rparr>"

definition desktopHost ::
  "(request list \<Rightarrow> request \<Rightarrow> http) \<Rightarrow> TFile list \<Rightarrow> (string \<times> string) list \<Rightarrow> host" where
  "desktopHost remote files contents =
     \<lparr>respond = remote, now = (\<lambda>n. 1000 * int n),
      vaultRead = (\<lambda>p. case map_of contents p of
                           None \<Rightarrow> Inl (Error ''File not found'')
                         | Some c \<Rightarrow> Inr c),
      vaultName = ''Vault'', markdownFiles = files, normalizePath = (\<lambda>p. p),
      encodeURIComponent = (\<lambda>x. x), connectionType = Wifi, isMobileDevice = False,
      batteryLevel = 100, documentHidden = False, schedule = (\<lambda>paths. [])\<rparr>"

text \<open>A remote service without knowledge bases.\<close>

definition emptyRemote :: "request list \<Rightarrow> request \<Rightarrow> http" where
  "emptyRemote history req = Response 200 [] (JArray [])"

text \<open>A remote service that answers every request with status 404.\<close>

definition notFoundRemote :: "request list \<Rightarrow> request \<Rightarrow> http" where
  "notFoundRemote history req = Response 404 ''Not Found'' JNull"

text \<open>
  A remote service on which another client creates the knowledge base \<^verbatim>\<open>Team\<close>
  between the plugin's list request and its create request: the first list is empty,
  the create request is refused, and a list request sent after it shows the knowledge
  base.
\<close>

definition racingRemote :: "request list \<Rightarrow> request \<Rightarrow> http" where
  "racingRemote history req =
     (case req of
        ListKnowledge \<Rightarrow>
          if CreateKnowledge ''Team'' \<in> set history
          then Response 200 [] (JArray [\<lparr>kb_id = ''kb-1'', kb_name = ''Team''\<rparr>])
          else Response 200 [] (JArray [])
      | CreateKnowledge nm \<Rightarrow> Response 400 ''Knowledge base already exists'' JNull
      | _ \<Rightarrow> Response 200 [] JNull)"


text \<open>
  A remote service that lists the knowledge base \<^verbatim>\<open>Team\<close> and answers every other
  request with status 404.
\<close>

definition goneRemote :: "request list \<Rightarrow> request \<Rightarrow> http" where
  "goneRemote history req =
     (case req of
        ListKnowledge \<Rightarrow> Response 200 [] (JArray [\<lparr>kb_id = ''kb-1'', kb_name = ''Team''\<rparr>])
      | _ \<Rightarrow> Response 404 ''Not Found'' JNull)"

text \<open>The plugin after \<^verbatim>\<open>note.md\<close> was uploaded and attached to \<^verbatim>\<open>Team\<close>.\<close>

definition trackedPlugin :: plugin where
  "trackedPlugin =
     loadedPlugin
       \<lparr>syncState := [(''note.md'', [''Team''])],
        fileMapping := [(''note.md'',
          \<lparr>fileId = ''file-1'', uploadedFilename = ''note_3d5d78d3.md'', contentHash = ''3d5d78d3'',
           lastModified = 1700000000000, knowledgeBases = [''Team'']\<rparr>)]\<rparr>"

text \<open>The note, last modified when its record says.\<close>

definition noteFile :: TFile where
  "noteFile = \<lparr>path = ''note.md'', name = ''note.md'', mtime = 1700000000000\<rparr>"

text \<open>
  A remote service with the knowledge bases \<^verbatim>\<open>Team\<close> and \<^verbatim>\<open>Archive\<close> that accepts
  every request; it creates knowledge bases under the id \<^verbatim>\<open>kb-3\<close> and stores uploads
  under the id \<^verbatim>\<open>file-2\<close>.
\<close>

definition officeRemote :: "request list \<Rightarrow> request \<Rightarrow> http" where
  "officeRemote history req =
     (case req of
        ListKnowledge \<Rightarrow>
          Response 200 [] (JArray [\<lparr>kb_id = ''kb-1'', kb_name = ''Team''\<rparr>,
                                   \<lparr>kb_id = ''kb-2'', kb_name = ''Archive''\<rparr>])
      | CreateKnowledge nm \<Rightarrow> Response 200 [] (JObject ''kb-3'')
      | FileUpload filename content \<Rightarrow> Response 200 [] (JObject ''file-2'')
      | _ \<Rightarrow> Response 200 [] JNull)"

text \<open>A remote service with the knowledge base \<^verbatim>\<open>Team\<close> whose uploads fail.\<close>

definition uploadDownRemote :: "request list \<Rightarrow> request \<Rightarrow> http" where
  "uploadDownRemote history req =
     (case req of
        ListKnowledge \<Rightarrow> Response 200 [] (JArray [\<lparr>kb_id = ''kb-1'', kb_name = ''Team''\<rparr>])
      | FileUpload filename content \<Rightarrow> Response 500 ''Internal Server Error'' JNull
      | _ \<Rightarrow> Response 200 [] JNull)"

text \<open>
  The plugin with the note attached to \<^verbatim>\<open>Archive\<close> and \<^verbatim>\<open>Team\<close>, its record
  carrying the fingerprint of the content \<^verbatim>\<open>Minutes #kb/team #kb/notes\<close>.
\<close>

definition officePlugin :: plugin where
  "officePlugin =
     loadedPlugin
       \<lparr>syncState := [(''note.md'', [''Archive'', ''Team''])],
        fileMapping := [(''note.md'',
          \<lparr>fileId = ''file-1'', uploadedFilename = ''note_56595de1.md'', contentHash = ''56595de1'',
           lastModified = 1700000000000, knowledgeBases = [''Archive'', ''Team'']\<rparr>)]\<rparr>"

text \<open>
  The host of that note: the remote service above, and the note with the markers of
  \<^verbatim>\<open>Team\<close> and \<^verbatim>\<open>Notes\<close>, last modified when its record says.
\<close>

definition officeHost :: host where
  "officeHost = desktopHost officeRemote [noteFile] [(''note.md'', ''Minutes #kb/team #kb/notes'')]"

text \<open>The plugin after the note was reconciled with the names \<^verbatim>\<open>Team\<close> and \<^verbatim>\<open>Notes\<close>.\<close>

definition afterNotesAdded :: plugin where
  "afterNotesAdded =
     snd (syncFileWithStateTracking officeHost noteFile [''Team'', ''Notes''] None officePlugin)"




section \<open>A task that runs alone\<close>

text \<open>
  Run without anything in between, each task does what the function of the same name
  does.
\<close>

lemma run_andThen: "run (andThen t f) s = (case run t s of (a, s') \<Rightarrow> run (f a) s')"
  by (induction t arbitrary: s) simp_all

lemma run_atomic [simp]: "run (atomic f) s = f s"
  by (simp add: atomic_def)

lemma run_look [simp]: "run (look k) s = run (k s) s"
  by (simp add: look_def)

lemma run_await [simp]: "run (await t) s = run t s"
  by (simp add: await_def run_andThen split: prod.splits)

lemma requestUrl_run [simp]:
  "run (requestUrl h req) s = (respond h (requests s) req, s\<lparr>requests := requests s @ [req]\<rparr>)"
  by (simp add: requestUrl_def)

lemma makeApiRequest_task_run [simp]:
  "run (makeApiRequest_task h req) s = makeApiRequest h req s"
  by (simp add: makeApiRequest_task_def makeApiRequest_def run_andThen split: http.splits)

lemma lookupKnowledgeBase_task_run [simp]:
  "run (lookupKnowledgeBase_task h nm) s = lookupKnowledgeBase h nm s"
  by (simp add: lookupKnowledgeBase_task_def lookupKnowledgeBase_def run_andThen
      split: prod.splits sum.splits json.splits)

lemma findKnowledgeBaseByName_task_run [simp]:
  "run (findKnowledgeBaseByName_task h nm) s = findKnowledgeBaseByName h nm s"
  by (simp add: findKnowledgeBaseByName_task_def findKnowledgeBaseByName_def run_andThen
      split: prod.splits option.splits)

lemma getOrCreateKnowledgeBase_task_run [simp]:
  "run (getOrCreateKnowledgeBase_task h nm) s = getOrCreateKnowledgeBase h nm s"
  by (simp add: getOrCreateKnowledgeBase_task_def getOrCreateKnowledgeBase_def run_andThen
      split: prod.splits sum.splits json.splits)

lemma removeFileFromKnowledgeBase_task_run [simp]:
  "run (removeFileFromKnowledgeBase_task h kbName filePath) s = removeFileFromKnowledgeBase h kbName filePath s"
  by (simp add: removeFileFromKnowledgeBase_task_def removeFileFromKnowledgeBase_def run_andThen
      split: prod.splits sum.splits option.splits)

lemma deleteFileFromOpenWebUI_task_run [simp]:
  "run (deleteFileFromOpenWebUI_task h fid) s = ((), deleteFileFromOpenWebUI h fid s)"
  by (simp add: deleteFileFromOpenWebUI_task_def deleteFileFromOpenWebUI_def run_andThen
      split: prod.splits)

lemma removeFromEach_task_run [simp]:
  "run (removeFromEach_task h filePath kbs) s = ((), removeFromEach h filePath kbs s)"
  by (induction kbs arbitrary: s) (simp_all add: run_andThen split: prod.splits)

lemma removeFileFromAllKnowledgeBases_task_run [simp]:
  "run (removeFileFromAllKnowledgeBases_task h filePath) s = removeFileFromAllKnowledgeBases h filePath s"
  by (simp add: removeFileFromAllKnowledgeBases_task_def removeFileFromAllKnowledgeBases_def
      run_andThen split: option.splits)

lemma uploadFile_task_run [simp]:
  "run (uploadFile_task h filename content) s = uploadFile h filename content s"
  by (simp add: uploadFile_task_def uploadFile_def run_andThen split: http.splits json.splits)

lemma addFileToKnowledgeBase_task_run [simp]:
  "run (addFileToKnowledgeBase_task h kbId fid) s = addFileToKnowledgeBase h kbId fid s"
  by (simp add: addFileToKnowledgeBase_task_def addFileToKnowledgeBase_def run_andThen
      split: prod.splits sum.splits)

lemma vaultRead_task_run [simp]: "run (vaultRead_task h file) s = (vaultRead h (path file), s)"
  by (simp add: vaultRead_task_def)

lemma saveSettings_task_run [simp]: "run saveSettings_task s = ((), s)"
  by (simp add: saveSettings_task_def)

lemma fingerprintFile_task_run [simp]:
  "run (fingerprintFile_task h file config previousRecord lm) s
   = (fingerprintFile h file config previousRecord lm, s)"
  by (simp add: fingerprintFile_task_def fingerprintFile_def run_andThen Let_def
      split: sum.splits option.splits)

lemma removeFromOldKBs_task_run [simp]:
  "run (removeFromOldKBs_task h filePath kbs) s = ((), removeFromOldKBs h filePath kbs s)"
  by (induction kbs arbitrary: s) (simp_all add: run_andThen split: prod.splits sum.splits)

lemma addToKnowledgeBases_task_run [simp]:
  "run (addToKnowledgeBases_task h kbs newRecord) s = addToKnowledgeBases h kbs newRecord s"
  by (induction kbs arbitrary: s newRecord) (simp_all add: run_andThen split: prod.splits sum.splits)

lemma readProcessed_task_run [simp]:
  "run (readProcessed_task h file) s = (readProcessed h file, s)"
  by (simp add: readProcessed_task_def readProcessed_def run_andThen split: sum.splits)

lemma uploadAndAttach_task_run [simp]:
  "run (uploadAndAttach_task h file filePath lm content hash contentChanged currentKBs previousKBs) s
   = uploadAndAttach h file filePath lm content hash contentChanged currentKBs previousKBs s"
  by (simp add: uploadAndAttach_task_def uploadAndAttach_def run_andThen Let_def
      split: prod.splits sum.splits option.splits)

lemma syncFileWithStateTracking_task_run:
  "run (syncFileWithStateTracking_task h file declaredKBs config) s
   = syncFileWithStateTracking h file declaredKBs config s"
proof -
  obtain lm s0 where lm: "readLastModified h file s = (lm, s0)"
    by (cases "readLastModified h file s")
  show ?thesis
  proof (cases "fingerprintFile h file config (map_of (fileMapping s0) (normalizePath h (path file))) lm")
    case (Inl e)
    with lm show ?thesis
      by (simp add: syncFileWithStateTracking_task_def syncFileWithStateTracking_def run_andThen Let_def)
  next
    case (Inr fp)
    obtain content hash where fp: "fp = (content, hash)" by (cases fp)
    show ?thesis
    proof (cases "map_of (fileMapping s0) (normalizePath h (path file))")
      case None
      with lm Inr fp show ?thesis
        by (simp add: syncFileWithStateTracking_task_def syncFileWithStateTracking_def run_andThen Let_def
            split: prod.split sum.split)
    next
      case (Some r)
      with lm Inr fp show ?thesis
        by (simp add: syncFileWithStateTracking_task_def syncFileWithStateTracking_def run_andThen Let_def
            split: prod.split sum.split)
    qed
  qed
qed


section \<open>Properties of the link rewriting\<close>

lemma take2_includes: "take 2 s = ''[['' \<Longrightarrow> str_includes s ''[[''"
  by (cases s) auto

lemma matchLink_needs_brackets:
  assumes "\<not> str_includes s ''[[''"
  shows "matchLink p s = None"
proof (cases p)
  case AliasLink
  from assms have "take 2 s \<noteq> ''[[''" using take2_includes by blast
  with AliasLink show ?thesis by simp
next
  case PlainLink
  from assms have "take 2 s \<noteq> ''[[''" using take2_includes by blast
  with PlainLink show ?thesis by simp
next
  case EmbedLink
  have "take 3 s \<noteq> ''![[''"
  proof
    assume t: "take 3 s = ''![[''"
    then obtain c cs where s: "s = c # cs" by (cases s) auto
    with t have "take 2 cs = ''[[''" by simp
    then have "str_includes cs ''[[''" by (rule take2_includes)
    with s have "str_includes s ''[[''" by simp
    with assms show False by simp
  qed
  with EmbedLink show ?thesis by simp
qed

lemma replaceLinks_without_brackets:
  "\<not> str_includes s ''[['' \<Longrightarrow> replaceLinks p f s = s"
proof (induction s)
  case Nil
  show ?case by (simp add: replaceLinks.simps)
next
  case (Cons c cs)
  from Cons.prems have "matchLink p (c # cs) = None"
    by (rule matchLink_needs_brackets)
  moreover from Cons.prems have "\<not> str_includes cs ''[[''" by simp
  then have "replaceLinks p f cs = cs" by (rule Cons.IH)
  ultimately show ?case
    by (subst replaceLinks.simps) simp
qed

text \<open>
  Claim C10. The link rewriting is the identity on text without links: a content in
  which \<^verbatim>\<open>[[\<close> does not occur is returned as it is, for every vault name and whatever
  the URI encoding does.
\<close>

theorem processObsidianLinks_identity_without_links:
  "\<not> str_includes content ''[['' \<Longrightarrow> processObsidianLinks enc content vault = content"
  by (simp add: processObsidianLinks_def replaceLinks_without_brackets)

text \<open>The theorem at a text with single brackets only.\<close>

theorem processObsidianLinks_identity_without_links_witness:
  "\<not> str_includes ''plain [text] here'' ''[[''
   \<and> processObsidianLinks (\<lambda>x. x) ''plain [text] here'' ''My Vault'' = ''plain [text] here''"
  using processObsidianLinks_identity_without_links [of "''plain [text] here''" "\<lambda>x. x" "''My Vault''"]
  by simp

section \<open>Properties of the stable upload names\<close>









text \<open>
  Outside the names of files: for a name without a dot, \<^verbatim>\<open>split('.').pop()\<close> is the
  whole name, which is not empty, so the default is not taken there.
\<close>

lemma generateStableFilename_without_dot:
  "generateStableFilename ''README'' ''abcdef1234'' = ''README_abcdef12.README''"
  by (simp add: generateStableFilename_def extensionOf_def sanitize_def isTokenChar_def)



section \<open>Properties of the membership markers\<close>

lemma splitOn_map:
  assumes "\<And>c. (f c = sep) = (c = sep)"
  shows "splitOn sep (map f s) = map (map f) (splitOn sep s)"
  using assms by (induction s) (auto split: list.splits)

lemma toLowerChar_space: "(toLowerChar c = CHR '' '') = (c = CHR '' '')"
  by (auto simp: toLowerChar_def split: option.splits if_splits)

lemma convertTag_canonical:
  "convertTagToKnowledgeBaseName tagName = canonicalDisplayForm tagName"
proof -
  have "splitOn CHR '' '' (map toLowerChar xs) = map (map toLowerChar) (splitOn CHR '' '' xs)" for xs
    by (rule splitOn_map) (rule toLowerChar_space)
  then show ?thesis
    unfolding convertTagToKnowledgeBaseName_def canonicalDisplayForm_def toLowerCase_def
      titleCase_def [abs_def]
    by (simp add: comp_def del: map_map) (simp add: comp_def)
qed

lemma hash_not_token: "\<not> isTokenChar CHR ''#''"
  by (simp add: isTokenChar_def)

lemma marker_inside_prefix:
  assumes "take 4 (pre @ ''#kb/'' @ rest) = ''#kb/''" "pre \<noteq> []"
  shows "4 \<le> length pre"
proof (rule ccontr)
  assume short: "\<not> 4 \<le> length pre"
  from assms(2) have "0 < length pre" by simp
  with short have n: "length pre = 1 \<or> length pre = 2 \<or> length pre = 3" by arith
  from short have "take 4 (pre @ ''#kb/'' @ rest) ! length pre = (pre @ ''#kb/'' @ rest) ! length pre"
    by (intro nth_take) simp
  also have "\<dots> = CHR ''#''" by (simp add: nth_append)
  finally have "''#kb/'' ! length pre = CHR ''#''" using assms(1) by simp
  with n show False by (elim disjE) simp_all
qed

lemma dropWhile_keeps_marker:
  "\<exists>q'. dropWhile isTokenChar (q @ CHR ''#'' # rest) = q' @ CHR ''#'' # rest \<and> length q' \<le> length q"
proof (induction q)
  case Nil
  show ?case by (simp add: hash_not_token)
next
  case (Cons c q)
  then show ?case by (cases "isTokenChar c") (auto intro: exI [of _ "c # q"])
qed

lemma takeWhile_tag:
  assumes "list_all isTokenChar tag" "post = [] \<or> \<not> isTokenChar (hd post)"
  shows "takeWhile isTokenChar (tag @ post) = tag"
proof -
  have "takeWhile isTokenChar post = []"
    using assms(2) by (cases post) auto
  with assms(1) show ?thesis
    by (simp add: takeWhile_append2 list_all_iff)
qed

lemma kbTagMatches_match:
  assumes "take 4 s = ''#kb/''" "takeWhile isTokenChar (drop 4 s) \<noteq> []"
  shows "kbTagMatches s
         = takeWhile isTokenChar (drop 4 s) # kbTagMatches (dropWhile isTokenChar (drop 4 s))"
proof -
  from assms(1) have "s \<noteq> []" by auto
  with assms show ?thesis
    by (subst kbTagMatches.simps) simp
qed

lemma kbTagMatches_skip:
  assumes "\<not> (take 4 (c # cs) = ''#kb/'' \<and> takeWhile isTokenChar (drop 4 (c # cs)) \<noteq> [])"
  shows "kbTagMatches (c # cs) = kbTagMatches cs"
  using assms by (subst kbTagMatches.simps) auto

lemma kbTagMatches_occurrence:
  assumes "tag \<noteq> []" "list_all isTokenChar tag" "post = [] \<or> \<not> isTokenChar (hd post)"
  shows "tag \<in> set (kbTagMatches (pre @ ''#kb/'' @ tag @ post))"
proof (induction pre rule: length_induct)
  case (1 pre)
  define s where "s = ''#kb/'' @ tag @ post"
  have s_hash: "s = CHR ''#'' # ''kb/'' @ tag @ post" by (simp add: s_def)
  have tw: "takeWhile isTokenChar (tag @ post) = tag"
    using assms(2,3) by (rule takeWhile_tag)
  have goal: "tag \<in> set (kbTagMatches (pre @ s))"
  proof (cases pre)
    case Nil
    have "take 4 s = ''#kb/''" and "drop 4 s = tag @ post" by (simp_all add: s_def)
    then have "kbTagMatches s = tag # kbTagMatches (dropWhile isTokenChar (tag @ post))"
      using kbTagMatches_match [of s] tw assms(1) by simp
    with Nil show ?thesis by simp
  next
    case (Cons c p)
    show ?thesis
    proof (cases "take 4 (pre @ s) = ''#kb/'' \<and> takeWhile isTokenChar (drop 4 (pre @ s)) \<noteq> []")
      case True
      from True Cons have four: "4 \<le> length pre"
        using marker_inside_prefix [of pre "tag @ post"] by (simp add: s_def)
      then have d: "drop 4 (pre @ s) = drop 4 pre @ s" by simp
      obtain q' where q': "dropWhile isTokenChar (drop 4 pre @ s) = q' @ s"
        and len: "length q' \<le> length (drop 4 pre)"
        using dropWhile_keeps_marker [of "drop 4 pre" "''kb/'' @ tag @ post"] s_hash by auto
      from len four have "length q' < length pre" by simp
      with 1 have "tag \<in> set (kbTagMatches (q' @ ''#kb/'' @ tag @ post))" by blast
      then have "tag \<in> set (kbTagMatches (q' @ s))" by (simp only: s_def)
      moreover have "kbTagMatches (pre @ s)
          = takeWhile isTokenChar (drop 4 (pre @ s)) # kbTagMatches (q' @ s)"
        using kbTagMatches_match [of "pre @ s"] True d q' by simp
      ultimately show ?thesis by simp
    next
      case False
      from Cons have "length p < length pre" by simp
      with 1 have "tag \<in> set (kbTagMatches (p @ ''#kb/'' @ tag @ post))" by blast
      then have "tag \<in> set (kbTagMatches (p @ s))" by (simp only: s_def)
      moreover from False Cons have "kbTagMatches (pre @ s) = kbTagMatches (p @ s)"
        using kbTagMatches_skip [of c "p @ s"] by simp
      ultimately show ?thesis by simp
    qed
  qed
  then show ?case by (simp only: s_def)
qed

text \<open>
  An upper-case marker is not recognised: the pattern is matched as it is written, with
  the marker in lower case.
\<close>

theorem uppercase_marker_not_recognised: "declaredKnowledgeBases ''#KB/company_docs'' = []"
  by (simp add: declaredKnowledgeBases_def kbTagMatches.simps)

lemma canonicalDisplayForm_company_docs:
  "canonicalDisplayForm ''company_docs'' = ''Company Docs''"
  by (simp add: canonicalDisplayForm_def titleCase_def toLowerCase_def toLowerChar_def toUpperChar_def)

lemma canonicalDisplayForm_any_case:
  "canonicalDisplayForm ''Company-DOCS'' = ''Company Docs''"
  by (simp add: canonicalDisplayForm_def titleCase_def toLowerCase_def toLowerChar_def toUpperChar_def)

text \<open>
  Claim C8, with the marker in lower case. Every occurrence of \<^verbatim>\<open>#kb/\<close> followed by
  a name of one or more token characters, the name ending where the text ends or a
  character outside the class follows, is recognised wherever it stands in the text, and
  the declared names are the canonical display forms of the recognised names: \<^verbatim>\<open>_\<close>
  and \<^verbatim>\<open>-\<close> replaced by spaces, every word title-cased.
\<close>

theorem declaredKnowledgeBases_recognises_markers:
  assumes "tag \<noteq> []" "list_all isTokenChar tag" "post = [] \<or> \<not> isTokenChar (hd post)"
  shows "canonicalDisplayForm tag \<in> set (declaredKnowledgeBases (pre @ ''#kb/'' @ tag @ post))
         \<and> declaredKnowledgeBases content = map canonicalDisplayForm (kbTagMatches content)"
proof -
  have eq: "declaredKnowledgeBases c = map canonicalDisplayForm (kbTagMatches c)" for c
    by (simp add: declaredKnowledgeBases_def convertTag_canonical [abs_def])
  have "tag \<in> set (kbTagMatches (pre @ ''#kb/'' @ tag @ post))"
    using assms by (rule kbTagMatches_occurrence)
  then have "canonicalDisplayForm tag \<in> set (declaredKnowledgeBases (pre @ ''#kb/'' @ tag @ post))"
    unfolding eq by simp
  with eq show ?thesis by blast
qed

text \<open>The theorem at the marker \<^verbatim>\<open>#kb/company_docs\<close> inside a sentence.\<close>

theorem declaredKnowledgeBases_recognises_markers_witness:
  "''company_docs'' \<noteq> [] \<and> list_all isTokenChar ''company_docs''
   \<and> ('' now'' = [] \<or> \<not> isTokenChar (hd '' now''))
   \<and> ''Company Docs'' \<in> set (declaredKnowledgeBases ''see #kb/company_docs now'')"
  using declaredKnowledgeBases_recognises_markers
          [of "''company_docs''" "'' now''" "''see ''" "[]"]
  by (simp add: isTokenChar_def canonicalDisplayForm_company_docs)

section \<open>Requests, error messages and what they leave unchanged\<close>

lemma str_includes_prefix: "str_includes (sub @ rest) sub"
proof (cases "sub @ rest")
  case Nil
  then show ?thesis by simp
next
  case (Cons c cs)
  have "take (length sub) (sub @ rest) = sub" by simp
  with Cons show ?thesis by simp
qed

lemma str_includes_append: "str_includes s sub \<Longrightarrow> str_includes (a @ s) sub"
proof (induction a)
  case Nil
  then show ?case by simp
next
  case (Cons c a)
  then have "str_includes (a @ s) sub" by simp
  then show ?case by simp
qed

lemma str_includes_middle: "str_includes (a @ sub @ rest) sub"
  by (rule str_includes_append) (rule str_includes_prefix)

lemma toStringRadix_404: "toStringRadix 10 404 = ''404''"
  by (simp add: toStringRadix.simps digitChar_def)

lemma toStringRadix_400: "toStringRadix 10 400 = ''400''"
  by (simp add: toStringRadix.simps digitChar_def)

lemma notFoundMessage_404: "notFoundMessage (''API request failed: '' @ toStringRadix 10 404 @ '' '' @ txt)"
proof -
  have "str_includes (''API request failed: '' @ ''404'' @ '' '' @ txt) ''404''"
    by (rule str_includes_middle)
  then show ?thesis
    by (simp add: notFoundMessage_def toStringRadix_404)
qed

lemma makeApiRequest_failure:
  assumes "openwebuiUrl s \<noteq> []" "apiToken s \<noteq> []"
    and "respond h (requests s) req = Response status txt body" "400 \<le> status"
  shows "makeApiRequest h req s
         = (Inl (Error (apiFailureMessage status txt)), s\<lparr>requests := requests s @ [req]\<rparr>)"
  using assms by (simp add: makeApiRequest_def apiFailureMessage_def)

lemma notFoundMessage_api:
  assumes "status = 404 \<or> status = 400 \<or> str_includes txt ''could not find''"
  shows "notFoundMessage (apiFailureMessage status txt)"
proof -
  have nonempty: "apiFailureMessage status txt \<noteq> []"
    by (simp add: apiFailureMessage_def)
  from assms consider "status = 404" | "status = 400" | "str_includes txt ''could not find''"
    by blast
  then have "str_includes (apiFailureMessage status txt) ''could not find''
      \<or> str_includes (apiFailureMessage status txt) ''404''
      \<or> str_includes (apiFailureMessage status txt) ''400''"
  proof cases
    case 1
    have "str_includes (''API request failed: '' @ ''404'' @ '' '' @ txt) ''404''"
      by (rule str_includes_middle)
    with 1 show ?thesis by (simp add: apiFailureMessage_def toStringRadix_404)
  next
    case 2
    have "str_includes (''API request failed: '' @ ''400'' @ '' '' @ txt) ''400''"
      by (rule str_includes_middle)
    with 2 show ?thesis by (simp add: apiFailureMessage_def toStringRadix_400)
  next
    case 3
    then have "str_includes ((''API request failed: '' @ toStringRadix 10 (int status) @ '' '') @ txt)
        ''could not find''"
      by (rule str_includes_append)
    then show ?thesis by (simp add: apiFailureMessage_def)
  qed
  with nonempty show ?thesis by (simp add: notFoundMessage_def)
qed

lemma remoteOnly_refl [simp]: "remoteOnly s s"
  by (simp add: remoteOnly_def)

lemma remoteOnly_trans: "remoteOnly s s1 \<Longrightarrow> remoteOnly s1 s2 \<Longrightarrow> remoteOnly s s2"
  by (simp add: remoteOnly_def)

lemma makeApiRequest_stateD:
  "makeApiRequest h req s = (res, s') \<Longrightarrow>
     s' = (if openwebuiUrl s = [] \<or> apiToken s = [] then s else s\<lparr>requests := requests s @ [req]\<rparr>)"
  by (auto simp: makeApiRequest_def split: http.splits if_splits)

lemma makeApiRequest_remoteOnly:
  "makeApiRequest h req s = (res, s') \<Longrightarrow> remoteOnly s s'"
  by (drule makeApiRequest_stateD) (simp add: remoteOnly_def)


lemma cacheKnowledgeBases_remoteOnly: "remoteOnly s (cacheKnowledgeBases h kbs s)"
proof (induction kbs arbitrary: s)
  case Nil
  show ?case by simp
next
  case (Cons kb kbs)
  have "remoteOnly s (s\<lparr>kbCache := (kbCache s)(kb_name kb \<mapsto> (kb_id kb, now h (clockReads s))),
          clockReads := Suc (clockReads s)\<rparr>)"
    by (simp add: remoteOnly_def)
  then show ?case
    using Cons.IH remoteOnly_trans by fastforce
qed

lemma cacheKnowledgeBases_requests [simp]:
  "requests (cacheKnowledgeBases h kbs s) = requests s"
  by (induction kbs arbitrary: s) simp_all

lemma cacheKnowledgeBases_clockReads [simp]:
  "clockReads (cacheKnowledgeBases h kbs s) = clockReads s + length kbs"
  by (induction kbs arbitrary: s) simp_all

lemma lookupKnowledgeBase_remoteOnly:
  assumes "lookupKnowledgeBase h nm s = (res, s')"
  shows "remoteOnly s s'"
proof (cases "makeApiRequest h ListKnowledge s")
  case (Pair r s1)
  then have "remoteOnly s s1" by (rule makeApiRequest_remoteOnly)
  moreover have "remoteOnly s1 (cacheKnowledgeBases h kbs s1)" for kbs
    by (rule cacheKnowledgeBases_remoteOnly)
  ultimately show ?thesis
    using assms Pair
    by (auto simp: lookupKnowledgeBase_def split: sum.splits json.splits intro: remoteOnly_trans)
qed

lemma findKnowledgeBaseByName_remoteOnly:
  assumes "findKnowledgeBaseByName h nm s = (res, s')"
  shows "remoteOnly s s'"
proof (cases "kbCache s nm")
  case None
  with assms show ?thesis
    by (simp add: findKnowledgeBaseByName_def lookupKnowledgeBase_remoteOnly)
next
  case (Some entry)
  obtain cachedId timestamp where e: "entry = (cachedId, timestamp)" by (cases entry)
  have tick: "remoteOnly s (s\<lparr>clockReads := Suc (clockReads s)\<rparr>)"
    by (simp add: remoteOnly_def)
  show ?thesis
  proof (cases "now h (clockReads s) - timestamp < KB_CACHE_TTL")
    case True
    with assms Some e tick show ?thesis
      by (auto simp: findKnowledgeBaseByName_def DateNow_def)
  next
    case False
    with assms Some e have "lookupKnowledgeBase h nm (s\<lparr>clockReads := Suc (clockReads s)\<rparr>) = (res, s')"
      by (simp add: findKnowledgeBaseByName_def DateNow_def)
    then have "remoteOnly (s\<lparr>clockReads := Suc (clockReads s)\<rparr>) s'"
      by (rule lookupKnowledgeBase_remoteOnly)
    with tick show ?thesis by (rule remoteOnly_trans)
  qed
qed

lemma getOrCreateKnowledgeBase_remoteOnly:
  assumes "getOrCreateKnowledgeBase h nm s = (res, s')"
  shows "remoteOnly s s'"
proof (cases "findKnowledgeBaseByName h nm s")
  case (Pair existingId s1)
  then have one: "remoteOnly s s1" by (rule findKnowledgeBaseByName_remoteOnly)
  show ?thesis
  proof (cases "truthy existingId")
    case True
    with assms Pair one show ?thesis by (simp add: getOrCreateKnowledgeBase_def)
  next
    case False
    obtain r s2 where req: "makeApiRequest h (CreateKnowledge nm) s1 = (r, s2)"
      by (cases "makeApiRequest h (CreateKnowledge nm) s1")
    then have "remoteOnly s1 s2" by (rule makeApiRequest_remoteOnly)
    with one have two: "remoteOnly s s2" by (rule remoteOnly_trans)
    then have "remoteOnly s (s2\<lparr>kbCache := c, clockReads := k\<rparr>)" for c k
      by (simp add: remoteOnly_def)
    with assms Pair False req two show ?thesis
      by (auto simp: getOrCreateKnowledgeBase_def split: sum.splits json.splits)
  qed
qed

lemma addFileToKnowledgeBase_remoteOnly:
  "addFileToKnowledgeBase h kbId fid s = (res, s') \<Longrightarrow> remoteOnly s s'"
  by (cases "makeApiRequest h (FileAdd kbId fid) s")
     (auto simp: addFileToKnowledgeBase_def split: sum.splits dest: makeApiRequest_remoteOnly)

lemma uploadFile_remoteOnly:
  "uploadFile h filename content s = (res, s') \<Longrightarrow> remoteOnly s s'"
  by (auto simp: uploadFile_def remoteOnly_def split: http.splits if_splits json.splits)

lemma deleteFileFromOpenWebUI_remoteOnly:
  "remoteOnly s (deleteFileFromOpenWebUI h fid s)"
  by (cases "makeApiRequest h (FileDelete fid) s")
     (auto simp: deleteFileFromOpenWebUI_def dest: makeApiRequest_remoteOnly)

section \<open>Properties of the knowledge-base cache\<close>













section \<open>Properties of knowledge-base creation\<close>

text \<open>
  Claim C5, as the code has it. When the name does not resolve and the remote service
  refuses the create request, whatever the reason, \<^verbatim>\<open>getOrCreateKnowledgeBase\<close> raises
  the error of the create request, which is the last request it sends; the loop over the
  target knowledge bases then goes on with the next one.
\<close>

theorem getOrCreate_propagates_create_failure:
  assumes "openwebuiUrl s \<noteq> []" "apiToken s \<noteq> []"
    and "findKnowledgeBaseByName h nm s = (existingId, s1)" "\<not> truthy existingId"
    and "respond h (requests s1) (CreateKnowledge nm) = Response status txt body" "400 \<le> status"
  shows "getOrCreateKnowledgeBase h nm s
           = (Inl (Error (apiFailureMessage status txt)),
              s1\<lparr>requests := requests s1 @ [CreateKnowledge nm]\<rparr>)
       \<and> addToKnowledgeBases h (nm # rest) newRecord s
           = addToKnowledgeBases h rest newRecord (s1\<lparr>requests := requests s1 @ [CreateKnowledge nm]\<rparr>)"
proof -
  from assms(3) have "remoteOnly s s1" by (rule findKnowledgeBaseByName_remoteOnly)
  with assms(1,2) have "openwebuiUrl s1 \<noteq> []" "apiToken s1 \<noteq> []"
    by (simp_all add: remoteOnly_def)
  then have "makeApiRequest h (CreateKnowledge nm) s1
      = (Inl (Error (apiFailureMessage status txt)), s1\<lparr>requests := requests s1 @ [CreateKnowledge nm]\<rparr>)"
    using assms(5,6) by (rule makeApiRequest_failure)
  with assms(3,4) have "getOrCreateKnowledgeBase h nm s
      = (Inl (Error (apiFailureMessage status txt)), s1\<lparr>requests := requests s1 @ [CreateKnowledge nm]\<rparr>)"
    by (simp add: getOrCreateKnowledgeBase_def)
  then show ?thesis by simp
qed

theorem getOrCreate_propagates_create_failure_witness:
  "getOrCreateKnowledgeBase (desktopHost racingRemote [] []) ''Team'' loadedPlugin
   = (Inl (Error ''API request failed: 400 Knowledge base already exists''),
      loadedPlugin\<lparr>requests := [ListKnowledge, CreateKnowledge ''Team'']\<rparr>)"
proof -
  let ?h = "desktopHost racingRemote [] []"
  have f: "findKnowledgeBaseByName ?h ''Team'' loadedPlugin
      = (None, loadedPlugin\<lparr>requests := [ListKnowledge]\<rparr>)"
    by (simp add: findKnowledgeBaseByName_def lookupKnowledgeBase_def makeApiRequest_def
        loadedPlugin_def desktopHost_def racingRemote_def)
  have r: "respond ?h (requests (loadedPlugin\<lparr>requests := [ListKnowledge]\<rparr>)) (CreateKnowledge ''Team'')
      = Response 400 ''Knowledge base already exists'' JNull"
    by (simp add: desktopHost_def racingRemote_def)
  have msg: "apiFailureMessage 400 ''Knowledge base already exists''
      = ''API request failed: 400 Knowledge base already exists''"
    by (simp add: apiFailureMessage_def toStringRadix_400)
  have "openwebuiUrl loadedPlugin \<noteq> []" "apiToken loadedPlugin \<noteq> []"
    by (simp_all add: loadedPlugin_def)
  then show ?thesis
    using getOrCreate_propagates_create_failure [OF _ _ f _ r]
    by (simp add: truthy_def msg)
qed

text \<open>
  The create request races another client: it is refused because the knowledge base
  exists by now, a list request sent next would find it, and
  \<^verbatim>\<open>getOrCreateKnowledgeBase\<close> raises the error without sending one.
\<close>

theorem create_race_not_resolved:
  "fst (getOrCreateKnowledgeBase (desktopHost racingRemote [] []) ''Team'' loadedPlugin)
     = Inl (Error ''API request failed: 400 Knowledge base already exists'')
   \<and> requests (snd (getOrCreateKnowledgeBase (desktopHost racingRemote [] []) ''Team'' loadedPlugin))
     = [ListKnowledge, CreateKnowledge ''Team'']
   \<and> fst (findKnowledgeBaseByName (desktopHost racingRemote [] []) ''Team''
        (snd (getOrCreateKnowledgeBase (desktopHost racingRemote [] []) ''Team'' loadedPlugin)))
     = Some ''kb-1''"
  by (simp add: getOrCreateKnowledgeBase_def findKnowledgeBaseByName_def lookupKnowledgeBase_def
      makeApiRequest_def loadedPlugin_def desktopHost_def racingRemote_def truthy_def
      toStringRadix.simps digitChar_def)

section \<open>Properties of detaching and attaching\<close>

text \<open>
  Claim C7, as the code has it. With the plugin configured and the knowledge base
  resolved: a refusal of the remove request with status 404, with status 400 or with
  \<^verbatim>\<open>could not find\<close> in its text makes \<^verbatim>\<open>removeFileFromKnowledgeBase\<close> return
  normally, the knowledge base dropped from the record as after a removal; a refusal of
  the add request, with status 404 or any other status from 400 on, makes
  \<^verbatim>\<open>addFileToKnowledgeBase\<close> raise the error, and the loop over the target
  knowledge bases goes on with the next one, the record and the count of operations as
  they were.
\<close>

theorem not_found_on_detach_and_attach:
  assumes "openwebuiUrl s \<noteq> []" "apiToken s \<noteq> []"
  shows "(findKnowledgeBaseByName h kbName s = (Some kbId, t) \<and> kbId \<noteq> []
            \<and> map_of (fileMapping s) filePath = Some rcd
            \<and> respond h (requests t) (FileRemove kbId (fileId rcd)) = Response status txt body
            \<and> 400 \<le> status
            \<and> (status = 404 \<or> status = 400 \<or> str_includes txt ''could not find'')
          \<longrightarrow> removeFileFromKnowledgeBase h kbName filePath s
                = (Inr (), dropKnowledgeBase filePath kbName
                             (t\<lparr>requests := requests t @ [FileRemove kbId (fileId rcd)]\<rparr>)))
       \<and> (respond h (requests s) (FileAdd kbId fid) = Response status txt body \<and> 400 \<le> status
          \<longrightarrow> addFileToKnowledgeBase h kbId fid s
                = (Inl (Error (apiFailureMessage status txt)),
                   s\<lparr>requests := requests s @ [FileAdd kbId fid]\<rparr>))
       \<and> (getOrCreateKnowledgeBase h kbName s = (Inr kbId, t)
            \<and> respond h (requests t) (FileAdd kbId (fileId newRecord)) = Response status txt body
            \<and> 400 \<le> status
          \<longrightarrow> addToKnowledgeBases h (kbName # rest) newRecord s
                = addToKnowledgeBases h rest newRecord
                    (t\<lparr>requests := requests t @ [FileAdd kbId (fileId newRecord)]\<rparr>))"
proof (intro conjI impI)
  assume a: "findKnowledgeBaseByName h kbName s = (Some kbId, t) \<and> kbId \<noteq> []
            \<and> map_of (fileMapping s) filePath = Some rcd
            \<and> respond h (requests t) (FileRemove kbId (fileId rcd)) = Response status txt body
            \<and> 400 \<le> status
            \<and> (status = 404 \<or> status = 400 \<or> str_includes txt ''could not find'')"
  then have "remoteOnly s t" by (auto dest: findKnowledgeBaseByName_remoteOnly)
  with assms a have t: "openwebuiUrl t \<noteq> []" "apiToken t \<noteq> []"
      "map_of (fileMapping t) filePath = Some rcd"
    by (simp_all add: remoteOnly_def)
  from a have "notFoundMessage (apiFailureMessage status txt)"
    by (intro notFoundMessage_api) simp
  moreover from t(1,2) a
  have "makeApiRequest h (FileRemove kbId (fileId rcd)) t
      = (Inl (Error (apiFailureMessage status txt)),
         t\<lparr>requests := requests t @ [FileRemove kbId (fileId rcd)]\<rparr>)"
    by (intro makeApiRequest_failure) simp_all
  ultimately show "removeFileFromKnowledgeBase h kbName filePath s
      = (Inr (), dropKnowledgeBase filePath kbName
                   (t\<lparr>requests := requests t @ [FileRemove kbId (fileId rcd)]\<rparr>))"
    using a t(3) by (simp add: removeFileFromKnowledgeBase_def truthy_def)
next
  assume "respond h (requests s) (FileAdd kbId fid) = Response status txt body \<and> 400 \<le> status"
  with assms have "makeApiRequest h (FileAdd kbId fid) s
      = (Inl (Error (apiFailureMessage status txt)), s\<lparr>requests := requests s @ [FileAdd kbId fid]\<rparr>)"
    by (intro makeApiRequest_failure) simp_all
  then show "addFileToKnowledgeBase h kbId fid s
      = (Inl (Error (apiFailureMessage status txt)), s\<lparr>requests := requests s @ [FileAdd kbId fid]\<rparr>)"
    by (simp add: addFileToKnowledgeBase_def)
next
  assume a: "getOrCreateKnowledgeBase h kbName s = (Inr kbId, t)
            \<and> respond h (requests t) (FileAdd kbId (fileId newRecord)) = Response status txt body
            \<and> 400 \<le> status"
  then have "remoteOnly s t" by (auto dest: getOrCreateKnowledgeBase_remoteOnly)
  with assms have "openwebuiUrl t \<noteq> []" "apiToken t \<noteq> []"
    by (simp_all add: remoteOnly_def)
  with a have "makeApiRequest h (FileAdd kbId (fileId newRecord)) t
      = (Inl (Error (apiFailureMessage status txt)),
         t\<lparr>requests := requests t @ [FileAdd kbId (fileId newRecord)]\<rparr>)"
    by (intro makeApiRequest_failure) simp_all
  with a show "addToKnowledgeBases h (kbName # rest) newRecord s
      = addToKnowledgeBases h rest newRecord
          (t\<lparr>requests := requests t @ [FileAdd kbId (fileId newRecord)]\<rparr>)"
    by (simp add: addFileToKnowledgeBase_def)
qed

text \<open>
  The theorem on a remote service that lists the knowledge base and answers the remove
  and add requests with status 404.
\<close>

theorem not_found_on_detach_and_attach_witness:
  "fst (removeFileFromKnowledgeBase (desktopHost goneRemote [] []) ''Team'' ''note.md'' trackedPlugin)
     = Inr ()
   \<and> map_of (fileMapping (snd (removeFileFromKnowledgeBase (desktopHost goneRemote [] []) ''Team''
        ''note.md'' trackedPlugin))) ''note.md''
     = Some \<lparr>fileId = ''file-1'', uploadedFilename = ''note_3d5d78d3.md'', contentHash = ''3d5d78d3'',
             lastModified = 1700000000000, knowledgeBases = []\<rparr>
   \<and> fst (addFileToKnowledgeBase (desktopHost goneRemote [] []) ''kb-1'' ''file-1'' trackedPlugin)
     = Inl (Error ''API request failed: 404 Not Found'')"
proof -
  let ?h = "desktopHost goneRemote [] []"
  let ?s1 = "trackedPlugin\<lparr>kbCache := [''Team'' \<mapsto> (''kb-1'', 0)], clockReads := 1,
                           requests := [ListKnowledge]\<rparr>"
  let ?r = "\<lparr>fileId = ''file-1'', uploadedFilename = ''note_3d5d78d3.md'', contentHash = ''3d5d78d3'',
              lastModified = 1700000000000, knowledgeBases = [''Team'']\<rparr>"
  have cfg: "openwebuiUrl trackedPlugin \<noteq> []" "apiToken trackedPlugin \<noteq> []"
    by (simp_all add: trackedPlugin_def loadedPlugin_def)
  have f: "findKnowledgeBaseByName ?h ''Team'' trackedPlugin = (Some ''kb-1'', ?s1)"
    by (simp add: findKnowledgeBaseByName_def lookupKnowledgeBase_def makeApiRequest_def
        trackedPlugin_def loadedPlugin_def desktopHost_def goneRemote_def)
  have m: "map_of (fileMapping trackedPlugin) ''note.md'' = Some ?r"
    by (simp add: trackedPlugin_def loadedPlugin_def)
  have r: "respond ?h (requests ?s1) (FileRemove ''kb-1'' ''file-1'') = Response 404 ''Not Found'' JNull"
    by (simp add: desktopHost_def goneRemote_def)
  have a: "respond ?h (requests trackedPlugin) (FileAdd ''kb-1'' ''file-1'') = Response 404 ''Not Found'' JNull"
    by (simp add: desktopHost_def goneRemote_def)
  have msg: "apiFailureMessage 404 ''Not Found'' = ''API request failed: 404 Not Found''"
    by (simp add: apiFailureMessage_def toStringRadix_404)
  show ?thesis
    using not_found_on_detach_and_attach [OF cfg, of ?h "''Team''" "''kb-1''" ?s1 "''note.md''" ?r 404 "''Not Found''" JNull
        "''file-1''"]
      f m r a
    by (simp add: dropKnowledgeBase_def trackedPlugin_def loadedPlugin_def msg)
qed

text \<open>
  A status 404 on the add request is an error to \<^verbatim>\<open>addFileToKnowledgeBase\<close>, and the
  loop that called it neither records the knowledge base nor counts an operation.
\<close>

theorem attach_not_found_is_an_error:
  "fst (addFileToKnowledgeBase (desktopHost notFoundRemote [] []) ''kb-1'' ''file-1'' loadedPlugin)
     = Inl (Error ''API request failed: 404 Not Found'')"
  by (simp add: addFileToKnowledgeBase_def makeApiRequest_def loadedPlugin_def desktopHost_def
      notFoundRemote_def toStringRadix.simps digitChar_def)

section \<open>Properties of the guard\<close>

lemma Notice_syncMutex [simp]: "syncMutex (Notice m s) = syncMutex s"
  by (simp add: Notice_def)

lemma shouldAllowSync_syncMutex:
  "shouldAllowSync h s = (answer, s1) \<Longrightarrow> syncMutex s1 = syncMutex s"
  by (auto simp: shouldAllowSync_def DateNow_def Notice_def
      split: connection.splits networkBehavior.splits if_splits)

text \<open>
  Claim C4, as the code has it. While the guard is held, a call of
  \<^verbatim>\<open>syncToKnowledgeBase\<close> shows the notice that a sync is in progress and changes
  nothing else, and a firing of the timer changes nothing at all, so neither starts a
  pass or touches the counters; the timer's rejection is a debug line, not a notice. A
  call that finds the guard free leaves it free when it returns, on every path: without
  an API token, blocked by the network policy, or behind a pass, whether the pass
  completed or failed.
\<close>

theorem single_flight_guard:
  "(syncMutex s \<longrightarrow>
      syncToKnowledgeBase h s = s\<lparr>notices := notices s @ [''Sync already in progress, please wait...'']\<rparr>
      \<and> autoSyncTick h s = s)
   \<and> (\<not> syncMutex s \<longrightarrow> \<not> syncMutex (syncToKnowledgeBase h s))"
proof (intro conjI impI)
  assume "syncMutex s"
  then show "syncToKnowledgeBase h s = s\<lparr>notices := notices s @ [''Sync already in progress, please wait...'']\<rparr>"
    by (simp add: syncToKnowledgeBase_def Notice_def)
next
  assume "syncMutex s"
  then show "autoSyncTick h s = s"
    by (simp add: autoSyncTick_def)
next
  assume free: "\<not> syncMutex s"
  obtain allow reason s1 where a: "shouldAllowSync h s = ((allow, reason), s1)"
    by (cases "shouldAllowSync h s") auto
  then have "syncMutex s1 = syncMutex s" by (rule shouldAllowSync_syncMutex)
  with free a show "\<not> syncMutex (syncToKnowledgeBase h s)"
    by (simp add: syncToKnowledgeBase_def)
qed

text \<open>
  The theorem on a pass in progress, and on a pass that fails because a markdown file
  cannot be read: the failure is reported and the guard is free again.
\<close>

theorem single_flight_guard_witness:
  "syncMutex (loadedPlugin\<lparr>syncMutex := True, syncStatus := \<lparr>synced = 2, total = 5, issyncing = True, error = False\<rparr>\<rparr>)
   \<and> syncStatus (syncToKnowledgeBase (desktopHost emptyRemote [] [])
        (loadedPlugin\<lparr>syncMutex := True, syncStatus := \<lparr>synced = 2, total = 5, issyncing = True, error = False\<rparr>\<rparr>))
      = \<lparr>synced = 2, total = 5, issyncing = True, error = False\<rparr>
   \<and> \<not> syncMutex loadedPlugin
   \<and> \<not> syncMutex (syncToKnowledgeBase
          (desktopHost emptyRemote [\<lparr>path = ''gone.md'', name = ''gone.md'', mtime = 1\<rparr>] []) loadedPlugin)
   \<and> notices (syncToKnowledgeBase
          (desktopHost emptyRemote [\<lparr>path = ''gone.md'', name = ''gone.md'', mtime = 1\<rparr>] []) loadedPlugin)
      = [''Sync failed: File not found'']"
proof -
  let ?busy = "loadedPlugin\<lparr>syncMutex := True, syncStatus := \<lparr>synced = 2, total = 5, issyncing = True, error = False\<rparr>\<rparr>"
  let ?h = "desktopHost emptyRemote [\<lparr>path = ''gone.md'', name = ''gone.md'', mtime = 1\<rparr>] []"
  have "notices (syncToKnowledgeBase ?h loadedPlugin) = [''Sync failed: File not found'']"
    by (simp add: syncToKnowledgeBase_def shouldAllowSync_def performSyncOperation_def
        cleanupDeletedFiles_def syncFailed_def Notice_def loadedPlugin_def desktopHost_def)
  then show ?thesis
    using single_flight_guard [of ?busy "desktopHost emptyRemote [] []"]
      single_flight_guard [of loadedPlugin ?h]
    by (simp add: loadedPlugin_def)
qed

text \<open>
  The timer fires while a pass is in progress: the callback returns without a notice.
\<close>

theorem timer_rejection_is_silent:
  "notices (autoSyncTick (desktopHost emptyRemote [] []) (loadedPlugin\<lparr>syncMutex := True\<rparr>)) = []"
  by (simp add: autoSyncTick_def loadedPlugin_def)

section \<open>What reconciling a file sends and changes\<close>

lemma uploadAndAttach_nothing_to_add:
  assumes "\<not> contentChanged" "set currentKBs \<subseteq> set previousKBs"
    and "map_of (fileMapping s) filePath = Some r"
  shows "uploadAndAttach h file filePath lm content hash contentChanged currentKBs previousKBs s
         = (Inr (), s\<lparr>syncState := AList.update filePath currentKBs (syncState s)\<rparr>)"
proof -
  from assms(2) have "filter (\<lambda>kb. kb \<notin> set previousKBs) currentKBs = []"
    by (auto simp: filter_empty_conv)
  moreover from assms(3) have "AList.update filePath r (fileMapping s) = fileMapping s"
    by (rule AList.update_triv)
  ultimately show ?thesis
    using assms(1,3) by (simp add: uploadAndAttach_def updateState_def)
qed

lemma fingerprintFile_same:
  assumes "fingerprintOf h file = Inr (contentHash r)"
  shows "(\<exists>e. fingerprintFile h file config (Some r) lm = Inl e)
       \<or> (\<exists>content. fingerprintFile h file config (Some r) lm = Inr (content, contentHash r))"
  using assms
  by (auto simp: fingerprintFile_def fingerprintOf_def readProcessed_def Let_def
      split: sum.splits option.splits)

lemma previousKBsOf_sorted:
  "set (previousKBsOf (s\<lparr>syncState := AList.map_entry p sort (syncState s)\<rparr>) q) = set (previousKBsOf s q)"
  by (simp add: previousKBsOf_def AList.map_of_map_entry split: option.splits)

lemma previousKBsOf_updated:
  "previousKBsOf (s\<lparr>syncState := AList.update p kbs (syncState s)\<rparr>) q
   = (if q = p then kbs else previousKBsOf s q)"
  by (simp add: previousKBsOf_def AList.update_conv')

lemma readLastModified_state:
  "readLastModified h file s = (lm, s0) \<Longrightarrow>
     s0 = s \<or> s0 = s\<lparr>clockReads := Suc (clockReads s)\<rparr>"
  by (auto simp: readLastModified_def DateNow_def split: if_splits)

lemma sends_refl [simp]: "sends allowed s s"
  by (simp add: sends_def)

lemma sends_trans: "sends allowed s s1 \<Longrightarrow> sends allowed s1 s2 \<Longrightarrow> sends allowed s s2"
  by (auto simp: sends_def)

lemma sends_weaken:
  "sends allowed s s' \<Longrightarrow> (\<And>q. allowed q \<Longrightarrow> allowed' q) \<Longrightarrow> sends allowed' s s'"
  by (auto simp: sends_def list_all_iff)

lemma sends_same_requests: "requests s' = requests s \<Longrightarrow> sends allowed s s'"
  by (simp add: sends_def)

lemma makeApiRequest_sends:
  "makeApiRequest h req s = (res, s') \<Longrightarrow> allowed req \<Longrightarrow> sends allowed s s'"
  by (drule makeApiRequest_stateD) (simp add: sends_def)

lemma lookupKnowledgeBase_sends:
  assumes "lookupKnowledgeBase h nm s = (res, s')"
  shows "sends isListRequest s s'"
proof (cases "makeApiRequest h ListKnowledge s")
  case (Pair r s1)
  then have "sends isListRequest s s1"
    by (rule makeApiRequest_sends) (simp add: isListRequest_def)
  moreover have "sends isListRequest s1 (cacheKnowledgeBases h kbs s1)" for kbs
    by (simp add: sends_same_requests)
  ultimately show ?thesis
    using assms Pair
    by (auto simp: lookupKnowledgeBase_def split: sum.splits json.splits intro: sends_trans)
qed

lemma findKnowledgeBaseByName_sends:
  assumes "findKnowledgeBaseByName h nm s = (res, s')"
  shows "sends isListRequest s s'"
proof (cases "kbCache s nm")
  case None
  with assms show ?thesis
    by (simp add: findKnowledgeBaseByName_def lookupKnowledgeBase_sends)
next
  case (Some entry)
  obtain cachedId timestamp where e: "entry = (cachedId, timestamp)" by (cases entry)
  have tick: "sends isListRequest s (s\<lparr>clockReads := Suc (clockReads s)\<rparr>)"
    by (simp add: sends_same_requests)
  show ?thesis
  proof (cases "now h (clockReads s) - timestamp < KB_CACHE_TTL")
    case True
    with assms Some e tick show ?thesis
      by (auto simp: findKnowledgeBaseByName_def DateNow_def)
  next
    case False
    with assms Some e have "lookupKnowledgeBase h nm (s\<lparr>clockReads := Suc (clockReads s)\<rparr>) = (res, s')"
      by (simp add: findKnowledgeBaseByName_def DateNow_def)
    then have "sends isListRequest (s\<lparr>clockReads := Suc (clockReads s)\<rparr>) s'"
      by (rule lookupKnowledgeBase_sends)
    with tick show ?thesis by (rule sends_trans)
  qed
qed

lemma detachedOnly_refl [simp]: "detachedOnly p names s s"
  by (simp add: detachedOnly_def option.rel_refl_strong)

lemma detachedOnly_trans:
  assumes "detachedOnly p names s s1" "detachedOnly p names s1 s2"
  shows "detachedOnly p names s s2"
proof -
  let ?R = "\<lambda>r r'. r' = r\<lparr>knowledgeBases := knowledgeBases r'\<rparr>
                    \<and> set (knowledgeBases r') \<subseteq> set (knowledgeBases r)
                    \<and> set (knowledgeBases r) - names \<subseteq> set (knowledgeBases r')"
  from assms have a: "rel_option ?R (map_of (fileMapping s) p) (map_of (fileMapping s1) p)"
    and b: "rel_option ?R (map_of (fileMapping s1) p) (map_of (fileMapping s2) p)"
    by (simp_all add: detachedOnly_def)
  have "rel_option ?R (map_of (fileMapping s) p) (map_of (fileMapping s2) p)"
  proof (cases "map_of (fileMapping s) p")
    case None
    with a b show ?thesis by (cases "map_of (fileMapping s1) p"; cases "map_of (fileMapping s2) p") auto
  next
    case (Some r)
    with a obtain r1 where r1: "map_of (fileMapping s1) p = Some r1" "?R r r1"
      by (cases "map_of (fileMapping s1) p") auto
    with b obtain r2 where r2: "map_of (fileMapping s2) p = Some r2" "?R r1 r2"
      by (cases "map_of (fileMapping s2) p") auto
    from r1(2) r2(2) have "r2 = r\<lparr>knowledgeBases := knowledgeBases r2\<rparr>"
      by (metis OpenWebUIFileRecord.update_convs(5) OpenWebUIFileRecord.surjective)
    moreover from r1(2) r2(2) have "set (knowledgeBases r2) \<subseteq> set (knowledgeBases r)" by blast
    moreover from r1(2) r2(2) have "set (knowledgeBases r) - names \<subseteq> set (knowledgeBases r2)" by blast
    ultimately show ?thesis using Some r2(1) by simp
  qed
  with assms show ?thesis by (simp add: detachedOnly_def)
qed

lemma remoteOnly_detachedOnly: "remoteOnly s s' \<Longrightarrow> detachedOnly p names s s'"
  by (simp add: remoteOnly_def detachedOnly_def option.rel_refl_strong)

lemma dropKnowledgeBase_detachedOnly:
  "kbName \<in> names \<Longrightarrow> detachedOnly p names s (dropKnowledgeBase p kbName s)"
  by (cases "map_of (fileMapping s) p")
     (auto simp: detachedOnly_def dropKnowledgeBase_def AList.map_of_map_entry)

lemma dropKnowledgeBase_requests [simp]:
  "requests (dropKnowledgeBase p kbName s) = requests s"
  by (simp add: dropKnowledgeBase_def)

lemma countSynced_requests [simp]: "requests (countSynced s) = requests s"
  by (simp add: countSynced_def)

lemma countSynced_detachedOnly: "detachedOnly p names s (countSynced s)"
  by (simp add: detachedOnly_def countSynced_def option.rel_refl_strong)

lemma removeFileFromKnowledgeBase_effect:
  assumes "removeFileFromKnowledgeBase h kbName p s = (res, s')" "kbName \<in> names"
  shows "detachedOnly p names s s' \<and> sends isDetachRequest s s'"
proof (cases "findKnowledgeBaseByName h kbName s")
  case (Pair kbId s1)
  then have d1: "detachedOnly p names s s1"
    by (auto dest: findKnowledgeBaseByName_remoteOnly intro: remoteOnly_detachedOnly)
  from Pair have "sends isListRequest s s1" by (rule findKnowledgeBaseByName_sends)
  then have q1: "sends isDetachRequest s s1"
    by (rule sends_weaken) (simp add: isListRequest_def isDetachRequest_def)
  show ?thesis
  proof (cases "truthy kbId")
    case False
    with assms Pair d1 q1 show ?thesis by (simp add: removeFileFromKnowledgeBase_def)
  next
    case True
    show ?thesis
    proof (cases "map_of (fileMapping s1) p")
      case None
      with assms Pair True d1 q1 show ?thesis by (simp add: removeFileFromKnowledgeBase_def)
    next
      case (Some rcd)
      obtain r s2 where req: "makeApiRequest h (FileRemove (the kbId) (fileId rcd)) s1 = (r, s2)"
        by (cases "makeApiRequest h (FileRemove (the kbId) (fileId rcd)) s1")
      then have "remoteOnly s1 s2" by (rule makeApiRequest_remoteOnly)
      then have "detachedOnly p names s1 s2" by (rule remoteOnly_detachedOnly)
      with d1 have d2: "detachedOnly p names s s2" by (rule detachedOnly_trans)
      from req have "sends isDetachRequest s1 s2"
        by (rule makeApiRequest_sends) (simp add: isDetachRequest_def)
      with q1 have q2: "sends isDetachRequest s s2" by (rule sends_trans)
      have "detachedOnly p names s2 (dropKnowledgeBase p kbName s2)"
        using assms(2) by (rule dropKnowledgeBase_detachedOnly)
      with d2 have d3: "detachedOnly p names s (dropKnowledgeBase p kbName s2)"
        by (rule detachedOnly_trans)
      have "sends isDetachRequest s2 (dropKnowledgeBase p kbName s2)"
        by (simp add: sends_same_requests)
      with q2 have q3: "sends isDetachRequest s (dropKnowledgeBase p kbName s2)"
        by (rule sends_trans)
      from assms(1) Pair True Some req have "s' = s2 \<or> s' = dropKnowledgeBase p kbName s2"
        by (auto simp: removeFileFromKnowledgeBase_def split: sum.splits if_splits)
      with d2 q2 d3 q3 show ?thesis by auto
    qed
  qed
qed

lemma removeFromOldKBs_effect:
  "set kbs \<subseteq> names \<Longrightarrow>
     detachedOnly p names s (removeFromOldKBs h p kbs s)
     \<and> sends isDetachRequest s (removeFromOldKBs h p kbs s)"
proof (induction kbs arbitrary: s)
  case Nil
  show ?case by simp
next
  case (Cons kbName rest)
  obtain res s1 where r: "removeFileFromKnowledgeBase h kbName p s = (res, s1)"
    by (cases "removeFileFromKnowledgeBase h kbName p s")
  with Cons.prems have one: "detachedOnly p names s s1" "sends isDetachRequest s s1"
    using removeFileFromKnowledgeBase_effect [of h kbName p s res s1 names] by simp_all
  have "sends isDetachRequest s1 (countSynced s1)"
    by (simp add: sends_same_requests)
  then have two: "detachedOnly p names s (countSynced s1)" "sends isDetachRequest s (countSynced s1)"
    using one countSynced_detachedOnly [of p names s1]
    by (auto intro: detachedOnly_trans sends_trans)
  from Cons.prems have rest: "set rest \<subseteq> names" by simp
  show ?case
  proof (cases res)
    case (Inl e)
    with r have "removeFromOldKBs h p (kbName # rest) s = removeFromOldKBs h p rest s1" by simp
    with one Cons.IH [OF rest, of s1] show ?thesis
      by (auto intro: detachedOnly_trans sends_trans)
  next
    case (Inr u)
    with r have "removeFromOldKBs h p (kbName # rest) s = removeFromOldKBs h p rest (countSynced s1)"
      by simp
    with two Cons.IH [OF rest, of "countSynced s1"] show ?thesis
      by (auto intro: detachedOnly_trans sends_trans)
  qed
qed

lemma removeFromEach_effect:
  "detachedOnly p UNIV s (removeFromEach h p kbs s)
   \<and> sends isRemovalRequest s (removeFromEach h p kbs s)"
proof (induction kbs arbitrary: s)
  case Nil
  show ?case by simp
next
  case (Cons kbName rest)
  obtain res s1 where r: "removeFileFromKnowledgeBase h kbName p s = (res, s1)"
    by (cases "removeFileFromKnowledgeBase h kbName p s")
  then have "detachedOnly p UNIV s s1" "sends isDetachRequest s s1"
    using removeFileFromKnowledgeBase_effect [of h kbName p s res s1 UNIV] by simp_all
  then have one: "detachedOnly p UNIV s s1" "sends isRemovalRequest s s1"
    by (auto elim!: sends_weaken simp: isDetachRequest_def isRemovalRequest_def split: request.splits)
  from r have "removeFromEach h p (kbName # rest) s = removeFromEach h p rest s1" by simp
  with one Cons.IH [of s1] show ?case
    by (auto intro: detachedOnly_trans sends_trans)
qed

lemma removeFileFromAllKnowledgeBases_effect:
  assumes "removeFileFromAllKnowledgeBases h p s = (res, s')"
  shows "detachedOnly p UNIV s s' \<and> sends isRemovalRequest s s'"
proof (cases "map_of (fileMapping s) p")
  case None
  with assms show ?thesis by (simp add: removeFileFromAllKnowledgeBases_def)
next
  case (Some rcd)
  let ?s1 = "removeFromEach h p (knowledgeBases rcd) s"
  have one: "detachedOnly p UNIV s ?s1" "sends isRemovalRequest s ?s1"
    using removeFromEach_effect [of p s h "knowledgeBases rcd"] by simp_all
  obtain r s2 where req: "makeApiRequest h (FileDelete (fileId rcd)) ?s1 = (r, s2)"
    by (cases "makeApiRequest h (FileDelete (fileId rcd)) ?s1")
  then have "remoteOnly ?s1 s2" by (rule makeApiRequest_remoteOnly)
  then have "detachedOnly p UNIV ?s1 s2" by (rule remoteOnly_detachedOnly)
  moreover from req have "sends isRemovalRequest ?s1 s2"
    by (rule makeApiRequest_sends) (simp add: isRemovalRequest_def)
  moreover from assms Some req have "s' = s2"
    by (simp add: removeFileFromAllKnowledgeBases_def deleteFileFromOpenWebUI_def)
  ultimately show ?thesis
    using one by (auto intro: detachedOnly_trans sends_trans)
qed

lemma removeFileFromAllKnowledgeBases_ok:
  "map_of (fileMapping s) p = Some r \<Longrightarrow> fst (removeFileFromAllKnowledgeBases h p s) = Inr ()"
  by (simp add: removeFileFromAllKnowledgeBases_def)

lemma uploadFile_requests:
  "requests (snd (uploadFile h filename content s)) = requests s @ [FileUpload filename content]"
  by (simp add: uploadFile_def split: http.splits json.splits)

lemma uploadFile_refused:
  assumes "uploadRefused (respond h (requests s) (FileUpload filename content))"
  shows "\<exists>e. uploadFile h filename content s
           = (Inl e, s\<lparr>requests := requests s @ [FileUpload filename content]\<rparr>)"
  using assms by (auto simp: uploadFile_def uploadRefused_def split: http.splits)

lemma getOrCreateKnowledgeBase_requests:
  assumes "getOrCreateKnowledgeBase h nm s = (res, s')"
  shows "\<exists>extra. requests s' = requests s @ extra"
proof (cases "findKnowledgeBaseByName h nm s")
  case (Pair existingId s1)
  then obtain e1 where one: "requests s1 = requests s @ e1"
    using findKnowledgeBaseByName_sends [of h nm s existingId s1] by (auto simp: sends_def)
  obtain r s2 where req: "makeApiRequest h (CreateKnowledge nm) s1 = (r, s2)"
    by (cases "makeApiRequest h (CreateKnowledge nm) s1")
  then obtain e2 where "requests s2 = requests s1 @ e2"
    using makeApiRequest_sends [of h "CreateKnowledge nm" s1 r s2 "\<lambda>q. True"] by (auto simp: sends_def)
  with one have two: "requests s2 = requests s @ (e1 @ e2)" by simp
  from assms Pair req have
    "s' = s1 \<or> s' = s2 \<or> (\<exists>c k. s' = s2\<lparr>kbCache := c, clockReads := k\<rparr>)"
    by (auto simp: getOrCreateKnowledgeBase_def split: if_splits sum.splits json.splits)
  with one two show ?thesis by auto
qed

lemma addToKnowledgeBases_requests:
  "\<exists>extra. requests (snd (addToKnowledgeBases h kbs newRecord s)) = requests s @ extra"
proof (induction kbs arbitrary: newRecord s)
  case Nil
  show ?case by simp
next
  case (Cons kbName rest)
  obtain res s1 where g: "getOrCreateKnowledgeBase h kbName s = (res, s1)"
    by (cases "getOrCreateKnowledgeBase h kbName s")
  then obtain e1 where one: "requests s1 = requests s @ e1"
    using getOrCreateKnowledgeBase_requests by blast
  show ?case
  proof (cases res)
    case (Inl e)
    with g have "addToKnowledgeBases h (kbName # rest) newRecord s = addToKnowledgeBases h rest newRecord s1"
      by simp
    with one Cons.IH [of newRecord s1] show ?thesis by auto
  next
    case (Inr kbId)
    obtain r2 s2 where a: "addFileToKnowledgeBase h kbId (fileId newRecord) s1 = (r2, s2)"
      by (cases "addFileToKnowledgeBase h kbId (fileId newRecord) s1")
    obtain r3 s3 where m: "makeApiRequest h (FileAdd kbId (fileId newRecord)) s1 = (r3, s3)"
      by (cases "makeApiRequest h (FileAdd kbId (fileId newRecord)) s1")
    then obtain e2 where "requests s3 = requests s1 @ e2"
      using makeApiRequest_sends [of h "FileAdd kbId (fileId newRecord)" s1 r3 s3 "\<lambda>q. True"]
      by (auto simp: sends_def)
    moreover from a m have "s2 = s3"
      by (auto simp: addFileToKnowledgeBase_def split: sum.splits)
    ultimately have two: "requests s2 = requests s @ (e1 @ e2)" using one by simp
    show ?thesis
    proof (cases r2)
      case (Inl e)
      with g Inr a have "addToKnowledgeBases h (kbName # rest) newRecord s
          = addToKnowledgeBases h rest newRecord s2" by simp
      with two Cons.IH [of newRecord s2] show ?thesis by auto
    next
      case (Inr u)
      with g \<open>res = Inr kbId\<close> a obtain nr where "addToKnowledgeBases h (kbName # rest) newRecord s
          = addToKnowledgeBases h rest nr (countSynced s2)" by simp
      with two Cons.IH [of nr "countSynced s2"] show ?thesis by auto
    qed
  qed
qed

lemma updateState_requests [simp]: "requests (updateState p kbs r s) = requests s"
  by (simp add: updateState_def)

lemma uploadAndAttach_refused:
  assumes "contentChanged \<or> \<not> set currentKBs \<subseteq> set previousKBs"
    and "\<And>history filename content. uploadRefused (respond h history (FileUpload filename content))"
  shows "\<exists>e s'. uploadAndAttach h file p lm content hash contentChanged currentKBs previousKBs s = (Inl e, s')
           \<and> remoteOnly s s'"
proof -
  from assms(1) have need: "contentChanged \<or> filter (\<lambda>kb. kb \<notin> set previousKBs) currentKBs \<noteq> []"
    by (auto simp: filter_empty_conv)
  show ?thesis
  proof (cases "if content = [] then readProcessed h file else Inr content")
    case (Inl e)
    with need show ?thesis by (auto simp: uploadAndAttach_def Let_def)
  next
    case (Inr content1)
    obtain e where "uploadFile h (generateStableFilename (name file) hash) content1 s
        = (Inl e, s\<lparr>requests := requests s @ [FileUpload (generateStableFilename (name file) hash) content1]\<rparr>)"
      using uploadFile_refused [OF assms(2)] by blast
    moreover have "remoteOnly s (s\<lparr>requests := requests s @ [FileUpload (generateStableFilename (name file) hash) content1]\<rparr>)"
      by (simp add: remoteOnly_def)
    ultimately show ?thesis
      using need Inr by (auto simp: uploadAndAttach_def Let_def)
  qed
qed

lemma uploadAndAttach_uploads:
  assumes "contentChanged \<or> \<not> set currentKBs \<subseteq> set previousKBs"
    and "(if content = [] then readProcessed h file else Inr content) = Inr content1"
  shows "FileUpload (generateStableFilename (name file) hash) content1
           \<in> set (drop (length (requests s))
                (requests (snd (uploadAndAttach h file p lm content hash contentChanged currentKBs previousKBs s))))"
proof -
  from assms(1) have need: "contentChanged \<or> filter (\<lambda>kb. kb \<notin> set previousKBs) currentKBs \<noteq> []"
    by (auto simp: filter_empty_conv)
  let ?fn = "generateStableFilename (name file) hash"
  obtain res s1 where u: "uploadFile h ?fn content1 s = (res, s1)"
    by (cases "uploadFile h ?fn content1 s")
  then have r1: "requests s1 = requests s @ [FileUpload ?fn content1]"
    using uploadFile_requests [of h ?fn content1 s] by simp
  show ?thesis
  proof (cases res)
    case (Inl e)
    with need assms(2) u r1 show ?thesis
      by (auto simp: uploadAndAttach_def Let_def)
  next
    case (Inr uploadedId)
    let ?new = "\<lparr>fileId = uploadedId, uploadedFilename = ?fn,
                  contentHash = hash, lastModified = lm, knowledgeBases = []\<rparr>"
    let ?targets = "if contentChanged then currentKBs
        else filter (\<lambda>kb. kb \<notin> set previousKBs) currentKBs
             @ (if contentChanged then filter (\<lambda>kb. kb \<in> set previousKBs) currentKBs else [])"
    obtain nr s2 where a: "addToKnowledgeBases h ?targets ?new s1 = (nr, s2)"
      by (cases "addToKnowledgeBases h ?targets ?new s1")
    then obtain extra where "requests s2 = requests s1 @ extra"
      using addToKnowledgeBases_requests [of h ?targets ?new s1] by auto
    with r1 have "requests s2 = requests s @ FileUpload ?fn content1 # extra" by simp
    moreover from need assms(2) u Inr a
    have "uploadAndAttach h file p lm content hash contentChanged currentKBs previousKBs s
        = (Inr (), updateState p currentKBs nr s2)"
      by (auto simp: uploadAndAttach_def Let_def)
    ultimately show ?thesis by simp
  qed
qed

lemma sends_drop:
  "sends allowed s s' \<Longrightarrow> list_all allowed (drop (length (requests s)) (requests s'))"
  by (auto simp: sends_def)

lemma syncFile_with_record:
  assumes "readLastModified h file s = (lm, s0)"
    and "map_of (fileMapping s0) (normalizePath h (path file)) = Some r"
    and "fingerprintFile h file config (Some r) lm = Inr (content, hash)"
    and "removeFileFromAllKnowledgeBases h (normalizePath h (path file))
           (s0\<lparr>syncState := AList.map_entry (normalizePath h (path file)) sort (syncState s0)\<rparr>) = (u, s2)"
  shows "syncFileWithStateTracking h file declaredKBs config s =
     (if \<not> (lastModified r \<noteq> lm \<and> contentHash r \<noteq> hash)
         \<and> sort declaredKBs = sort (previousKBsOf s0 (normalizePath h (path file)))
      then (Inr (), s0\<lparr>syncState := AList.map_entry (normalizePath h (path file)) sort (syncState s0)\<rparr>)
      else uploadAndAttach h file (normalizePath h (path file)) lm content hash
             (lastModified r \<noteq> lm \<and> contentHash r \<noteq> hash)
             (sort declaredKBs) (sort (previousKBsOf s0 (normalizePath h (path file))))
             (if lastModified r \<noteq> lm \<and> contentHash r \<noteq> hash then s2
              else removeFromOldKBs h (normalizePath h (path file))
                     (filter (\<lambda>kb. kb \<notin> set (sort declaredKBs))
                        (sort (previousKBsOf s0 (normalizePath h (path file)))))
                     (s0\<lparr>syncState := AList.map_entry (normalizePath h (path file)) sort (syncState s0)\<rparr>)))"
proof -
  define p where "p = normalizePath h (path file)"
  have prev: "(case map_of (syncState s0) p of None \<Rightarrow> [] | Some kbs \<Rightarrow> sort kbs)
      = sort (previousKBsOf s0 p)"
    by (simp add: previousKBsOf_def split: option.splits)
  from assms(2,4) have ok: "u = Inr ()"
    by (auto simp: removeFileFromAllKnowledgeBases_def)
  show ?thesis
  proof (cases "lastModified r \<noteq> lm \<and> contentHash r \<noteq> hash")
    case True
    with assms ok prev show ?thesis
      unfolding p_def [symmetric]
      by (simp add: syncFileWithStateTracking_def p_def [symmetric] Let_def del: set_sort)
  next
    case False
    with assms ok prev show ?thesis
      unfolding p_def [symmetric]
      by (auto simp: syncFileWithStateTracking_def p_def [symmetric] Let_def simp del: set_sort)
  qed
qed

lemma detachedOnly_record:
  assumes "detachedOnly p names s s'" "map_of (fileMapping s) p = Some r"
  shows "\<exists>kbs. map_of (fileMapping s') p = Some (r\<lparr>knowledgeBases := kbs\<rparr>)
           \<and> set kbs \<subseteq> set (knowledgeBases r) \<and> set (knowledgeBases r) - names \<subseteq> set kbs"
proof -
  from assms obtain r' where "map_of (fileMapping s') p = Some r'"
    and "r' = r\<lparr>knowledgeBases := knowledgeBases r'\<rparr>"
    and "set (knowledgeBases r') \<subseteq> set (knowledgeBases r)"
    and "set (knowledgeBases r) - names \<subseteq> set (knowledgeBases r')"
    by (cases "map_of (fileMapping s') p") (auto simp: detachedOnly_def)
  then show ?thesis by metis
qed

lemma no_upload_among_removals:
  "list_all isRemovalRequest extra \<Longrightarrow> FileUpload filename content \<notin> set extra"
  by (auto simp: list_all_iff isRemovalRequest_def)

lemma detach_is_removal: "isDetachRequest q \<Longrightarrow> isRemovalRequest q"
  by (cases q) (simp_all add: isDetachRequest_def isRemovalRequest_def)

lemma fingerprintFile_same_within_limit:
  assumes "fingerprintOf h file = Inr (contentHash r)" "withinSizeLimit h file config"
  shows "\<exists>content content1. fingerprintFile h file config (Some r) lm = Inr (content, contentHash r)
           \<and> (if content = [] then readProcessed h file else Inr content) = Inr content1"
proof -
  from assms(1) obtain raw where raw: "vaultRead h (path file) = Inr raw"
    and hash: "generateContentHash (processObsidianLinks (encodeURIComponent h) raw (vaultName h))
                 = contentHash r"
    by (auto simp: fingerprintOf_def readProcessed_def split: sum.splits)
  let ?c = "processObsidianLinks (encodeURIComponent h) raw (vaultName h)"
  from raw have rp: "readProcessed h file = Inr ?c"
    by (simp add: readProcessed_def)
  show ?thesis
  proof (cases "lastModified r \<noteq> lm")
    case True
    with raw hash assms(2) have "fingerprintFile h file config (Some r) lm = Inr (?c, contentHash r)"
      by (auto simp: fingerprintFile_def withinSizeLimit_def Let_def split: option.splits)
    with rp show ?thesis by auto
  next
    case False
    then have "fingerprintFile h file config (Some r) lm = Inr ([], contentHash r)"
      by (simp add: fingerprintFile_def)
    with rp show ?thesis by auto
  qed
qed

lemma uploadFile_accepted:
  assumes "uploadAccepted newId (respond h (requests s) (FileUpload filename content))"
  shows "uploadFile h filename content s
           = (Inr newId, s\<lparr>requests := requests s @ [FileUpload filename content]\<rparr>)"
  using assms by (auto simp: uploadFile_def uploadAccepted_def split: http.splits)

lemma countSynced_remoteOnly_fileMapping [simp]:
  "fileMapping (countSynced s) = fileMapping s" "syncState (countSynced s) = syncState s"
  by (simp_all add: countSynced_def)

lemma addToKnowledgeBases_effect:
  "addToKnowledgeBases h kbs newRecord s = (nr, s') \<Longrightarrow>
     nr = newRecord\<lparr>knowledgeBases := knowledgeBases nr\<rparr>
     \<and> set (knowledgeBases nr) \<subseteq> set (knowledgeBases newRecord) \<union> set kbs
     \<and> fileMapping s' = fileMapping s \<and> syncState s' = syncState s"
proof (induction kbs arbitrary: newRecord s)
  case Nil
  then show ?case by simp
next
  case (Cons kbName rest)
  obtain res s1 where g: "getOrCreateKnowledgeBase h kbName s = (res, s1)"
    by (cases "getOrCreateKnowledgeBase h kbName s")
  then have "remoteOnly s s1" by (rule getOrCreateKnowledgeBase_remoteOnly)
  then have one: "fileMapping s1 = fileMapping s" "syncState s1 = syncState s"
    by (simp_all add: remoteOnly_def)
  show ?case
  proof (cases res)
    case (Inl e)
    with g Cons.prems have "addToKnowledgeBases h rest newRecord s1 = (nr, s')" by simp
    from Cons.IH [OF this] one show ?thesis by auto
  next
    case (Inr kbId)
    obtain r2 s2 where a: "addFileToKnowledgeBase h kbId (fileId newRecord) s1 = (r2, s2)"
      by (cases "addFileToKnowledgeBase h kbId (fileId newRecord) s1")
    then have "remoteOnly s1 s2" by (rule addFileToKnowledgeBase_remoteOnly)
    with one have two: "fileMapping s2 = fileMapping s" "syncState s2 = syncState s"
      by (simp_all add: remoteOnly_def)
    show ?thesis
    proof (cases r2)
      case (Inl e)
      with g \<open>res = Inr kbId\<close> a Cons.prems have "addToKnowledgeBases h rest newRecord s2 = (nr, s')"
        by simp
      from Cons.IH [OF this] two show ?thesis by auto
    next
      case (Inr u)
      define added where "added = (if kbName \<in> set (knowledgeBases newRecord) then newRecord
          else newRecord\<lparr>knowledgeBases := knowledgeBases newRecord @ [kbName]\<rparr>)"
      from g \<open>res = Inr kbId\<close> a Inr Cons.prems
      have "addToKnowledgeBases h rest added (countSynced s2) = (nr, s')"
        by (simp add: added_def)
      from Cons.IH [OF this] have "nr = added\<lparr>knowledgeBases := knowledgeBases nr\<rparr>"
        and "set (knowledgeBases nr) \<subseteq> set (knowledgeBases added) \<union> set rest"
        and "fileMapping s' = fileMapping (countSynced s2)" "syncState s' = syncState (countSynced s2)"
        by simp_all
      moreover have "added\<lparr>knowledgeBases := x\<rparr> = newRecord\<lparr>knowledgeBases := x\<rparr>" for x
        by (simp add: added_def)
      moreover have "set (knowledgeBases added) \<subseteq> set (knowledgeBases newRecord) \<union> {kbName}"
        by (auto simp: added_def)
      ultimately show ?thesis using two by auto
    qed
  qed
qed

lemma uploadAndAttach_accepted:
  assumes "\<not> set currentKBs \<subseteq> set previousKBs"
    and "(if content = [] then readProcessed h file else Inr content) = Inr content1"
    and "\<And>history filename content. uploadAccepted newId (respond h history (FileUpload filename content))"
  shows "\<exists>kbs s'. uploadAndAttach h file p lm content hash False currentKBs previousKBs s = (Inr (), s')
           \<and> map_of (fileMapping s') p
               = Some \<lparr>fileId = newId, uploadedFilename = generateStableFilename (name file) hash,
                       contentHash = hash, lastModified = lm, knowledgeBases = kbs\<rparr>
           \<and> set kbs \<subseteq> set currentKBs - set previousKBs
           \<and> previousKBsOf s' p = currentKBs"
proof -
  from assms(1) have need: "filter (\<lambda>kb. kb \<notin> set previousKBs) currentKBs \<noteq> []"
    by (auto simp: filter_empty_conv)
  let ?fn = "generateStableFilename (name file) hash"
  let ?s1 = "s\<lparr>requests := requests s @ [FileUpload ?fn content1]\<rparr>"
  let ?new = "\<lparr>fileId = newId, uploadedFilename = ?fn,
                contentHash = hash, lastModified = lm, knowledgeBases = []\<rparr>"
  let ?targets = "filter (\<lambda>kb. kb \<notin> set previousKBs) currentKBs"
  have u: "uploadFile h ?fn content1 s = (Inr newId, ?s1)"
    using assms(3) by (rule uploadFile_accepted)
  obtain nr s2 where a: "addToKnowledgeBases h ?targets ?new ?s1 = (nr, s2)"
    by (cases "addToKnowledgeBases h ?targets ?new ?s1")
  from addToKnowledgeBases_effect [OF this]
  have nr: "nr = ?new\<lparr>knowledgeBases := knowledgeBases nr\<rparr>"
    and sub: "set (knowledgeBases nr) \<subseteq> set ?targets"
    by simp_all
  from need assms(2) u a
  have res: "uploadAndAttach h file p lm content hash False currentKBs previousKBs s
      = (Inr (), updateState p currentKBs nr s2)"
    by (simp add: uploadAndAttach_def Let_def)
  have "map_of (fileMapping (updateState p currentKBs nr s2)) p = Some nr"
    by (simp add: updateState_def AList.update_conv')
  moreover have "previousKBsOf (updateState p currentKBs nr s2) p = currentKBs"
    by (simp add: updateState_def previousKBsOf_def AList.update_conv')
  moreover from nr have "nr = \<lparr>fileId = newId, uploadedFilename = ?fn,
      contentHash = hash, lastModified = lm, knowledgeBases = knowledgeBases nr\<rparr>"
    by simp
  moreover from sub have "set (knowledgeBases nr) \<subseteq> set currentKBs - set previousKBs" by auto
  ultimately show ?thesis using res by metis
qed

lemmas run_defs =
  syncFileWithStateTracking_def readLastModified_def fingerprintFile_def uploadAndAttach_def
  updateState_def readProcessed_def uploadFile_def addFileToKnowledgeBase_def
  getOrCreateKnowledgeBase_def findKnowledgeBaseByName_def lookupKnowledgeBase_def
  makeApiRequest_def removeFileFromKnowledgeBase_def removeFileFromAllKnowledgeBases_def
  deleteFileFromOpenWebUI_def dropKnowledgeBase_def countSynced_def DateNow_def truthy_def
  KB_CACHE_TTL_def processObsidianLinks_def replaceLinks_without_brackets
  generateStableFilename_def extensionOf_def sanitize_def isTokenChar_def
  loadedPlugin_def desktopHost_def Let_def

section \<open>Properties of an unchanged document\<close>

text \<open>
  One document: with a record whose fingerprint is the file's and with the declared
  names equal, as a set, to the names persisted for the path, nothing is sent.
\<close>

lemma unchanged_document_effect:
  assumes "map_of (fileMapping s) (normalizePath h (path file)) = Some r"
    and "fingerprintOf h file = Inr (contentHash r)"
    and "set declaredKBs = set (previousKBsOf s (normalizePath h (path file)))"
  shows "requests (snd (syncFileWithStateTracking h file declaredKBs config s)) = requests s
       \<and> fileMapping (snd (syncFileWithStateTracking h file declaredKBs config s)) = fileMapping s
       \<and> kbCache (snd (syncFileWithStateTracking h file declaredKBs config s)) = kbCache s
       \<and> (\<forall>q. set (previousKBsOf (snd (syncFileWithStateTracking h file declaredKBs config s)) q)
                = set (previousKBsOf s q))"
proof -
  define p where "p = normalizePath h (path file)"
  obtain lm s0 where lm: "readLastModified h file s = (lm, s0)"
    by (cases "readLastModified h file s")
  then have s0: "s0 = s \<or> s0 = s\<lparr>clockReads := Suc (clockReads s)\<rparr>"
    by (rule readLastModified_state)
  then have same: "requests s0 = requests s" "fileMapping s0 = fileMapping s"
    "kbCache s0 = kbCache s" "syncState s0 = syncState s"
    by auto
  then have prev0: "previousKBsOf s0 q = previousKBsOf s q" for q
    by (simp add: previousKBsOf_def)
  from assms(1) same have rec0: "map_of (fileMapping s0) p = Some r"
    by (simp add: p_def)
  let ?s1 = "s0\<lparr>syncState := AList.map_entry p sort (syncState s0)\<rparr>"
  let ?prev = "case map_of (syncState s0) p of None \<Rightarrow> [] | Some kbs \<Rightarrow> sort kbs"
  have prev_set: "set ?prev = set declaredKBs"
    using assms(3) same by (simp add: previousKBsOf_def p_def split: option.splits)
  have s1_prev: "set (previousKBsOf ?s1 q) = set (previousKBsOf s q)" for q
    using previousKBsOf_sorted [where s = s0 and p = p and q = q] prev0 by simp
  consider e where "fingerprintFile h file config (Some r) lm = Inl e"
    | content where "fingerprintFile h file config (Some r) lm = Inr (content, contentHash r)"
    using fingerprintFile_same [OF assms(2)] by blast
  then show ?thesis
  proof cases
    case 1
    then have "syncFileWithStateTracking h file declaredKBs config s = (Inl e, s0)"
      using lm rec0 by (simp add: syncFileWithStateTracking_def p_def [symmetric])
    with same prev0 show ?thesis by simp
  next
    case 2
    show ?thesis
    proof (cases "sort declaredKBs = ?prev")
      case True
      with 2 lm rec0 have "syncFileWithStateTracking h file declaredKBs config s = (Inr (), ?s1)"
        by (simp add: syncFileWithStateTracking_def p_def [symmetric] Let_def)
      with same s1_prev show ?thesis by simp
    next
      case False
      have none: "filter (\<lambda>kb. kb \<notin> set (sort declaredKBs)) ?prev = []"
        using prev_set by (auto simp: filter_empty_conv)
      have "uploadAndAttach h file p lm content (contentHash r) False (sort declaredKBs) ?prev ?s1
          = (Inr (), ?s1\<lparr>syncState := AList.update p (sort declaredKBs) (syncState ?s1)\<rparr>)"
        using rec0 prev_set by (intro uploadAndAttach_nothing_to_add) simp_all
      with 2 lm rec0 False none
      have res: "syncFileWithStateTracking h file declaredKBs config s
          = (Inr (), ?s1\<lparr>syncState := AList.update p (sort declaredKBs) (syncState ?s1)\<rparr>)"
        by (simp add: syncFileWithStateTracking_def p_def [symmetric] Let_def)
      have "set (previousKBsOf (?s1\<lparr>syncState := AList.update p (sort declaredKBs) (syncState ?s1)\<rparr>) q)
          = set (previousKBsOf s q)" for q
        using previousKBsOf_updated [where s = ?s1 and p = p and kbs = "sort declaredKBs" and q = q]
          s1_prev [of q] assms(3)
        by (simp add: p_def)
      with res same show ?thesis by simp
    qed
  qed
qed

lemma cleanupLoop_nothing_deleted:
  "list_all (stillTagged h fileGroups) ps \<Longrightarrow> cleanupLoop h ps s = s"
  by (induction ps) (simp_all add: stillTagged_def)

lemma untaggedLoop_nothing_untagged:
  "list_all (stillTagged h fileGroups) ps \<Longrightarrow> untaggedLoop h fileGroups ps s = s"
  by (induction ps) (simp_all add: stillTagged_def)

lemma Notice_fields [simp]:
  "requests (Notice m s) = requests s" "fileMapping (Notice m s) = fileMapping s"
  "syncState (Notice m s) = syncState s" "kbCache (Notice m s) = kbCache s"
  by (simp_all add: Notice_def)

lemma previousKBsOf_Notice [simp]: "previousKBsOf (Notice m s) q = previousKBsOf s q"
  by (simp add: previousKBsOf_def)

lemma upToDate_cong:
  assumes "fileMapping s' = fileMapping s" "\<And>q. set (previousKBsOf s' q) = set (previousKBsOf s q)"
  shows "upToDate h s' p kbs = upToDate h s p kbs"
  using assms by (simp add: upToDate_def split: option.splits)

lemma shouldAllowSync_settings:
  assumes "shouldAllowSync h s = (answer, s1)"
  shows "requests s1 = requests s" "fileMapping s1 = fileMapping s" "syncState s1 = syncState s"
  using assms
  by (auto simp: shouldAllowSync_def DateNow_def Notice_def
      split: connection.splits networkBehavior.splits if_splits)

text \<open>
  Claim C1, one document. A file that has a record with the file's fingerprint and that
  declares, as a set, the names persisted for it in \<open>syncState\<close> at its last
  reconciliation is reconciled without a request, and \<open>fileMapping\<close>, the cache and,
  as sets, the names persisted for every path stay as they were.
\<close>

theorem unchanged_documents_send_nothing:
  "map_of (fileMapping s) (normalizePath h (path file)) = Some r
      \<and> fingerprintOf h file = Inr (contentHash r)
      \<and> set declaredKBs = set (previousKBsOf s (normalizePath h (path file)))
    \<longrightarrow> requests (snd (syncFileWithStateTracking h file declaredKBs config s)) = requests s
       \<and> fileMapping (snd (syncFileWithStateTracking h file declaredKBs config s)) = fileMapping s
       \<and> kbCache (snd (syncFileWithStateTracking h file declaredKBs config s)) = kbCache s
       \<and> (\<forall>q. set (previousKBsOf (snd (syncFileWithStateTracking h file declaredKBs config s)) q)
                = set (previousKBsOf s q))"
  using unchanged_document_effect
  by blast

theorem unchanged_documents_send_nothing_witness:
  "map_of (fileMapping trackedPlugin) ''note.md''
     = Some \<lparr>fileId = ''file-1'', uploadedFilename = ''note_3d5d78d3.md'', contentHash = ''3d5d78d3'',
             lastModified = 1700000000000, knowledgeBases = [''Team'']\<rparr>
   \<and> fingerprintOf (desktopHost officeRemote [noteFile] [(''note.md'', ''Minutes #kb/team'')]) noteFile
     = Inr ''3d5d78d3''
   \<and> set [''Team''] = set (previousKBsOf trackedPlugin ''note.md'')
   \<and> requests (snd (syncFileWithStateTracking
        (desktopHost officeRemote [noteFile] [(''note.md'', ''Minutes #kb/team'')])
        noteFile [''Team''] None trackedPlugin)) = []"
proof -
  let ?h = "desktopHost officeRemote [noteFile] [(''note.md'', ''Minutes #kb/team'')]"
  let ?r = "\<lparr>fileId = ''file-1'', uploadedFilename = ''note_3d5d78d3.md'', contentHash = ''3d5d78d3'',
             lastModified = 1700000000000, knowledgeBases = [''Team'']\<rparr>"
  have q: "normalizePath ?h (path noteFile) = ''note.md''" "requests trackedPlugin = []"
    by (simp_all add: desktopHost_def noteFile_def trackedPlugin_def loadedPlugin_def)
  have r: "map_of (fileMapping trackedPlugin) ''note.md'' = Some ?r"
    by (simp add: trackedPlugin_def loadedPlugin_def)
  have f: "fingerprintOf ?h noteFile = Inr ''3d5d78d3''"
    by (simp add: fingerprintOf_def readProcessed_def processObsidianLinks_def
        replaceLinks_without_brackets generateContentHash_def toInt32_def toStringRadix.simps
        digitChar_def desktopHost_def noteFile_def)
  have k: "set [''Team''] = set (previousKBsOf trackedPlugin ''note.md'')"
    by (simp add: previousKBsOf_def trackedPlugin_def loadedPlugin_def)
  show ?thesis
    using unchanged_documents_send_nothing [of trackedPlugin ?h noteFile ?r "[''Team'']" None]
      r f k
    by (simp add: q)
qed

section \<open>Properties of a membership change\<close>

text \<open>
  A membership change with the same content. The file has a record whose fingerprint is
  the file's, the file is within the size limit, and the declared names differ from the
  names persisted for it. If no name was added, the reconciliation completes, sends only
  list and remove requests, keeps the record with its remote id and fingerprint, drops
  from its memberships at most names that are no longer declared, and persists the
  declared names. If a name was added, it sends an upload of the file under its stable
  name; and when the remote service accepts uploads, the reconciliation completes with a
  new record under the path: the remote id of the new upload, the same stable name and
  fingerprint, and memberships among the added names.
\<close>

lemma membership_change_with_same_content:
  assumes "map_of (fileMapping s) (normalizePath h (path file)) = Some r"
    and "fingerprintOf h file = Inr (contentHash r)"
    and "withinSizeLimit h file config"
    and "sort declaredKBs \<noteq> sort (previousKBsOf s (normalizePath h (path file)))"
  shows "(set declaredKBs \<subseteq> set (previousKBsOf s (normalizePath h (path file)))
          \<longrightarrow> fst (syncFileWithStateTracking h file declaredKBs config s) = Inr ()
             \<and> list_all isDetachRequest
                  (drop (length (requests s))
                     (requests (snd (syncFileWithStateTracking h file declaredKBs config s))))
             \<and> (\<exists>kbs. map_of (fileMapping (snd (syncFileWithStateTracking h file declaredKBs config s)))
                         (normalizePath h (path file)) = Some (r\<lparr>knowledgeBases := kbs\<rparr>)
                      \<and> set kbs \<subseteq> set (knowledgeBases r)
                      \<and> set (knowledgeBases r) \<inter> set declaredKBs \<subseteq> set kbs)
             \<and> previousKBsOf (snd (syncFileWithStateTracking h file declaredKBs config s))
                  (normalizePath h (path file)) = sort declaredKBs)
       \<and> (\<not> set declaredKBs \<subseteq> set (previousKBsOf s (normalizePath h (path file)))
          \<longrightarrow> (\<exists>content. FileUpload (generateStableFilename (name file) (contentHash r)) content
                  \<in> set (drop (length (requests s))
                       (requests (snd (syncFileWithStateTracking h file declaredKBs config s))))))
       \<and> (\<not> set declaredKBs \<subseteq> set (previousKBsOf s (normalizePath h (path file)))
            \<and> (\<forall>history filename content.
                  uploadAccepted newId (respond h history (FileUpload filename content)))
          \<longrightarrow> (\<exists>lm kbs. fst (syncFileWithStateTracking h file declaredKBs config s) = Inr ()
                  \<and> map_of (fileMapping (snd (syncFileWithStateTracking h file declaredKBs config s)))
                       (normalizePath h (path file))
                     = Some \<lparr>fileId = newId,
                             uploadedFilename = generateStableFilename (name file) (contentHash r),
                             contentHash = contentHash r, lastModified = lm, knowledgeBases = kbs\<rparr>
                  \<and> set kbs \<subseteq> set declaredKBs - set (previousKBsOf s (normalizePath h (path file)))
                  \<and> previousKBsOf (snd (syncFileWithStateTracking h file declaredKBs config s))
                       (normalizePath h (path file)) = sort declaredKBs))"
proof -
  define p where "p = normalizePath h (path file)"
  define result where "result = syncFileWithStateTracking h file declaredKBs config s"
  obtain lm s0 where lm: "readLastModified h file s = (lm, s0)"
    by (cases "readLastModified h file s")
  then have "s0 = s \<or> s0 = s\<lparr>clockReads := Suc (clockReads s)\<rparr>"
    by (rule readLastModified_state)
  then have same: "requests s0 = requests s" "fileMapping s0 = fileMapping s"
    "syncState s0 = syncState s"
    by auto
  then have prev0: "previousKBsOf s0 q = previousKBsOf s q" for q
    by (simp add: previousKBsOf_def)
  from assms(1) same have rec0: "map_of (fileMapping s0) p = Some r"
    by (simp add: p_def)
  define s1 where "s1 = s0\<lparr>syncState := AList.map_entry p sort (syncState s0)\<rparr>"
  have s1: "requests s1 = requests s" "map_of (fileMapping s1) p = Some r"
    using same rec0 by (simp_all add: s1_def)
  obtain content content1
    where fp: "fingerprintFile h file config (Some r) lm = Inr (content, contentHash r)"
      and readable: "(if content = [] then readProcessed h file else Inr content) = Inr content1"
    using fingerprintFile_same_within_limit [OF assms(2,3)] by blast
  obtain u s2 where ra: "removeFileFromAllKnowledgeBases h p s1 = (u, s2)"
    by (cases "removeFileFromAllKnowledgeBases h p s1")
  define cur where "cur = sort declaredKBs"
  define prev where "prev = sort (previousKBsOf s0 p)"
  define s3 where "s3 = removeFromOldKBs h p (filter (\<lambda>kb. kb \<notin> set cur) prev) s1"
  have e3: "detachedOnly p (set prev - set cur) s1 s3" "sends isDetachRequest s1 s3"
    using removeFromOldKBs_effect [of "filter (\<lambda>kb. kb \<notin> set cur) prev" "set prev - set cur" p s1 h]
    by (auto simp: s3_def)
  from assms(4) have differ: "cur \<noteq> prev"
    by (simp add: cur_def prev_def prev0 p_def)
  have "result = uploadAndAttach h file p lm content (contentHash r) False cur prev s3"
    using syncFile_with_record [OF lm rec0 [unfolded p_def] fp ra [unfolded s1_def p_def], of declaredKBs]
      differ
    by (simp add: result_def p_def s1_def cur_def prev_def s3_def)
  then have unfolded: "result = uploadAndAttach h file p lm content (contentHash r) False cur prev s3" .
  have sets: "set cur = set declaredKBs" "set prev = set (previousKBsOf s p)"
    by (simp_all add: cur_def prev_def prev0)
  from e3(2) s1(1) obtain extra where extra: "requests s3 = requests s @ extra"
    and detach: "list_all isDetachRequest extra"
    by (auto simp: sends_def)
  show ?thesis
    unfolding p_def [symmetric] result_def [symmetric]
  proof (intro conjI impI)
    assume sub: "set declaredKBs \<subseteq> set (previousKBsOf s p)"
    from e3(1) s1(2) obtain kbs where kbs: "map_of (fileMapping s3) p = Some (r\<lparr>knowledgeBases := kbs\<rparr>)"
      "set kbs \<subseteq> set (knowledgeBases r)" "set (knowledgeBases r) - (set prev - set cur) \<subseteq> set kbs"
      using detachedOnly_record by blast
    from sub sets have "set cur \<subseteq> set prev" by simp
    then have res: "result = (Inr (), s3\<lparr>syncState := AList.update p cur (syncState s3)\<rparr>)"
      using unfolded kbs(1) uploadAndAttach_nothing_to_add [of False cur prev s3 p] by simp
    from res show "fst result = Inr ()" by simp
    from res extra detach show "list_all isDetachRequest (drop (length (requests s)) (requests (snd result)))"
      by simp
    from kbs(3) sets have "set (knowledgeBases r) \<inter> set declaredKBs \<subseteq> set kbs" by auto
    with res kbs(1,2) show "\<exists>kbs. map_of (fileMapping (snd result)) p = Some (r\<lparr>knowledgeBases := kbs\<rparr>)
        \<and> set kbs \<subseteq> set (knowledgeBases r) \<and> set (knowledgeBases r) \<inter> set declaredKBs \<subseteq> set kbs"
      by auto
    from res show "previousKBsOf (snd result) p = sort declaredKBs"
      by (simp add: previousKBsOf_def AList.update_conv' cur_def)
  next
    assume "\<not> set declaredKBs \<subseteq> set (previousKBsOf s p)"
    with sets have need: "False \<or> \<not> set cur \<subseteq> set prev" by simp
    have "FileUpload (generateStableFilename (name file) (contentHash r)) content1
        \<in> set (drop (length (requests s3)) (requests (snd result)))"
      unfolding unfolded using need readable by (rule uploadAndAttach_uploads)
    moreover from extra have "length (requests s) \<le> length (requests s3)" by simp
    then have "set (drop (length (requests s3)) (requests (snd result)))
        \<subseteq> set (drop (length (requests s)) (requests (snd result)))"
      by (rule set_drop_subset_set_drop)
    ultimately show "\<exists>content. FileUpload (generateStableFilename (name file) (contentHash r)) content
        \<in> set (drop (length (requests s)) (requests (snd result)))"
      by blast
  next
    assume b: "\<not> set declaredKBs \<subseteq> set (previousKBsOf s p)
      \<and> (\<forall>history filename content.
            uploadAccepted newId (respond h history (FileUpload filename content)))"
    with sets have nsub: "\<not> set cur \<subseteq> set prev" by simp
    from b have acc: "uploadAccepted newId (respond h history (FileUpload filename content))"
      for history filename content
      by blast
    obtain kbs s4 where "uploadAndAttach h file p lm content (contentHash r) False cur prev s3 = (Inr (), s4)"
      and "map_of (fileMapping s4) p
            = Some \<lparr>fileId = newId, uploadedFilename = generateStableFilename (name file) (contentHash r),
                    contentHash = contentHash r, lastModified = lm, knowledgeBases = kbs\<rparr>"
      and "set kbs \<subseteq> set cur - set prev" and "previousKBsOf s4 p = cur"
      using uploadAndAttach_accepted [OF nsub readable acc] by metis
    with unfolded sets show "\<exists>lm kbs. fst result = Inr ()
        \<and> map_of (fileMapping (snd result)) p
            = Some \<lparr>fileId = newId, uploadedFilename = generateStableFilename (name file) (contentHash r),
                    contentHash = contentHash r, lastModified = lm, knowledgeBases = kbs\<rparr>
        \<and> set kbs \<subseteq> set declaredKBs - set (previousKBsOf s p)
        \<and> previousKBsOf (snd result) p = sort declaredKBs"
      by (auto simp: cur_def)
  qed
qed

lemma afterNotesAdded_fields:
  "requests afterNotesAdded
     = [ListKnowledge, FileRemove ''kb-2'' ''file-1'',
        FileUpload ''note_56595de1.md'' ''Minutes #kb/team #kb/notes'',
        ListKnowledge, CreateKnowledge ''Notes'', FileAdd ''kb-3'' ''file-2'']"
  "fileMapping afterNotesAdded
     = [(''note.md'', \<lparr>fileId = ''file-2'', uploadedFilename = ''note_56595de1.md'',
           contentHash = ''56595de1'', lastModified = 1700000000000, knowledgeBases = [''Notes'']\<rparr>)]"
  "syncState afterNotesAdded = [(''note.md'', [''Notes'', ''Team''])]"
  "kbCache afterNotesAdded ''Team'' = Some (''kb-1'', 2000)"
  "clockReads afterNotesAdded = 5"
  "openwebuiUrl afterNotesAdded = ''http://localhost:3000''"
  "apiToken afterNotesAdded = ''token''"
  by (simp_all add: afterNotesAdded_def officeHost_def run_defs officeRemote_def officePlugin_def noteFile_def)

text \<open>
  Claim C2, as the code has it. The note is attached to \<^verbatim>\<open>Archive\<close> and \<^verbatim>\<open>Team\<close>
  under the remote id \<^verbatim>\<open>file-1\<close>; with the same content it now declares \<^verbatim>\<open>Team\<close>
  and \<^verbatim>\<open>Notes\<close>. The reconciliation detaches \<^verbatim>\<open>file-1\<close> from \<^verbatim>\<open>Archive\<close>,
  then uploads the note again and attaches the new upload \<^verbatim>\<open>file-2\<close> to
  \<^verbatim>\<open>Notes\<close> alone. The record that replaces the old one has the id \<^verbatim>\<open>file-2\<close>
  and the membership \<^verbatim>\<open>Notes\<close>; \<^verbatim>\<open>file-1\<close> stays attached to \<^verbatim>\<open>Team\<close> and is
  no longer tracked, \<^verbatim>\<open>file-2\<close> is not attached to \<^verbatim>\<open>Team\<close>. The names persisted
  are the declared ones, so a second reconciliation sends nothing; and when the note no
  longer declares \<^verbatim>\<open>Team\<close>, the remove request names \<^verbatim>\<open>file-2\<close>, which was never
  attached there.
\<close>

theorem added_membership_uploads_again:
  "fst (syncFileWithStateTracking officeHost noteFile [''Team'', ''Notes''] None officePlugin) = Inr ()
   \<and> requests afterNotesAdded
       = [ListKnowledge, FileRemove ''kb-2'' ''file-1'',
          FileUpload ''note_56595de1.md'' ''Minutes #kb/team #kb/notes'',
          ListKnowledge, CreateKnowledge ''Notes'', FileAdd ''kb-3'' ''file-2'']
   \<and> map_of (fileMapping afterNotesAdded) ''note.md''
       = Some \<lparr>fileId = ''file-2'', uploadedFilename = ''note_56595de1.md'', contentHash = ''56595de1'',
               lastModified = 1700000000000, knowledgeBases = [''Notes'']\<rparr>
   \<and> previousKBsOf afterNotesAdded ''note.md'' = [''Notes'', ''Team'']
   \<and> requests (snd (syncFileWithStateTracking officeHost noteFile [''Team'', ''Notes''] None afterNotesAdded))
       = requests afterNotesAdded
   \<and> requests (snd (syncFileWithStateTracking officeHost noteFile [''Notes''] None afterNotesAdded))
       = requests afterNotesAdded @ [FileRemove ''kb-1'' ''file-2'']"
proof -
  have first: "fst (syncFileWithStateTracking officeHost noteFile [''Team'', ''Notes''] None officePlugin) = Inr ()"
    by (simp add: officeHost_def run_defs officeRemote_def officePlugin_def noteFile_def)
  have again: "requests (snd (syncFileWithStateTracking officeHost noteFile [''Team'', ''Notes''] None afterNotesAdded))
       = requests afterNotesAdded"
    by (simp add: afterNotesAdded_fields syncFileWithStateTracking_def readLastModified_def
        fingerprintFile_def noteFile_def officeHost_def desktopHost_def Let_def)
  have untag: "requests (snd (syncFileWithStateTracking officeHost noteFile [''Notes''] None afterNotesAdded))
       = requests afterNotesAdded @ [FileRemove ''kb-1'' ''file-2'']"
    by (simp add: afterNotesAdded_fields syncFileWithStateTracking_def readLastModified_def
        fingerprintFile_def uploadAndAttach_def updateState_def removeFileFromKnowledgeBase_def
        findKnowledgeBaseByName_def makeApiRequest_def dropKnowledgeBase_def countSynced_def
        DateNow_def truthy_def KB_CACHE_TTL_def noteFile_def officeHost_def desktopHost_def
        officeRemote_def Let_def)
  show ?thesis
    using first again untag by (simp add: afterNotesAdded_fields previousKBsOf_def)
qed

section \<open>Properties of a failed upload\<close>

text \<open>
  Claim C3, as the code has it. The file has a record and the remote service refuses
  every upload. If \<^verbatim>\<open>syncFileWithStateTracking\<close> sends an upload request, it raises;
  and whenever it raises, the record still has its remote id, uploaded name, fingerprint
  and modification time, its memberships are among the ones it had, and the names
  persisted in \<open>syncState\<close> are, as sets, what they were.
\<close>

theorem refused_upload_keeps_record:
  assumes "map_of (fileMapping s) (normalizePath h (path file)) = Some r"
    and "\<And>history filename content. uploadRefused (respond h history (FileUpload filename content))"
  shows "((\<exists>filename content. FileUpload filename content
             \<in> set (drop (length (requests s))
                  (requests (snd (syncFileWithStateTracking h file declaredKBs config s)))))
          \<longrightarrow> isl (fst (syncFileWithStateTracking h file declaredKBs config s)))
       \<and> (isl (fst (syncFileWithStateTracking h file declaredKBs config s))
          \<longrightarrow> (\<exists>kbs. map_of (fileMapping (snd (syncFileWithStateTracking h file declaredKBs config s)))
                        (normalizePath h (path file)) = Some (r\<lparr>knowledgeBases := kbs\<rparr>)
                     \<and> set kbs \<subseteq> set (knowledgeBases r))
             \<and> (\<forall>q. set (previousKBsOf (snd (syncFileWithStateTracking h file declaredKBs config s)) q)
                      = set (previousKBsOf s q)))"
proof -
  define p where "p = normalizePath h (path file)"
  define result where "result = syncFileWithStateTracking h file declaredKBs config s"
  obtain lm s0 where lm: "readLastModified h file s = (lm, s0)"
    by (cases "readLastModified h file s")
  then have "s0 = s \<or> s0 = s\<lparr>clockReads := Suc (clockReads s)\<rparr>"
    by (rule readLastModified_state)
  then have same: "requests s0 = requests s" "fileMapping s0 = fileMapping s"
    "syncState s0 = syncState s"
    by auto
  then have prev0: "previousKBsOf s0 q = previousKBsOf s q" for q
    by (simp add: previousKBsOf_def)
  from assms(1) same have rec0: "map_of (fileMapping s0) p = Some r"
    by (simp add: p_def)
  define s1 where "s1 = s0\<lparr>syncState := AList.map_entry p sort (syncState s0)\<rparr>"
  have s1: "requests s1 = requests s" "map_of (fileMapping s1) p = Some r"
    using same rec0 by (simp_all add: s1_def)
  have s1_prev: "set (previousKBsOf s1 q) = set (previousKBsOf s q)" for q
    using previousKBsOf_sorted [where s = s0 and p = p and q = q] prev0 by (simp add: s1_def)
  have keep_r: "map_of (fileMapping s) p = Some (r\<lparr>knowledgeBases := knowledgeBases r\<rparr>)"
    using assms(1) by (simp add: p_def)
  \<comment> \<open>what a state reached by detaching only, and then by a refused upload, looks like\<close>
  have refused: "isl (fst result)
        \<and> (\<exists>kbs. map_of (fileMapping (snd result)) p = Some (r\<lparr>knowledgeBases := kbs\<rparr>)
                   \<and> set kbs \<subseteq> set (knowledgeBases r))
        \<and> (\<forall>q. set (previousKBsOf (snd result) q) = set (previousKBsOf s q))"
    if d: "detachedOnly p names s1 s3" and res: "result = (Inl e, s4)" and ro: "remoteOnly s3 s4"
    for names s3 e s4
  proof -
    from d s1(2) obtain kbs where "map_of (fileMapping s3) p = Some (r\<lparr>knowledgeBases := kbs\<rparr>)"
      and "set kbs \<subseteq> set (knowledgeBases r)"
      using detachedOnly_record by blast
    moreover from ro have "fileMapping s4 = fileMapping s3" "syncState s4 = syncState s3"
      by (simp_all add: remoteOnly_def)
    moreover from d have "syncState s3 = syncState s1" by (simp add: detachedOnly_def)
    ultimately show ?thesis
      using res s1_prev by (auto simp: previousKBsOf_def)
  qed
  show ?thesis
    unfolding p_def [symmetric] result_def [symmetric]
  proof (cases "fingerprintFile h file config (Some r) lm")
    case (Inl e)
    then have "result = (Inl e, s0)"
      using lm rec0 by (simp add: result_def syncFileWithStateTracking_def p_def [symmetric])
    with same prev0 keep_r show "((\<exists>filename content. FileUpload filename content
             \<in> set (drop (length (requests s)) (requests (snd result)))) \<longrightarrow> isl (fst result))
       \<and> (isl (fst result)
          \<longrightarrow> (\<exists>kbs. map_of (fileMapping (snd result)) p = Some (r\<lparr>knowledgeBases := kbs\<rparr>)
                     \<and> set kbs \<subseteq> set (knowledgeBases r))
             \<and> (\<forall>q. set (previousKBsOf (snd result) q) = set (previousKBsOf s q)))"
      by (auto intro: exI [of _ "knowledgeBases r"])
  next
    case (Inr pair)
    obtain content hash where fp: "fingerprintFile h file config (Some r) lm = Inr (content, hash)"
      using Inr by (cases pair) auto
    obtain u s2 where ra: "removeFileFromAllKnowledgeBases h p s1 = (u, s2)"
      by (cases "removeFileFromAllKnowledgeBases h p s1")
    then have e2: "detachedOnly p UNIV s1 s2" "sends isRemovalRequest s1 s2"
      using removeFileFromAllKnowledgeBases_effect by blast+
    define cc where "cc = (lastModified r \<noteq> lm \<and> contentHash r \<noteq> hash)"
    define cur where "cur = sort declaredKBs"
    define prev where "prev = sort (previousKBsOf s0 p)"
    define s3 where "s3 = removeFromOldKBs h p (filter (\<lambda>kb. kb \<notin> set cur) prev) s1"
    have e3: "detachedOnly p UNIV s1 s3" "sends isRemovalRequest s1 s3"
      using removeFromOldKBs_effect [of "filter (\<lambda>kb. kb \<notin> set cur) prev" UNIV p s1 h]
      by (auto simp: s3_def elim!: sends_weaken intro: detach_is_removal)
    have unfolded: "result =
       (if \<not> cc \<and> cur = prev then (Inr (), s1)
        else uploadAndAttach h file p lm content hash cc cur prev (if cc then s2 else s3))"
      using syncFile_with_record [OF lm rec0 [unfolded p_def] fp ra [unfolded s1_def p_def], of declaredKBs]
      by (simp add: result_def p_def s1_def cc_def cur_def prev_def s3_def)
    consider (skip) "\<not> cc" "cur = prev"
      | (upload) "cc \<or> \<not> set cur \<subseteq> set prev"
      | (detach) "\<not> cc" "cur \<noteq> prev" "set cur \<subseteq> set prev"
      by blast
    then show "((\<exists>filename content. FileUpload filename content
             \<in> set (drop (length (requests s)) (requests (snd result)))) \<longrightarrow> isl (fst result))
       \<and> (isl (fst result)
          \<longrightarrow> (\<exists>kbs. map_of (fileMapping (snd result)) p = Some (r\<lparr>knowledgeBases := kbs\<rparr>)
                     \<and> set kbs \<subseteq> set (knowledgeBases r))
             \<and> (\<forall>q. set (previousKBsOf (snd result) q) = set (previousKBsOf s q)))"
    proof cases
      case skip
      with unfolded have "result = (Inr (), s1)" by simp
      with s1 show ?thesis by simp
    next
      case upload
      define s23 where "s23 = (if cc then s2 else s3)"
      have d: "detachedOnly p UNIV s1 s23"
        using e2 e3 by (simp add: s23_def)
      from upload have "cur \<noteq> prev \<or> cc" by auto
      with unfolded have "result = uploadAndAttach h file p lm content hash cc cur prev s23"
        by (auto simp: s23_def)
      then obtain e s4 where "result = (Inl e, s4)" "remoteOnly s23 s4"
        using uploadAndAttach_refused [OF upload assms(2)] by metis
      with d show ?thesis using refused by blast
    next
      case detach
      from e3(1) s1(2) obtain r3 where r3: "map_of (fileMapping s3) p = Some r3"
        using detachedOnly_record by blast
      from detach unfolded have "result = uploadAndAttach h file p lm content hash cc cur prev s3"
        by simp
      also have "\<dots> = (Inr (), s3\<lparr>syncState := AList.update p cur (syncState s3)\<rparr>)"
        using detach(1,3) r3 by (rule uploadAndAttach_nothing_to_add)
      finally have res: "result = (Inr (), s3\<lparr>syncState := AList.update p cur (syncState s3)\<rparr>)" .
      from e3(2) s1(1) have "list_all isRemovalRequest (drop (length (requests s)) (requests s3))"
        using sends_drop [of isRemovalRequest s1 s3] by simp
      then have "FileUpload filename content \<notin> set (drop (length (requests s)) (requests s3))"
        for filename content
        by (rule no_upload_among_removals)
      with res show ?thesis by simp
    qed
  qed
qed

text \<open>
  The note changed and the remote service refuses the upload: the reconciliation raises
  after the old upload was detached and deleted, and the record, which still names the
  old remote id, has lost its membership.
\<close>

theorem refused_upload_changes_memberships:
  "fst (syncFileWithStateTracking
     (desktopHost uploadDownRemote [noteFile\<lparr>mtime := 1700000005000\<rparr>]
        [(''note.md'', ''Minutes, revised #kb/team'')])
     (noteFile\<lparr>mtime := 1700000005000\<rparr>) [''Team''] None trackedPlugin)
   = Inl (Error ''Upload failed: 500 Internal Server Error'')
   \<and> map_of (fileMapping trackedPlugin) ''note.md''
   = Some \<lparr>fileId = ''file-1'', uploadedFilename = ''note_3d5d78d3.md'', contentHash = ''3d5d78d3'',
           lastModified = 1700000000000, knowledgeBases = [''Team'']\<rparr>
   \<and> map_of (fileMapping (snd (syncFileWithStateTracking
     (desktopHost uploadDownRemote [noteFile\<lparr>mtime := 1700000005000\<rparr>]
        [(''note.md'', ''Minutes, revised #kb/team'')])
     (noteFile\<lparr>mtime := 1700000005000\<rparr>) [''Team''] None trackedPlugin))) ''note.md''
   = Some \<lparr>fileId = ''file-1'', uploadedFilename = ''note_3d5d78d3.md'', contentHash = ''3d5d78d3'',
           lastModified = 1700000000000, knowledgeBases = []\<rparr>
   \<and> requests (snd (syncFileWithStateTracking
     (desktopHost uploadDownRemote [noteFile\<lparr>mtime := 1700000005000\<rparr>]
        [(''note.md'', ''Minutes, revised #kb/team'')])
     (noteFile\<lparr>mtime := 1700000005000\<rparr>) [''Team''] None trackedPlugin))
   = [ListKnowledge, FileRemove ''kb-1'' ''file-1'', FileDelete ''file-1'',
      FileUpload ''note_319625c7.md'' ''Minutes, revised #kb/team'']"
  by (simp add: run_defs removeFromEach.simps uploadDownRemote_def trackedPlugin_def noteFile_def
      generateContentHash_def toInt32_def toStringRadix.simps digitChar_def)

text \<open>The theorem on the same run.\<close>

theorem refused_upload_keeps_record_witness:
  "isl (fst (syncFileWithStateTracking
     (desktopHost uploadDownRemote [noteFile\<lparr>mtime := 1700000005000\<rparr>]
        [(''note.md'', ''Minutes, revised #kb/team'')])
     (noteFile\<lparr>mtime := 1700000005000\<rparr>) [''Team''] None trackedPlugin))
   \<and> map_option fileId (map_of (fileMapping (snd (syncFileWithStateTracking
     (desktopHost uploadDownRemote [noteFile\<lparr>mtime := 1700000005000\<rparr>]
        [(''note.md'', ''Minutes, revised #kb/team'')])
     (noteFile\<lparr>mtime := 1700000005000\<rparr>) [''Team''] None trackedPlugin))) ''note.md'')
   = Some ''file-1''"
proof -
  let ?f = "noteFile\<lparr>mtime := 1700000005000\<rparr>"
  let ?h = "desktopHost uploadDownRemote [?f] [(''note.md'', ''Minutes, revised #kb/team'')]"
  let ?r = "\<lparr>fileId = ''file-1'', uploadedFilename = ''note_3d5d78d3.md'', contentHash = ''3d5d78d3'',
             lastModified = 1700000000000, knowledgeBases = [''Team'']\<rparr>"
  have r: "map_of (fileMapping trackedPlugin) (normalizePath ?h (path ?f)) = Some ?r"
    by (simp add: trackedPlugin_def loadedPlugin_def desktopHost_def noteFile_def)
  have u: "uploadRefused (respond ?h history (FileUpload filename content))" for history filename content
    by (simp add: uploadRefused_def desktopHost_def uploadDownRemote_def)
  have sent: "FileUpload ''note_319625c7.md'' ''Minutes, revised #kb/team''
      \<in> set (drop (length (requests trackedPlugin))
           (requests (snd (syncFileWithStateTracking ?h ?f [''Team''] None trackedPlugin))))"
    by (simp add: run_defs removeFromEach.simps uploadDownRemote_def trackedPlugin_def noteFile_def
        generateContentHash_def toInt32_def toStringRadix.simps digitChar_def)
  have q: "normalizePath ?h (path ?f) = ''note.md''"
    by (simp add: desktopHost_def noteFile_def)
  from refused_upload_keeps_record [OF r u, of "[''Team'']" None] sent
  have "isl (fst (syncFileWithStateTracking ?h ?f [''Team''] None trackedPlugin))"
    and "\<exists>kbs. map_of (fileMapping (snd (syncFileWithStateTracking ?h ?f [''Team''] None trackedPlugin)))
            ''note.md'' = Some (?r\<lparr>knowledgeBases := kbs\<rparr>)"
    unfolding q by blast+
  then show ?thesis by auto
qed

end
